(* ===== verification/RTC_Prelude.thy ===== *)
theory RTC_Prelude
  imports Complex_Main "HOL-Library.Word" "HOL-Library.Signed_Division"
begin

text \<open>
  Shared vocabulary of the STM32F1 RTC development: names for the C integer types of
  \<^verbatim>\<open>src/src/stm32f1_rtc.h\<close>, the conversions the C compiler inserts (integer
  promotion to \<open>int\<close>, conversion back to a narrower type on assignment), the
  truncating C division \<open>sdiv\<close>/\<open>smod\<close> of HOL-Library.Signed_Division, and the
  generic word lemmas the component theories share.

  Conventions: an \<open>uintN_t\<close> variable is an \<open>N word\<close> read with \<open>uint\<close>; an
  \<open>int16_t\<close> variable is a \<open>16 word\<close> read with \<open>sint\<close>; an arithmetic
  expression of the source is an \<open>int\<close> (the type C promotes it to); an assignment of
  an \<open>int\<close> to a narrower variable is \<open>word_of_int\<close>, which keeps the low bits as
  GCC does on ARM.
\<close>

unbundle bit_operations_syntax

type_synonym u8 = "8 word"
type_synonym u16 = "16 word"
type_synonym i16 = "16 word"
type_synonym u32 = "32 word"

named_theorems rtc_simps "arithmetic facts that evaluate the driver's definitions"

subsection \<open>Conversions between \<open>int\<close> and words\<close>

lemma uint_word_of_int_id [rtc_simps]:
  "0 \<le> x \<Longrightarrow> x < 2 ^ LENGTH('a) \<Longrightarrow> uint (word_of_int x :: 'a::len word) = x"
  by (simp add: uint_word_of_int_eq take_bit_int_eq_self)

lemma sint_word_of_int_id [rtc_simps]:
  "- (2 ^ (LENGTH('a) - 1)) \<le> x \<Longrightarrow> x < 2 ^ (LENGTH('a) - 1) \<Longrightarrow>
   sint (word_of_int x :: 'a::len word) = x"
  by (simp add: sint_sbintrunc' signed_take_bit_int_eq_self)

lemma word_of_int_uint_add:
  "(word_of_int (uint a + uint b) :: 'a::len word) = a + b"
  by (metis wi_hom_add word_of_int_uint)

subsection \<open>Single-bit masks\<close>

lemma bit_numeral_Bit0_int:
  "bit (numeral (num.Bit0 w) :: int) n = (0 < n \<and> bit (numeral w :: int) (n - 1))"
  by (cases n) (simp_all add: bit_numeral_Bit0_Suc_iff)

lemma bit_small_u32:
  "bit (1 :: u32) n = (n = 0)" "bit (2 :: u32) n = (n = 1)" "bit (4 :: u32) n = (n = 2)"
  by (auto simp: bit_numeral_word_iff bit_numeral_Bit0_int bit_1_iff)

lemma and_exp_word:
  "n < LENGTH('a) \<Longrightarrow> (w :: 'a::len word) AND 2 ^ n = (if bit w n then 2 ^ n else 0)"
  by (rule bit_word_eqI) (auto simp: bit_simps)

lemma and_flag_bits [simp]:
  "(w :: u32) AND 1 = (if bit w 0 then 1 else 0)"
  "w AND 2 = (if bit w 1 then 2 else 0)"
  "w AND 4 = (if bit w 2 then 4 else 0)"
  using and_exp_word [of 0 w] and_exp_word [of 1 w] and_exp_word [of 2 w] by simp_all

subsection \<open>C's truncating division\<close>

lemma sdiv_nonneg [rtc_simps]: "0 \<le> a \<Longrightarrow> 0 < b \<Longrightarrow> (a::int) sdiv b = a div b"
  by (simp add: signed_divide_int_def sgn_if)

lemma smod_nonneg [rtc_simps]: "0 \<le> a \<Longrightarrow> 0 < b \<Longrightarrow> (a::int) smod b = a mod b"
  by (simp add: signed_modulo_int_def sgn_if)

lemma sdiv_nonpos: "a \<le> 0 \<Longrightarrow> 0 < b \<Longrightarrow> (a::int) sdiv b = - ((- a) div b)"
  by (simp add: signed_divide_int_def sgn_if)

lemma smod_nonpos: "a \<le> 0 \<Longrightarrow> 0 < b \<Longrightarrow> (a::int) smod b = - ((- a) mod b)"
  by (simp add: signed_modulo_int_def sgn_if)

lemma smod_eq_0_iff: "0 < b \<Longrightarrow> ((a::int) smod b = 0) = (a mod b = 0)"
  by (cases "0 \<le> a") (auto simp: smod_nonneg smod_nonpos zmod_zminus1_not_zero)

end
