(* ===== verification/Gregorian.thy ===== *)
theory Gregorian
  imports RTC_Prelude
begin

text \<open>
  The Gregorian calendar converter of \<^verbatim>\<open>src/src/stm32f1_rtc.cpp\<close>:
  \<^verbatim>\<open>epochToDate\<close>, \<^verbatim>\<open>epochToTime\<close>, \<^verbatim>\<open>dateTimeToEpoch\<close> and their helpers
  \<^verbatim>\<open>getNumberOfDaysUntilMonth\<close> and \<^verbatim>\<open>getSumOfDayFromYearValue\<close>, over the
  structures \<^verbatim>\<open>DateVar\<close> and \<^verbatim>\<open>TimeVar\<close> of \<^verbatim>\<open>stm32f1_rtc.h\<close>.
  Reference parameters (\<^verbatim>\<open>DateVar & rdate\<close>) are passed in and returned updated.
\<close>

subsection \<open>Data\<close>

record DateVar =
  numberOfDays :: u16
  year :: u16
  month :: i16
  day :: i16
  weekday :: u8
  isLeapYear :: bool

record TimeVar =
  hours :: i16
  minutes :: i16
  seconds :: i16

text \<open>The private array \<^verbatim>\<open>numberOfDaysUntilMonth[12]\<close> of class \<^verbatim>\<open>STM32F1_RTC\<close>.\<close>

definition numberOfDaysUntilMonth :: "u16 list" where
  "numberOfDaysUntilMonth = [0, 31, 59, 90, 120, 151, 181, 212, 243, 273, 304, 334]"

subsection \<open>Helpers\<close>

text \<open>
  \<^verbatim>\<open>getNumberOfDaysUntilMonth(int16_t monthIndex, bool isLeapYear)\<close>. An index outside
  0..11 reads outside the array (undefined behaviour): the model leaves it unspecified,
  and the lemmas below show that no caller passes one.
\<close>

definition getNumberOfDaysUntilMonth :: "i16 \<Rightarrow> bool \<Rightarrow> u16" where
  "getNumberOfDaysUntilMonth monthIndex leap =
     (let n = (if 0 \<le> sint monthIndex \<and> sint monthIndex < 12
               then numberOfDaysUntilMonth ! nat (sint monthIndex) else undefined)
      in if leap \<and> sint monthIndex > 1 then n + 1 else n)"

text \<open>
  \<^verbatim>\<open>getSumOfDayFromYearValue(uint16_t year)\<close>: the float expression
  \<^verbatim>\<open>(year - 1970) * 365.25 + 0.25\<close>, less \<^verbatim>\<open>0.5\<close> after 2100, truncated to
  \<^verbatim>\<open>uint16_t\<close>. All these values are multiples of 1/4 below 2^16 for years
  1970..2149, which a float holds exactly, so the float arithmetic is the exact rational
  one there; the truncation is the floor for these non-negative values.
\<close>

definition getSumOfDayFromYearValue :: "u16 \<Rightarrow> u16" where
  "getSumOfDayFromYearValue y =
     (let fsod = of_int (uint y - 1970) * (365.25 :: rat) + 0.25;
          fsod' = (if y > 2100 then fsod - 0.5 else fsod)
      in word_of_int \<lfloor>fsod'\<rfloor>)"

text \<open>The leap-year test written inline at lines 160 and 195.\<close>

definition leapOf :: "u16 \<Rightarrow> bool" where
  "leapOf y \<longleftrightarrow> (uint y - 1968) smod 4 = 0 \<and> y \<noteq> 2100"

subsection \<open>epochToDate\<close>

text \<open>
  The month search \<^verbatim>\<open>for (int8_t i = DECEMBER; i >= JANUARY; i--)\<close>: the first
  month from December down whose cumulative day count does not exceed \<open>sod\<close> sets
  \<^verbatim>\<open>day\<close> and \<^verbatim>\<open>month\<close> and breaks; if none did, the fields stay as they were.
\<close>

fun monthSearch :: "nat \<Rightarrow> bool \<Rightarrow> u16 \<Rightarrow> DateVar \<Rightarrow> DateVar" where
  "monthSearch i leap sod rdate =
     (let dom = getNumberOfDaysUntilMonth (word_of_nat i) leap
      in if dom \<le> sod
         then rdate\<lparr>day := word_of_int (uint sod - uint dom + 1), month := word_of_int (int i + 1)\<rparr>
         else if i = 0 then rdate else monthSearch (i - 1) leap sod rdate)"

text \<open>Lines 156--159: the year estimate and its one correction.\<close>

definition yearOfDays :: "u16 \<Rightarrow> u16" where
  "yearOfDays nd =
     (let y = word_of_int (uint nd div 365 + 1970)
      in if getSumOfDayFromYearValue y > nd then y - 1 else y)"

definition epochToDate :: "u32 \<Rightarrow> DateVar \<Rightarrow> DateVar" where
  "epochToDate time rdate =
     (let nd = (ucast (time div 86400) :: u16);
          y = yearOfDays nd;
          leap = leapOf y;
          sod = nd - getSumOfDayFromYearValue y;
          r = monthSearch 11 leap sod (rdate\<lparr>numberOfDays := nd, year := y, isLeapYear := leap\<rparr>)
      in r\<lparr>weekday := word_of_int ((uint nd + 4) mod 7)\<rparr>)"

definition epochToTime :: "u32 \<Rightarrow> TimeVar \<Rightarrow> TimeVar" where
  "epochToTime time rtime =
     (let tm = time mod 86400;
          h = tm div 3600;
          tm' = tm mod 3600
      in rtime\<lparr>hours := ucast h, minutes := ucast (tm' div 60), seconds := ucast (tm' mod 60)\<rparr>)"

definition epochToDateTime :: "u32 \<Rightarrow> DateVar \<Rightarrow> TimeVar \<Rightarrow> DateVar \<times> TimeVar" where
  "epochToDateTime time rdate rtime = (epochToDate time rdate, epochToTime time rtime)"

subsection \<open>dateTimeToEpoch\<close>

text \<open>Lines 183--190: carrying whole years out of an out-of-range month (C division).\<close>

definition normalizeMonth :: "u16 \<Rightarrow> i16 \<Rightarrow> u16 \<times> i16" where
  "normalizeMonth y m =
     (if sint m > 0
      then (word_of_int (uint y + (sint m - 1) sdiv 12), word_of_int ((sint m - 1) smod 12 + 1))
      else (word_of_int (uint y - (1 - sint m sdiv 12)), word_of_int (12 + sint m smod 12)))"

text \<open>Lines 191--194.\<close>

definition clampYear :: "u16 \<Rightarrow> u16" where
  "clampYear y = (if y < 1970 then 1970 else if y > 2105 then 2105 else y)"

text \<open>
  Lines 181--201. The epoch is computed in \<open>int\<close> and stored into \<^verbatim>\<open>uint32_t\<close>;
  \<^verbatim>\<open>numberOfDays * 86400\<close> overflows a signed \<open>int\<close> after 2038, where the
  compiled code wraps modulo 2^32, which is what \<open>word_of_int\<close> computes.
  Returns the epoch and the two updated reference parameters.
\<close>

definition dateTimeToEpoch :: "DateVar \<Rightarrow> TimeVar \<Rightarrow> u32 \<times> DateVar \<times> TimeVar" where
  "dateTimeToEpoch rdate rtime =
     (let (y1, m1) = normalizeMonth (year rdate) (month rdate);
          y2 = clampYear y1;
          leap = leapOf y2;
          nd = (word_of_int (uint (getSumOfDayFromYearValue y2)
                  + uint (getNumberOfDaysUntilMonth (m1 - 1) leap) + sint (day rdate) - 1) :: u16);
          time = (word_of_int (uint nd * 86400 + sint (hours rtime) * 3600
                  + sint (minutes rtime) * 60 + sint (seconds rtime)) :: u32);
          rdate' = rdate\<lparr>year := y2, month := m1, isLeapYear := leap, numberOfDays := nd\<rparr>
      in (time, epochToDate time rdate', epochToTime time rtime))"

subsection \<open>Evaluation lemmas\<close>

lemma sint_word_of_nat_small [rtc_simps]:
  assumes "j < 2 ^ (LENGTH('a) - 1)"
  shows "sint (word_of_nat j :: 'a::len word) = int j"
proof -
  have "(0::int) \<le> 2 ^ (LENGTH('a) - 1)" by simp
  then have "- (2 ^ (LENGTH('a) - 1)) \<le> int j" by linarith
  moreover have "int j < 2 ^ (LENGTH('a) - 1)"
    using assms by (simp add: of_nat_less_iff [symmetric])
  ultimately have "sint (word_of_int (int j) :: 'a word) = int j"
    by (rule sint_word_of_int_id)
  then show ?thesis by simp
qed

lemma uint_getSumOfDayFromYearValue:
  assumes "1970 \<le> uint y" "uint y \<le> 2149"
  shows "uint (getSumOfDayFromYearValue y) =
         (1461 * (uint y - 1970) + (if 2100 < uint y then -1 else 1)) div 4"
proof -
  let ?k = "uint y - 1970" and ?c = "if 2100 < uint y then -1 else (1::int)"
  have gt: "(y > 2100) = (2100 < uint y)"
    by (simp add: word_less_def)
  have q: "of_int ?k * (365.25 :: rat) + 0.25 - (if y > 2100 then 0.5 else 0) =
           of_int (1461 * ?k + ?c) / of_int 4"
    unfolding gt by (simp add: field_simps)
  have "getSumOfDayFromYearValue y =
        word_of_int \<lfloor>of_int ?k * (365.25 :: rat) + 0.25 - (if y > 2100 then 0.5 else 0)\<rfloor>"
    unfolding getSumOfDayFromYearValue_def Let_def by (cases "y > 2100") simp_all
  also have "\<dots> = word_of_int \<lfloor>of_int (1461 * ?k + ?c) / (of_int 4 :: rat)\<rfloor>"
    by (simp only: q)
  also have "\<dots> = word_of_int ((1461 * ?k + ?c) div 4)"
    by (simp only: floor_divide_of_int_eq)
  finally have eq: "getSumOfDayFromYearValue y = word_of_int ((1461 * ?k + ?c) div 4)" .
  have "0 \<le> (1461 * ?k + ?c) div 4" "(1461 * ?k + ?c) div 4 < 2 ^ LENGTH(16)"
    using assms by auto
  then show ?thesis
    unfolding eq by (rule uint_word_of_int_id)
qed

lemma getNumberOfDaysUntilMonth_nat:
  "j < 12 \<Longrightarrow> getNumberOfDaysUntilMonth (word_of_nat j) leap =
     (if leap \<and> 1 < j then numberOfDaysUntilMonth ! j + 1 else numberOfDaysUntilMonth ! j)"
  by (simp add: getNumberOfDaysUntilMonth_def sint_word_of_nat_small Let_def)

lemma uint_u16_lt: "uint (w :: u16) < 65536"
  using uint_lt2p [of w] by simp

lemma sod_step_bounds:
  fixes k :: int
  assumes "0 \<le> k" "k \<le> 179"
  shows "365 * k \<le> (1461 * k + (if 130 < k then -1 else 1)) div 4"
    and "(1461 * k + (if 130 < k then -1 else 1)) div 4 \<le> 365 * k + 45"
    and "(1461 * (k + 1) + (if 130 < k + 1 then -1 else 1)) div 4
         \<le> (1461 * k + (if 130 < k then -1 else 1)) div 4 + 366"
  using assms by (auto split: if_splits)

lemma yearOfDays_bounds:
  fixes nd :: u16
  defines "Y \<equiv> yearOfDays nd"
  shows "1970 \<le> uint Y \<and> uint Y \<le> 2149 \<and>
         uint (getSumOfDayFromYearValue Y) \<le> uint nd \<and>
         uint nd < uint (getSumOfDayFromYearValue Y) + 366"
proof -
  define k where "k = uint nd div 365"
  have k: "0 \<le> k" "k \<le> 179" "365 * k \<le> uint nd" "uint nd < 365 * k + 365"
    using uint_u16_lt [of nd] by (auto simp: k_def pos_imp_zdiv_nonneg_iff)
  define y0 :: u16 where "y0 = word_of_int (k + 1970)"
  have y0: "uint y0 = k + 1970"
    unfolding y0_def by (rule uint_word_of_int_id) (use k in simp_all)
  have S0: "uint (getSumOfDayFromYearValue y0) = (1461 * k + (if 130 < k then -1 else 1)) div 4"
    using k by (simp add: uint_getSumOfDayFromYearValue y0)
  have Y: "Y = (if getSumOfDayFromYearValue y0 > nd then y0 - 1 else y0)"
    unfolding Y_def yearOfDays_def y0_def k_def Let_def by simp
  show ?thesis
  proof (cases "getSumOfDayFromYearValue y0 > nd")
    case False
    then have "uint (getSumOfDayFromYearValue y0) \<le> uint nd"
      by (simp add: word_less_def)
    with False Y y0 S0 k sod_step_bounds(1) [of k] show ?thesis by simp
  next
    case True
    then have lt: "uint nd < uint (getSumOfDayFromYearValue y0)"
      by (simp add: word_less_def)
    have "0 < k"
      using lt S0 k by (cases "k = 0") simp_all
    then have Y1: "uint Y = k + 1969"
      using True Y y0 by (simp add: uint_sub_if')
    have S1: "uint (getSumOfDayFromYearValue Y) = (1461 * (k - 1) + (if 130 < k - 1 then -1 else 1)) div 4"
      using Y1 k \<open>0 < k\<close> by (simp add: uint_getSumOfDayFromYearValue)
    show ?thesis
      using Y1 S1 S0 lt k \<open>0 < k\<close> sod_step_bounds(2,3) [of "k - 1"] by simp
  qed
qed

lemma getNumberOfDaysUntilMonth_0 [simp]: "getNumberOfDaysUntilMonth 0 leap = 0"
  by (simp add: getNumberOfDaysUntilMonth_def numberOfDaysUntilMonth_def)

lemma uint_getNumberOfDaysUntilMonth_le:
  "j < 12 \<Longrightarrow> uint (getNumberOfDaysUntilMonth (word_of_nat j) leap) \<le> 335"
proof -
  have "\<forall>j \<in> set [0..<12]. uint (getNumberOfDaysUntilMonth (word_of_nat j) leap) \<le> 335"
    by (simp add: upt_rec getNumberOfDaysUntilMonth_def numberOfDaysUntilMonth_def Let_def)
  then show "j < 12 \<Longrightarrow> ?thesis" by simp
qed

declare monthSearch.simps [simp del]

lemma monthSearch_frame [simp]:
  "numberOfDays (monthSearch i leap sod r) = numberOfDays r"
  "year (monthSearch i leap sod r) = year r"
  "isLeapYear (monthSearch i leap sod r) = isLeapYear r"
  "weekday (monthSearch i leap sod r) = weekday r"
  by (induction i leap sod r rule: monthSearch.induct; subst monthSearch.simps; simp add: Let_def)+

text \<open>The loop always breaks (January's count is 0), so its result does not depend on the
  \<open>day\<close> and \<open>month\<close> fields it was given.\<close>

lemma monthSearch_update:
  "monthSearch i leap sod r =
   r\<lparr>day := day (monthSearch i leap sod r'), month := month (monthSearch i leap sod r')\<rparr>"
proof (induction i leap sod r rule: monthSearch.induct)
  case (1 i leap sod r)
  show ?case
    using "1.IH" by (simp only: monthSearch.simps [of i leap sod]) (auto simp: Let_def)
qed

lemma monthSearch_breaks:
  "\<exists>j\<le>i. getNumberOfDaysUntilMonth (word_of_nat j) leap \<le> sod \<and>
     (\<forall>k. j < k \<and> k \<le> i \<longrightarrow> sod < getNumberOfDaysUntilMonth (word_of_nat k) leap) \<and>
     monthSearch i leap sod r =
       r\<lparr>day := word_of_int (uint sod - uint (getNumberOfDaysUntilMonth (word_of_nat j) leap) + 1),
         month := word_of_int (int j + 1)\<rparr>"
proof (induction i leap sod r rule: monthSearch.induct)
  case (1 i leap sod r)
  show ?case
  proof (cases "getNumberOfDaysUntilMonth (word_of_nat i) leap \<le> sod")
    case True
    then show ?thesis
      by (subst monthSearch.simps) (auto simp: Let_def)
  next
    case False
    then have "i \<noteq> 0" by (cases i) simp_all
    with False "1.IH" obtain j where j: "j \<le> i - 1"
      "getNumberOfDaysUntilMonth (word_of_nat j) leap \<le> sod"
      "\<forall>k. j < k \<and> k \<le> i - 1 \<longrightarrow> sod < getNumberOfDaysUntilMonth (word_of_nat k) leap"
      "monthSearch (i - 1) leap sod r =
         r\<lparr>day := word_of_int (uint sod - uint (getNumberOfDaysUntilMonth (word_of_nat j) leap) + 1),
           month := word_of_int (int j + 1)\<rparr>"
      by (auto simp: Let_def)
    have "\<forall>k. j < k \<and> k \<le> i \<longrightarrow> sod < getNumberOfDaysUntilMonth (word_of_nat k) leap"
      using j(3) False by (metis Suc_pred' le_Suc_eq \<open>i \<noteq> 0\<close> bot_nat_0.not_eq_extremum not_le)
    moreover have "monthSearch i leap sod r = monthSearch (i - 1) leap sod r"
      using False \<open>i \<noteq> 0\<close> by (subst monthSearch.simps) (simp add: Let_def)
    ultimately show ?thesis
      using j \<open>i \<noteq> 0\<close> by (intro exI [of _ j]) auto
  qed
qed

lemma ucast_word_of_int: "(ucast (x :: 'a::len word) :: 'b::len word) = word_of_int (uint x)"
  by transfer simp

lemma uint_epoch_days: "uint (ucast ((e::u32) div 86400) :: u16) = uint e div 86400"
proof -
  have "0 \<le> uint e div 86400" "uint e div 86400 < 2 ^ LENGTH(16)"
    using uint_lt2p [of e] by (simp_all add: pos_imp_zdiv_nonneg_iff)
  then have "uint (word_of_int (uint e div 86400) :: u16) = uint e div 86400"
    by (rule uint_word_of_int_id)
  then show ?thesis
    by (simp add: ucast_word_of_int uint_div)
qed

text \<open>What \<open>epochToDate\<close> stores, field by field.\<close>

lemma epochToDate_frame:
  fixes e :: u32
  defines "nd \<equiv> (ucast (e div 86400) :: u16)"
  shows "numberOfDays (epochToDate e r) = nd"
    and "year (epochToDate e r) = yearOfDays nd"
    and "isLeapYear (epochToDate e r) = leapOf (yearOfDays nd)"
    and "weekday (epochToDate e r) = word_of_int ((uint nd + 4) mod 7)"
  by (simp_all add: epochToDate_def Let_def nd_def)

lemma epochToDate_month_day:
  fixes e :: u32
  defines "nd \<equiv> (ucast (e div 86400) :: u16)"
  defines "sod \<equiv> nd - getSumOfDayFromYearValue (yearOfDays nd)"
  defines "leap \<equiv> leapOf (yearOfDays nd)"
  obtains j where "j < 12" "getNumberOfDaysUntilMonth (word_of_nat j) leap \<le> sod"
    "\<forall>k. j < k \<and> k < 12 \<longrightarrow> sod < getNumberOfDaysUntilMonth (word_of_nat k) leap"
    "month (epochToDate e r) = word_of_int (int j + 1)"
    "day (epochToDate e r) =
       word_of_int (uint sod - uint (getNumberOfDaysUntilMonth (word_of_nat j) leap) + 1)"
proof -
  let ?r1 = "r\<lparr>numberOfDays := nd, year := yearOfDays nd, isLeapYear := leap\<rparr>"
  obtain j where j: "j \<le> 11" "getNumberOfDaysUntilMonth (word_of_nat j) leap \<le> sod"
    "\<forall>k. j < k \<and> k \<le> 11 \<longrightarrow> sod < getNumberOfDaysUntilMonth (word_of_nat k) leap"
    "monthSearch 11 leap sod ?r1 =
       ?r1\<lparr>day := word_of_int (uint sod - uint (getNumberOfDaysUntilMonth (word_of_nat j) leap) + 1),
         month := word_of_int (int j + 1)\<rparr>"
    using monthSearch_breaks [of 11 leap sod ?r1] by blast
  have e: "epochToDate e r = (monthSearch 11 leap sod ?r1)\<lparr>weekday := word_of_int ((uint nd + 4) mod 7)\<rparr>"
    by (simp add: epochToDate_def Let_def nd_def sod_def leap_def)
  show ?thesis
    by (rule that [of j]) (use j e in auto)
qed

text \<open>The same fields as integers: the offset in the year, the month and the day.\<close>

lemma epochToDate_ints:
  fixes e :: u32
  defines "nd \<equiv> (ucast (e div 86400) :: u16)"
  defines "sod \<equiv> nd - getSumOfDayFromYearValue (yearOfDays nd)"
  defines "leap \<equiv> leapOf (yearOfDays nd)"
  obtains j where "j < 12" "getNumberOfDaysUntilMonth (word_of_nat j) leap \<le> sod"
    "\<forall>k. j < k \<and> k < 12 \<longrightarrow> sod < getNumberOfDaysUntilMonth (word_of_nat k) leap"
    "month (epochToDate e r) = word_of_int (int j + 1)"
    "day (epochToDate e r) =
       word_of_int (uint sod - uint (getNumberOfDaysUntilMonth (word_of_nat j) leap) + 1)"
    "uint sod = uint nd - uint (getSumOfDayFromYearValue (yearOfDays nd))"
    "sint (month (epochToDate e r)) = int j + 1"
    "sint (day (epochToDate e r)) = uint sod - uint (getNumberOfDaysUntilMonth (word_of_nat j) leap) + 1"
    "1 \<le> uint sod - uint (getNumberOfDaysUntilMonth (word_of_nat j) leap) + 1"
    "uint sod - uint (getNumberOfDaysUntilMonth (word_of_nat j) leap) + 1 \<le> 366"
proof -
  obtain j where j: "j < 12" "getNumberOfDaysUntilMonth (word_of_nat j) leap \<le> sod"
    "\<forall>k. j < k \<and> k < 12 \<longrightarrow> sod < getNumberOfDaysUntilMonth (word_of_nat k) leap"
    "month (epochToDate e r) = word_of_int (int j + 1)"
    "day (epochToDate e r) =
       word_of_int (uint sod - uint (getNumberOfDaysUntilMonth (word_of_nat j) leap) + 1)"
    unfolding nd_def sod_def leap_def by (rule epochToDate_month_day)
  let ?dom = "getNumberOfDaysUntilMonth (word_of_nat j) leap"
  have Yb: "uint (getSumOfDayFromYearValue (yearOfDays nd)) \<le> uint nd"
    "uint nd < uint (getSumOfDayFromYearValue (yearOfDays nd)) + 366"
    using yearOfDays_bounds [of nd] by simp_all
  have usod: "uint sod = uint nd - uint (getSumOfDayFromYearValue (yearOfDays nd))"
    using Yb by (simp add: sod_def uint_sub_if' word_le_def)
  have "uint ?dom \<le> uint sod" using j(2) by (simp add: word_le_def)
  moreover have "0 \<le> uint ?dom" by simp
  ultimately have db: "1 \<le> uint sod - uint ?dom + 1" "uint sod - uint ?dom + 1 \<le> 366"
    using usod Yb by linarith+
  have "sint (day (epochToDate e r)) = uint sod - uint ?dom + 1"
    unfolding j(5) by (intro sint_word_of_int_id) (use db in simp_all)
  moreover have "sint (month (epochToDate e r)) = int j + 1"
    unfolding j(4) by (rule sint_word_of_int_id) (use j(1) in simp_all)
  ultimately show ?thesis using that j usod db by blast
qed

lemma epochToDate_indep: "epochToDate e r = epochToDate e r'"
  unfolding epochToDate_def Let_def
  by (subst (1 2) monthSearch_update [where r' = r]) (cases r, cases r', simp)

lemma sint_ucast_u32_small:
  assumes "uint x < 32768"
  shows "sint (ucast (x :: u32) :: i16) = uint x"
proof -
  have "0 \<le> uint x" "- (2 ^ (LENGTH(16) - 1)) \<le> (0::int)" by simp_all
  then have "- (2 ^ (LENGTH(16) - 1)) \<le> uint x" by linarith
  moreover have "uint x < 2 ^ (LENGTH(16) - 1)"
    using assms by simp
  ultimately
  have "sint (word_of_int (uint x) :: i16) = uint x"
    by (rule sint_word_of_int_id)
  then show ?thesis by (simp only: ucast_word_of_int)
qed

lemma epochToTime_fields:
  "sint (hours (epochToTime e rt)) = uint e mod 86400 div 3600"
  "sint (minutes (epochToTime e rt)) = uint e mod 86400 mod 3600 div 60"
  "sint (seconds (epochToTime e rt)) = uint e mod 86400 mod 3600 mod 60"
proof -
  have u: "uint (e mod 86400 div 3600) = uint e mod 86400 div 3600"
    "uint (e mod 86400 mod 3600 div 60) = uint e mod 86400 mod 3600 div 60"
    "uint (e mod 86400 mod 3600 mod 60) = uint e mod 86400 mod 3600 mod 60"
    by (simp_all add: uint_div uint_mod)
  have b: "uint e mod 86400 div 3600 < 32768" "uint e mod 86400 mod 3600 div 60 < 32768"
    "uint e mod 86400 mod 3600 mod 60 < 32768"
  proof -
    have "0 \<le> uint e mod 86400" "uint e mod 86400 < 86400" by simp_all
    then show "uint e mod 86400 div 3600 < 32768" "uint e mod 86400 mod 3600 div 60 < 32768"
      "uint e mod 86400 mod 3600 mod 60 < 32768" by simp_all
  qed
  have h: "hours (epochToTime e rt) = ucast (e mod 86400 div 3600)"
    "minutes (epochToTime e rt) = ucast (e mod 86400 mod 3600 div 60)"
    "seconds (epochToTime e rt) = ucast (e mod 86400 mod 3600 mod 60)"
    by (simp_all add: epochToTime_def Let_def)
  show "sint (hours (epochToTime e rt)) = uint e mod 86400 div 3600"
    using sint_ucast_u32_small [of "e mod 86400 div 3600"] u(1) b(1) h(1) by simp
  show "sint (minutes (epochToTime e rt)) = uint e mod 86400 mod 3600 div 60"
    using sint_ucast_u32_small [of "e mod 86400 mod 3600 div 60"] u(2) b(2) h(2) by simp
  show "sint (seconds (epochToTime e rt)) = uint e mod 86400 mod 3600 mod 60"
    using sint_ucast_u32_small [of "e mod 86400 mod 3600 mod 60"] u(3) b(3) h(3) by simp
qed

lemma normalizeMonth_in_range:
  assumes "1 \<le> sint m" "sint m \<le> 12"
  shows "normalizeMonth y m = (y, m)"
proof -
  have "(sint m - 1) sdiv 12 = 0" "(sint m - 1) smod 12 + 1 = sint m"
    using assms by (simp_all add: sdiv_nonneg smod_nonneg)
  then show ?thesis
    using assms by (simp add: normalizeMonth_def)
qed

lemma clampYear_id: "1970 \<le> uint y \<Longrightarrow> uint y \<le> 2105 \<Longrightarrow> clampYear y = y"
  by (simp add: clampYear_def word_less_def)

lemma epochToTime_idem: "epochToTime e (epochToTime e' rt) = epochToTime e rt"
  by (simp add: epochToTime_def Let_def)

lemma epoch_recombine:
  "(u::int) div 86400 * 86400 + u mod 86400 div 3600 * 3600
     + u mod 86400 mod 3600 div 60 * 60 + u mod 86400 mod 3600 mod 60 = u"
proof -
  have "u mod 86400 mod 3600 div 60 * 60 + u mod 86400 mod 3600 mod 60 = u mod 86400 mod 3600"
    by (rule div_mult_mod_eq)
  moreover have "u mod 86400 div 3600 * 3600 + u mod 86400 mod 3600 = u mod 86400"
    by (rule div_mult_mod_eq)
  moreover have "u div 86400 * 86400 + u mod 86400 = u"
    by (rule div_mult_mod_eq)
  ultimately show ?thesis by linarith
qed

subsection \<open>Round trip\<close>

lemma dateTimeToEpoch_roundtrip:
  assumes "year (epochToDate e rd) \<le> 2105"
  shows "dateTimeToEpoch (epochToDate e rd) (epochToTime e rt) = (e, epochToDate e rd, epochToTime e rt)"
proof -
  define nd where "nd = (ucast (e div 86400) :: u16)"
  define Y where "Y = yearOfDays nd"
  define sod where "sod = nd - getSumOfDayFromYearValue Y"
  define leap where "leap = leapOf Y"
  obtain j where j: "j < 12" "getNumberOfDaysUntilMonth (word_of_nat j) leap \<le> sod"
    "month (epochToDate e rd) = word_of_int (int j + 1)"
    and usod: "uint sod = uint nd - uint (getSumOfDayFromYearValue Y)"
    and sm: "sint (month (epochToDate e rd)) = int j + 1"
    and sd: "sint (day (epochToDate e rd)) = uint sod - uint (getNumberOfDaysUntilMonth (word_of_nat j) leap) + 1"
    using epochToDate_ints [of e rd] unfolding nd_def Y_def sod_def leap_def by metis
  let ?dom = "getNumberOfDaysUntilMonth (word_of_nat j) leap"
  have fr: "year (epochToDate e rd) = Y" "isLeapYear (epochToDate e rd) = leap"
    by (simp_all add: epochToDate_frame nd_def Y_def leap_def)
  have Yb: "1970 \<le> uint Y"
    using yearOfDays_bounds [of nd] by (simp_all add: Y_def)
  have Y2105: "uint Y \<le> 2105"
    using assms fr by (simp add: word_le_def)
  have m1: "month (epochToDate e rd) - 1 = word_of_nat j"
    using j(3) by simp
  have nd': "(word_of_int (uint (getSumOfDayFromYearValue Y) + uint ?dom
               + sint (day (epochToDate e rd)) - 1) :: u16) = nd"
    using sd usod by simp
  have time: "(word_of_int (uint nd * 86400 + sint (hours (epochToTime e rt)) * 3600
               + sint (minutes (epochToTime e rt)) * 60 + sint (seconds (epochToTime e rt))) :: u32) = e"
    by (simp only: epochToTime_fields nd_def uint_epoch_days epoch_recombine word_of_int_uint)
  have nm: "normalizeMonth Y (month (epochToDate e rd)) = (Y, month (epochToDate e rd))"
    using sm j(1) by (intro normalizeMonth_in_range) simp_all
  have cl: "clampYear Y = Y"
    by (rule clampYear_id [OF Yb(1) Y2105])
  have "dateTimeToEpoch (epochToDate e rd) (epochToTime e rt) =
        (e, epochToDate e (epochToDate e rd\<lparr>year := Y, month := month (epochToDate e rd),
              isLeapYear := leap, numberOfDays := nd\<rparr>), epochToTime e (epochToTime e rt))"
    unfolding dateTimeToEpoch_def Let_def
    by (simp only: fr nm prod.case cl leap_def [symmetric] m1 nd' time)
  also have "\<dots> = (e, epochToDate e rd, epochToTime e rt)"
    by (simp only: epochToTime_idem epochToDate_indep [of e "epochToDate e rd\<lparr>year := Y,
          month := month (epochToDate e rd), isLeapYear := leap, numberOfDays := nd\<rparr>" rd])
  finally show ?thesis .
qed

text \<open>
  C1. Converting an epoch to a date and a time and back with \<^verbatim>\<open>dateTimeToEpoch\<close>
  returns the same epoch, and the date and time it writes back into its reference
  parameters are the ones it was given, for every epoch whose year is at most 2105
  (the clamp bound of \<^verbatim>\<open>dateTimeToEpoch\<close>).
\<close>

theorem dateTimeToEpoch_epochToDate:
  assumes "year (epochToDate e rd) \<le> 2105"
  shows "dateTimeToEpoch (epochToDate e rd) (epochToTime e rt) = (e, epochToDate e rd, epochToTime e rt)"
  using assms by (rule dateTimeToEpoch_roundtrip)

theorem dateTimeToEpoch_epochToDate_witness:
  "year (epochToDate 0 \<lparr>numberOfDays = 0, year = 0, month = 0, day = 0, weekday = 0, isLeapYear = False\<rparr>) \<le> 2105 \<and>
   dateTimeToEpoch (epochToDate 0 \<lparr>numberOfDays = 0, year = 0, month = 0, day = 0, weekday = 0, isLeapYear = False\<rparr>)
     (epochToTime 0 \<lparr>hours = 0, minutes = 0, seconds = 0\<rparr>) =
   (0, epochToDate 0 \<lparr>numberOfDays = 0, year = 0, month = 0, day = 0, weekday = 0, isLeapYear = False\<rparr>,
    epochToTime 0 \<lparr>hours = 0, minutes = 0, seconds = 0\<rparr>)"
proof -
  have h: "year (epochToDate 0 \<lparr>numberOfDays = 0, year = 0, month = 0, day = 0, weekday = 0, isLeapYear = False\<rparr>) \<le> 2105"
    by code_simp
  show ?thesis
    using h dateTimeToEpoch_epochToDate [OF h, of "\<lparr>hours = 0, minutes = 0, seconds = 0\<rparr>"] by blast
qed

subsection \<open>Field bounds\<close>

text \<open>
  C2. Every date \<^verbatim>\<open>epochToDate\<close> writes has a year in 1970..2149, a month in 1..12,
  a day in 1..366, a weekday in 0..6, \<^verbatim>\<open>numberOfDays\<close> equal to the epoch divided
  by 86400, and \<^verbatim>\<open>isLeapYear\<close> equal to the leap test of its year.
\<close>

theorem epochToDate_bounds:
  "1970 \<le> uint (year (epochToDate e r)) \<and> uint (year (epochToDate e r)) \<le> 2149 \<and>
   1 \<le> sint (month (epochToDate e r)) \<and> sint (month (epochToDate e r)) \<le> 12 \<and>
   1 \<le> sint (day (epochToDate e r)) \<and> sint (day (epochToDate e r)) \<le> 366 \<and>
   uint (weekday (epochToDate e r)) < 7 \<and>
   uint (numberOfDays (epochToDate e r)) = uint e div 86400 \<and>
   isLeapYear (epochToDate e r) = leapOf (year (epochToDate e r))"
proof -
  define nd where "nd = (ucast (e div 86400) :: u16)"
  obtain j where "j < 12" "sint (month (epochToDate e r)) = int j + 1"
    and sd: "sint (day (epochToDate e r)) \<ge> 1" "sint (day (epochToDate e r)) \<le> 366"
    using epochToDate_ints [of e r] unfolding nd_def by (metis (no_types, lifting))
  moreover have "1970 \<le> uint (yearOfDays nd)" "uint (yearOfDays nd) \<le> 2149"
    using yearOfDays_bounds [of nd] by simp_all
  moreover have "uint (weekday (epochToDate e r)) < 7"
    by (simp add: epochToDate_frame uint_word_of_int_id)
  ultimately show ?thesis
    by (simp add: epochToDate_frame nd_def uint_epoch_days)
qed

text \<open>
  C6. \<^verbatim>\<open>epochToTime\<close> writes hours in 0..23 and minutes and seconds in 0..59, which
  together count the seconds of the epoch since midnight.
\<close>

theorem epochToTime_bounds:
  "0 \<le> sint (hours (epochToTime e rt)) \<and> sint (hours (epochToTime e rt)) < 24 \<and>
   0 \<le> sint (minutes (epochToTime e rt)) \<and> sint (minutes (epochToTime e rt)) < 60 \<and>
   0 \<le> sint (seconds (epochToTime e rt)) \<and> sint (seconds (epochToTime e rt)) < 60 \<and>
   sint (hours (epochToTime e rt)) * 3600 + sint (minutes (epochToTime e rt)) * 60
     + sint (seconds (epochToTime e rt)) = uint e mod 86400"
proof -
  define u where "u = uint e mod 86400"
  have u: "0 \<le> u" "u < 86400" by (simp_all add: u_def)
  have f: "sint (hours (epochToTime e rt)) = u div 3600"
    "sint (minutes (epochToTime e rt)) = u mod 3600 div 60"
    "sint (seconds (epochToTime e rt)) = u mod 3600 mod 60"
    by (simp_all only: epochToTime_fields u_def)
  have "u div 3600 * 3600 + u mod 3600 = u" "u mod 3600 div 60 * 60 + u mod 3600 mod 60 = u mod 3600"
    by (rule div_mult_mod_eq)+
  moreover have "0 \<le> u div 3600" "u div 3600 < 24" "0 \<le> u mod 3600 div 60" "u mod 3600 div 60 < 60"
    "0 \<le> u mod 3600 mod 60" "u mod 3600 mod 60 < 60"
    using u by simp_all
  ultimately show ?thesis
    unfolding f u_def [symmetric] by linarith
qed

end
