(* ===== verification/Gregorian_Reference.thy ===== *)
theory Gregorian_Reference
  imports Gregorian
begin

text \<open>
  An abstract specification of the Gregorian day count: \<open>gregorianLeap\<close> is the
  standard rule (divisible by 4, centuries only when divisible by 400), \<open>yearLength\<close>
  the length of a year under it, and \<open>daysBeforeYear n\<close> the number of days from
  1970-01-01 to January 1 of year 1970 + n. The driver's \<open>getSumOfDayFromYearValue\<close>
  refines it up to 2102 and departs from it in 2103 and 2104, which makes
  \<^verbatim>\<open>epochToDate\<close> produce a 32nd of December.
\<close>

definition gregorianLeap :: "int \<Rightarrow> bool" where
  "gregorianLeap y \<longleftrightarrow> 4 dvd y \<and> (\<not> 100 dvd y \<or> 400 dvd y)"

definition yearLength :: "int \<Rightarrow> int" where
  "yearLength y = (if gregorianLeap y then 366 else 365)"

fun daysBeforeYear :: "nat \<Rightarrow> int" where
  "daysBeforeYear 0 = 0"
| "daysBeforeYear (Suc n) = daysBeforeYear n + yearLength (1970 + int n)"

text \<open>The length of month \<open>m\<close> (1..12) of the Gregorian calendar.\<close>

definition monthLength :: "int \<Rightarrow> bool \<Rightarrow> int" where
  "monthLength m leap =
     (if m = 2 then (if leap then 29 else 28) else if m \<in> {4, 6, 9, 11} then 30 else 31)"

lemma gregorianLeap_window:
  assumes "1970 \<le> y" "y \<le> 2199"
  shows "gregorianLeap y \<longleftrightarrow> 4 dvd y \<and> y \<noteq> 2100"
proof -
  have c: "y = 2000 \<or> y = 2100" if "100 dvd y"
  proof -
    from that obtain q where q: "y = 100 * q" by (rule dvdE)
    with assms have "q = 20 \<or> q = 21" by arith
    with q show ?thesis by auto
  qed
  show ?thesis
    unfolding gregorianLeap_def using c by auto
qed

lemma daysBeforeYear_closed:
  "n \<le> 136 \<Longrightarrow> daysBeforeYear n = 365 * int n + (int n + 1) div 4 - (if 130 < n then 1 else 0)"
proof (induction n)
  case 0
  then show ?case by simp
next
  case (Suc n)
  then have IH: "daysBeforeYear n = 365 * int n + (int n + 1) div 4 - (if 130 < n then 1 else 0)"
    by simp
  have "4 dvd (1970 + int n) \<longleftrightarrow> (int n + 2) mod 4 = 0" by presburger
  then have "yearLength (1970 + int n) = (if (int n + 2) mod 4 = 0 \<and> int n \<noteq> 130 then 366 else 365)"
    using Suc.prems by (simp add: yearLength_def gregorianLeap_window)
  with IH show ?case by (auto split: if_splits) presburger+
qed



text \<open>The closed form of \<^verbatim>\<open>getSumOfDayFromYearValue\<close> against that of the reference:
  equal for every year offset up to 136 (year 2106) but 133 and 134.\<close>

lemma closed_lin: "(1461 * (k::int) + 1) div 4 = 365 * k + (k + 1) div 4"
proof -
  have "1461 * k + 1 = (k + 1) + (365 * k) * 4" by simp
  then show ?thesis by (simp only: div_mult_self1 [of 4 "k + 1" "365 * k"])
qed

lemma sum_closed_eq:
  fixes k :: int
  assumes "0 \<le> k" "k \<le> 136"
  shows "(1461 * k + (if 130 < k then -1 else 1)) div 4
         = 365 * k + (k + 1) div 4 - (if 130 < k then 1 else 0) + (if k = 133 \<or> k = 134 then 1 else 0)"
proof (cases "130 < k")
  case True
  with assms have "k = 131 \<or> k = 132 \<or> k = 133 \<or> k = 134 \<or> k = 135 \<or> k = 136" by linarith
  then show ?thesis by (elim disjE) simp_all
next
  case False
  then show ?thesis by (simp add: closed_lin)
qed

lemma getSumOfDayFromYearValue_closed:
  assumes "1970 \<le> uint y" "uint y \<le> 2106"
  shows "uint (getSumOfDayFromYearValue y) =
         daysBeforeYear (nat (uint y - 1970)) + (if uint y = 2103 \<or> uint y = 2104 then 1 else 0)"
proof -
  define k where "k = uint y - 1970"
  have k: "0 \<le> k" "k \<le> 136" using assms by (simp_all add: k_def)
  have "daysBeforeYear (nat k) = 365 * k + (k + 1) div 4 - (if 130 < k then 1 else 0)"
  proof -
    have "(130 < nat k) = (130 < k)" using k by linarith
    then show ?thesis using k daysBeforeYear_closed [of "nat k"] by simp
  qed
  moreover have "uint (getSumOfDayFromYearValue y) = (1461 * k + (if 130 < k then -1 else 1)) div 4"
    using assms uint_getSumOfDayFromYearValue [of y] by (simp add: k_def)
  moreover have "(uint y = 2103 \<or> uint y = 2104) = (k = 133 \<or> k = 134)" by (auto simp: k_def)
  ultimately show ?thesis using sum_closed_eq [OF k] by (simp add: k_def)
qed



text \<open>
  C5. Over every year \<^verbatim>\<open>epochToDate\<close> can produce (1970..2106),
  \<^verbatim>\<open>getSumOfDayFromYearValue\<close> departs from the Gregorian day count in exactly two
  years, 2103 and 2104, where it counts one day too many: the correction
  \<^verbatim>\<open>fsod -= 0.5\<close> after 2100 leaves 2102 with 366 days and 2104 with 365.
\<close>

theorem getSumOfDayFromYearValue_error_years:
  assumes "1970 \<le> uint y" "uint y \<le> 2106"
  shows "uint (getSumOfDayFromYearValue y) = daysBeforeYear (nat (uint y - 1970)) \<longleftrightarrow>
         uint y \<noteq> 2103 \<and> uint y \<noteq> 2104"
  using getSumOfDayFromYearValue_closed [OF assms] by simp

theorem getSumOfDayFromYearValue_error_years_witness:
  "1970 \<le> uint (2103 :: u16) \<and> uint (2103 :: u16) \<le> 2106 \<and>
   uint (getSumOfDayFromYearValue 2103) \<noteq> daysBeforeYear (nat (uint (2103 :: u16) - 1970))"
proof -
  have h: "1970 \<le> uint (2103 :: u16)" "uint (2103 :: u16) \<le> 2106" by simp_all
  show ?thesis using h getSumOfDayFromYearValue_error_years [OF h] by simp
qed

end
