(* ===== verification/Gregorian_Order.thy ===== *)
theory Gregorian_Order
  imports Gregorian_Reference "HOL-Library.Product_Lexorder"
begin

text \<open>
  The order of the dates \<^verbatim>\<open>epochToDate\<close> writes. A date is compared by its key
  (year, month, day) in the lexicographic order of \<open>HOL-Library.Product_Lexorder\<close>.
\<close>

definition dateKey :: "DateVar \<Rightarrow> int \<times> int \<times> int" where
  "dateKey r = (uint (year r), sint (month r), sint (day r))"

text \<open>The year estimate of lines 156--159 in integers: the quotient by 365, less one
  when the estimate's first day lies after the day.\<close>

lemma uint_yearOfDays:
  "uint (yearOfDays nd) = uint nd div 365 + 1970 -
     (if uint nd < uint (getSumOfDayFromYearValue (word_of_int (uint nd div 365 + 1970))) then 1 else 0)"
proof -
  define k where "k = uint nd div 365"
  have k: "0 \<le> k" "k \<le> 179"
    using uint_u16_lt [of nd] by (auto simp: k_def pos_imp_zdiv_nonneg_iff)
  define y0 :: u16 where "y0 = word_of_int (k + 1970)"
  have y0: "uint y0 = k + 1970"
    unfolding y0_def by (rule uint_word_of_int_id) (use k in simp_all)
  have "yearOfDays nd = (if getSumOfDayFromYearValue y0 > nd then y0 - 1 else y0)"
    unfolding yearOfDays_def y0_def k_def Let_def by simp
  then show ?thesis
    unfolding k_def [symmetric] y0_def [symmetric] using y0 k by (simp add: word_less_def uint_sub_if')
qed

lemma yearOfDays_mono:
  assumes "uint nd \<le> uint nd'"
  shows "uint (yearOfDays nd) \<le> uint (yearOfDays nd')"
proof (cases "uint nd div 365 = uint nd' div 365")
  case True
  then show ?thesis using assms by (simp add: uint_yearOfDays)
next
  case False
  moreover have "uint nd div 365 \<le> uint nd' div 365" using assms by (rule zdiv_mono1) simp
  ultimately show ?thesis by (simp add: uint_yearOfDays)
qed

text \<open>The fields \<^verbatim>\<open>epochToDate\<close> writes, as integers: the year, the month the loop
  breaks at, and the offset in it.\<close>

lemma epochToDate_key:
  fixes e :: u32
  defines "nd \<equiv> (ucast (e div 86400) :: u16)"
  defines "sod \<equiv> nd - getSumOfDayFromYearValue (yearOfDays nd)"
  defines "leap \<equiv> leapOf (yearOfDays nd)"
  obtains j where "j < 12" "getNumberOfDaysUntilMonth (word_of_nat j) leap \<le> sod"
    "\<forall>k. j < k \<and> k < 12 \<longrightarrow> sod < getNumberOfDaysUntilMonth (word_of_nat k) leap"
    "uint sod = uint e div 86400 - uint (getSumOfDayFromYearValue (yearOfDays nd))"
    "dateKey (epochToDate e r) = (uint (yearOfDays nd), int j + 1,
        uint sod - uint (getNumberOfDaysUntilMonth (word_of_nat j) leap) + 1)"
proof -
  obtain j where "j < 12" "getNumberOfDaysUntilMonth (word_of_nat j) leap \<le> sod"
    "\<forall>k. j < k \<and> k < 12 \<longrightarrow> sod < getNumberOfDaysUntilMonth (word_of_nat k) leap"
    "uint sod = uint nd - uint (getSumOfDayFromYearValue (yearOfDays nd))"
    "sint (month (epochToDate e r)) = int j + 1"
    "sint (day (epochToDate e r)) = uint sod - uint (getNumberOfDaysUntilMonth (word_of_nat j) leap) + 1"
    using epochToDate_ints [of e r] unfolding nd_def sod_def leap_def by metis
  moreover have "uint nd = uint e div 86400" by (simp add: nd_def uint_epoch_days)
  ultimately show ?thesis
    using that by (simp add: dateKey_def epochToDate_frame nd_def)
qed

text \<open>
  C7. \<^verbatim>\<open>epochToDate\<close> is strictly increasing in the day: a later day always gets a
  strictly later date, in the lexicographic order of (year, month, day). So no two days
  of the 32-bit range get the same date, around the 2100--2104 irregularities of
  \<^verbatim>\<open>getSumOfDayFromYearValue\<close> (C4, C5) included.
\<close>

theorem epochToDate_strict_mono:
  assumes "uint e div 86400 < uint e' div 86400"
  shows "dateKey (epochToDate e rd) < dateKey (epochToDate e' rd')"
proof -
  define nd where "nd = (ucast (e div 86400) :: u16)"
  define nd' where "nd' = (ucast (e' div 86400) :: u16)"
  have N: "uint nd < uint nd'" using assms by (simp add: nd_def nd'_def uint_epoch_days)
  have Y: "uint (yearOfDays nd) \<le> uint (yearOfDays nd')" using N by (intro yearOfDays_mono) simp
  obtain j where j: "j < 12"
    "getNumberOfDaysUntilMonth (word_of_nat j) (leapOf (yearOfDays nd)) \<le> nd - getSumOfDayFromYearValue (yearOfDays nd)"
    "uint (nd - getSumOfDayFromYearValue (yearOfDays nd)) = uint e div 86400 - uint (getSumOfDayFromYearValue (yearOfDays nd))"
    "dateKey (epochToDate e rd) = (uint (yearOfDays nd), int j + 1,
        uint (nd - getSumOfDayFromYearValue (yearOfDays nd)) - uint (getNumberOfDaysUntilMonth (word_of_nat j) (leapOf (yearOfDays nd))) + 1)"
    unfolding nd_def by (rule epochToDate_key)
  obtain j' where j': "j' < 12"
    "\<forall>k. j' < k \<and> k < 12 \<longrightarrow> nd' - getSumOfDayFromYearValue (yearOfDays nd') < getNumberOfDaysUntilMonth (word_of_nat k) (leapOf (yearOfDays nd'))"
    "uint (nd' - getSumOfDayFromYearValue (yearOfDays nd')) = uint e' div 86400 - uint (getSumOfDayFromYearValue (yearOfDays nd'))"
    "dateKey (epochToDate e' rd') = (uint (yearOfDays nd'), int j' + 1,
        uint (nd' - getSumOfDayFromYearValue (yearOfDays nd')) - uint (getNumberOfDaysUntilMonth (word_of_nat j') (leapOf (yearOfDays nd'))) + 1)"
    unfolding nd'_def by (rule epochToDate_key)
  show ?thesis
  proof (cases "uint (yearOfDays nd) < uint (yearOfDays nd')")
    case True
    then show ?thesis by (simp add: j(4) j'(4))
  next
    case False
    with Y have eq: "yearOfDays nd' = yearOfDays nd" by (simp add: word_uint_eq_iff)
    let ?S = "getSumOfDayFromYearValue (yearOfDays nd)" and ?L = "leapOf (yearOfDays nd)"
    have sod: "uint (nd - ?S) < uint (nd' - ?S)" using j(3) j'(3) assms by (simp add: eq)
    have "j \<le> j'"
    proof (rule ccontr)
      assume "\<not> j \<le> j'"
      then have "nd' - ?S < getNumberOfDaysUntilMonth (word_of_nat j) ?L" using j'(2) j(1) eq by simp
      with j(2) sod show False by (simp add: word_less_def word_le_def)
    qed
    then show ?thesis using sod by (cases "j = j'") (auto simp: j(4) j'(4) eq)
  qed
qed

theorem epochToDate_strict_mono_witness:
  "uint (86399 :: u32) div 86400 < uint (86400 :: u32) div 86400 \<and>
   dateKey (epochToDate 86399 \<lparr>numberOfDays = 0, year = 0, month = 0, day = 0, weekday = 0, isLeapYear = False\<rparr>) < dateKey (epochToDate 86400 \<lparr>numberOfDays = 0, year = 0, month = 0, day = 0, weekday = 0, isLeapYear = False\<rparr>)"
proof -
  have h: "uint (86399 :: u32) div 86400 < uint (86400 :: u32) div 86400" by simp
  show ?thesis using h epochToDate_strict_mono [OF h, of "\<lparr>numberOfDays = 0, year = 0, month = 0, day = 0, weekday = 0, isLeapYear = False\<rparr>" "\<lparr>numberOfDays = 0, year = 0, month = 0, day = 0, weekday = 0, isLeapYear = False\<rparr>"] by blast
qed

subsection \<open>Which dates are calendar dates\<close>

text \<open>The year \<^verbatim>\<open>epochToDate\<close> picks, as an offset \<open>K\<close> from 1970, is bracketed by
  the closed form of \<^verbatim>\<open>getSumOfDayFromYearValue\<close> at \<open>K\<close> and \<open>K + 1\<close>.\<close>

lemma year_bracket:
  fixes nd :: u16
  assumes "uint nd \<le> 49710"
  defines "K \<equiv> uint (yearOfDays nd) - 1970"
  shows "0 \<le> K \<and> K \<le> 136 \<and>
         uint (getSumOfDayFromYearValue (yearOfDays nd)) = (1461 * K + (if 130 < K then -1 else 1)) div 4 \<and>
         uint nd < (1461 * (K + 1) + (if 130 < K + 1 then -1 else 1)) div 4"
proof -
  define q where "q = uint nd div 365"
  have q: "0 \<le> q" "q \<le> 136" "365 * q \<le> uint nd" "uint nd < 365 * q + 365"
    using assms(1) by (auto simp: q_def pos_imp_zdiv_nonneg_iff)
  have y0: "uint (word_of_int (q + 1970) :: u16) = q + 1970"
    by (rule uint_word_of_int_id) (use q in simp_all)
  have S0: "uint (getSumOfDayFromYearValue (word_of_int (q + 1970))) = (1461 * q + (if 130 < q then -1 else 1)) div 4"
    using q y0 uint_getSumOfDayFromYearValue [of "word_of_int (q + 1970) :: u16"] by simp
  have Y: "uint (yearOfDays nd) = q + 1970 - (if uint nd < uint (getSumOfDayFromYearValue (word_of_int (q + 1970))) then 1 else 0)"
    unfolding q_def by (rule uint_yearOfDays)
  have Yb: "1970 \<le> uint (yearOfDays nd)" "uint (yearOfDays nd) \<le> 2149"
    using yearOfDays_bounds [of nd] by simp_all
  have SK: "uint (getSumOfDayFromYearValue (yearOfDays nd)) = (1461 * K + (if 130 < K then -1 else 1)) div 4"
    using uint_getSumOfDayFromYearValue [OF Yb] by (simp add: K_def)
  show ?thesis
  proof (cases "uint nd < uint (getSumOfDayFromYearValue (word_of_int (q + 1970)))")
    case True
    then have "K + 1 = q" using Y by (simp add: K_def)
    with True S0 SK Yb q show ?thesis by (simp add: K_def)
  next
    case False
    then have "K = q" using Y by (simp add: K_def)
    moreover have "365 * (q + 1) \<le> (1461 * (q + 1) + (if 130 < q + 1 then -1 else 1)) div 4"
      using sod_step_bounds(1) [of "q + 1"] q by simp
    ultimately show ?thesis using SK q by simp
  qed
qed

text \<open>Year lengths under the closed form: the code's leap rule, except a day too many in
  2102 (\<open>K = 132\<close>) and a day too few in 2104 (\<open>K = 134\<close>).\<close>

lemma quarter_step: "((x::int) + 1) div 4 - x div 4 = (if (x + 1) mod 4 = 0 then 1 else 0)"
proof -
  have m: "x mod 4 = 0 \<or> x mod 4 = 1 \<or> x mod 4 = 2 \<or> x mod 4 = 3" by arith
  have "(x + 1) div 4 = x div 4 + (x mod 4 + 1) div 4"
    using div_add1_eq [of x 1 4] by simp
  moreover have "(x + 1) mod 4 = (x mod 4 + 1) mod 4" by (simp add: mod_add_left_eq)
  ultimately show ?thesis using m by (elim disjE) simp_all
qed

lemma year_step:
  fixes K :: int
  assumes "0 \<le> K" "K \<le> 135"
  shows "(1461 * (K + 1) + (if 130 < K + 1 then -1 else 1)) div 4 - (1461 * K + (if 130 < K then -1 else 1)) div 4
         = 365 + (if (K + 2) mod 4 = 0 \<and> K \<noteq> 130 then 1 else 0) + (if K = 132 then 1 else 0)
           - (if K = 134 then 1 else 0)"
proof (cases "K \<le> 129")
  case True
  have "(1461 * (K + 1) + 1) div 4 - (1461 * K + 1) div 4 = 365 + ((K + 1 + 1) div 4 - (K + 1) div 4)"
    by (simp only: closed_lin) simp
  also have "\<dots> = 365 + (if (K + 2) mod 4 = 0 then 1 else 0)"
    using quarter_step [of "K + 1"] by (simp add: add.assoc)
  finally show ?thesis using True by simp
next
  case False
  with assms have "K = 130 \<or> K = 131 \<or> K = 132 \<or> K = 133 \<or> K = 134 \<or> K = 135" by linarith
  then show ?thesis by (elim disjE) simp_all
qed

lemma leapOf_offset:
  assumes "uint y = K + 1970" "0 \<le> K"
  shows "leapOf y = ((K + 2) mod 4 = 0 \<and> K \<noteq> 130)"
proof -
  have "(y = 2100) = (K = 130)" using assms(1) by (auto simp: word_uint_eq_iff)
  then show ?thesis using assms by (simp add: leapOf_def smod_eq_0_iff add.commute)
qed

lemma leapOf_gregorian:
  assumes "uint y = K + 1970" "0 \<le> K" "K \<le> 179"
  shows "leapOf y = gregorianLeap (uint y)"
proof -
  have "(4 dvd (K + 1970)) = ((K + 2) mod 4 = 0)" by presburger
  then show ?thesis
    using assms gregorianLeap_window [of "uint y"] leapOf_offset [OF assms(1,2)] by simp
qed

lemma dom_step:
  assumes "j < 11"
  shows "uint (getNumberOfDaysUntilMonth (word_of_nat (Suc j)) leap) =
         uint (getNumberOfDaysUntilMonth (word_of_nat j) leap) + monthLength (int j + 1) leap"
proof -
  have "\<forall>j \<in> set [0..<11]. uint (getNumberOfDaysUntilMonth (word_of_nat (Suc j)) leap) =
         uint (getNumberOfDaysUntilMonth (word_of_nat j) leap) + monthLength (int j + 1) leap"
    by (cases leap) (simp_all add: upt_rec getNumberOfDaysUntilMonth_def numberOfDaysUntilMonth_def
        monthLength_def Let_def)
  then show ?thesis using assms by simp
qed

lemma dom_11: "uint (getNumberOfDaysUntilMonth (word_of_nat 11) leap) = 334 + (if leap then 1 else 0)"
  by (cases leap) (simp_all add: getNumberOfDaysUntilMonth_def numberOfDaysUntilMonth_def Let_def)

lemma epochToDate_same_day:
  assumes "uint e div 86400 = uint e' div 86400"
  shows "epochToDate e r = epochToDate e' r"
proof -
  have "(ucast (e div 86400) :: u16) = ucast (e' div 86400)"
    using assms by (simp add: word_uint_eq_iff uint_epoch_days)
  then show ?thesis by (simp add: epochToDate_def)
qed

lemma epochToDate_day_48577:
  "year (epochToDate 4197052800 r) = 2102 \<and> sint (month (epochToDate 4197052800 r)) = 12 \<and>
   sint (day (epochToDate 4197052800 r)) = 32"
proof -
  have "epochToDate 4197052800 r = epochToDate 4197052800 \<lparr>numberOfDays = 0, year = 0, month = 0, day = 0, weekday = 0, isLeapYear = False\<rparr>"
    by (rule epochToDate_indep)
  also have "\<dots> = \<lparr>numberOfDays = 48577, year = 2102, month = 12, day = 32, weekday = 1,
                    isLeapYear = False\<rparr>"
    by code_simp
  finally show ?thesis by simp
qed

text \<open>
  C4. Every date \<^verbatim>\<open>epochToDate\<close> writes is a date of the Gregorian calendar (its day
  is at least 1 and at most the length of its month in its year), with a single exception
  in the whole 32-bit range: day 48577 (epoch 4197052800 onwards, really 2103-01-01),
  which it writes as 2102-12-32.
\<close>

theorem epochToDate_valid_date:
  "1 \<le> sint (day (epochToDate e r)) \<and>
   (sint (day (epochToDate e r)) \<le> monthLength (sint (month (epochToDate e r))) (gregorianLeap (uint (year (epochToDate e r))))
    \<longleftrightarrow> uint e div 86400 \<noteq> 48577)"
proof -
  define nd where "nd = (ucast (e div 86400) :: u16)"
  let ?Y = "yearOfDays nd" and ?N = "uint e div 86400"
  define sod where "sod = nd - getSumOfDayFromYearValue ?Y"
  define leap where "leap = leapOf ?Y"
  have N: "uint nd = ?N" by (simp add: nd_def uint_epoch_days)
  have N49710: "?N \<le> 49710" using uint_lt2p [of e] by simp
  obtain j where j: "j < 12" "getNumberOfDaysUntilMonth (word_of_nat j) leap \<le> sod"
    "\<forall>k. j < k \<and> k < 12 \<longrightarrow> sod < getNumberOfDaysUntilMonth (word_of_nat k) leap"
    and usod: "uint sod = uint nd - uint (getSumOfDayFromYearValue ?Y)"
    and sm: "sint (month (epochToDate e r)) = int j + 1"
    and sd: "sint (day (epochToDate e r)) = uint sod - uint (getNumberOfDaysUntilMonth (word_of_nat j) leap) + 1"
    and d1: "1 \<le> uint sod - uint (getNumberOfDaysUntilMonth (word_of_nat j) leap) + 1"
    using epochToDate_ints [of e r] unfolding nd_def sod_def leap_def by metis
  define K where "K = uint ?Y - 1970"
  have B: "0 \<le> K" "K \<le> 136" "uint (getSumOfDayFromYearValue ?Y) = (1461 * K + (if 130 < K then -1 else 1)) div 4"
    "uint nd < (1461 * (K + 1) + (if 130 < K + 1 then -1 else 1)) div 4"
    using year_bracket [of nd] N N49710 by (simp_all add: K_def)
  have yr: "year (epochToDate e r) = ?Y" by (simp add: epochToDate_frame nd_def)
  have lp: "gregorianLeap (uint ?Y) = leap"
    using leapOf_gregorian [of ?Y K] B by (simp add: K_def leap_def)
  have valid: "sint (day (epochToDate e r)) \<le> monthLength (int j + 1) leap" if ne: "?N \<noteq> 48577"
  proof (cases "j < 11")
    case True
    have "sod < getNumberOfDaysUntilMonth (word_of_nat (Suc j)) leap"
      using spec [OF j(3), of "Suc j"] True by (simp del: of_nat_Suc)
    then have "uint sod < uint (getNumberOfDaysUntilMonth (word_of_nat (Suc j)) leap)"
      by (simp only: word_less_def)
    then show ?thesis using dom_step [OF True, of leap] sd by linarith
  next
    case False
    with j(1) have j11: "j = 11" by simp
    have dom: "uint (getNumberOfDaysUntilMonth (word_of_nat j) leap) = 334 + (if leap then 1 else 0)"
      using dom_11 j11 by simp
    have "uint (getNumberOfDaysUntilMonth (word_of_nat j) leap) \<le> uint sod"
      using j(2) by (simp add: word_le_def)
    then have "K \<le> 135"
    proof (rule contrapos_pp)
      assume "\<not> K \<le> 135"
      then have "K = 136" using B(2) by simp
      then have "uint (getSumOfDayFromYearValue ?Y) = 49673" using B(3) by simp
      then show "\<not> uint (getNumberOfDaysUntilMonth (word_of_nat j) leap) \<le> uint sod"
        using dom usod N N49710 by simp
    qed
    then have st: "(1461 * (K + 1) + (if 130 < K + 1 then -1 else 1)) div 4 - (1461 * K + (if 130 < K then -1 else 1)) div 4
         = 365 + (if (K + 2) mod 4 = 0 \<and> K \<noteq> 130 then 1 else 0) + (if K = 132 then 1 else 0) - (if K = 134 then 1 else 0)"
      by (rule year_step [OF B(1)])
    have lK: "leap = ((K + 2) mod 4 = 0 \<and> K \<noteq> 130)"
      unfolding leap_def using B(1) by (intro leapOf_offset) (simp add: K_def)
    have "uint sod \<le> 364 + (if leap then 1 else 0)"
    proof (cases "K = 132")
      case True
      then have "uint (getSumOfDayFromYearValue ?Y) = 48212" using B(3) by simp
      then show ?thesis using usod N ne B(4) True lK by simp
    next
      case False
      have "uint sod < 365 + (if (K + 2) mod 4 = 0 \<and> K \<noteq> 130 then 1 else 0) - (if K = 134 then 1 else 0)"
        using usod B(3,4) st False by simp
      then show ?thesis unfolding lK by (cases "K = 134") simp_all
    qed
    then show ?thesis using sd dom j11 by (simp add: monthLength_def)
  qed
  have invalid: "\<not> sint (day (epochToDate e r)) \<le> monthLength (sint (month (epochToDate e r))) (gregorianLeap (uint (year (epochToDate e r))))"
    if eq: "?N = 48577"
  proof -
    have "epochToDate e r = epochToDate 4197052800 r" using eq by (intro epochToDate_same_day) simp
    then show ?thesis using epochToDate_day_48577 [of r] by (simp add: monthLength_def)
  qed
  have m: "sint (month (epochToDate e r)) = int j + 1" by (rule sm)
  show ?thesis
  proof (cases "?N = 48577")
    case True
    with invalid d1 sd show ?thesis by simp
  next
    case False
    with valid [OF False] d1 sd show ?thesis by (simp add: m yr lp)
  qed
qed

theorem epochToDate_valid_date_witness:
  "uint (4197052800 :: u32) div 86400 = 48577 \<and>
   \<not> sint (day (epochToDate 4197052800 \<lparr>numberOfDays = 0, year = 0, month = 0, day = 0, weekday = 0, isLeapYear = False\<rparr>)) \<le>
     monthLength (sint (month (epochToDate 4197052800 \<lparr>numberOfDays = 0, year = 0, month = 0, day = 0, weekday = 0, isLeapYear = False\<rparr>))) (gregorianLeap (uint (year (epochToDate 4197052800 \<lparr>numberOfDays = 0, year = 0, month = 0, day = 0, weekday = 0, isLeapYear = False\<rparr>))))"
  using epochToDate_valid_date [of 4197052800 "\<lparr>numberOfDays = 0, year = 0, month = 0, day = 0, weekday = 0, isLeapYear = False\<rparr>"] by simp

end
