(* ===== verification/RTC_Port.thy ===== *)
theory RTC_Port
  imports RTC_Prelude "HOL-Library.Monad_Syntax"
begin

text \<open>
  The register port the driver talks to: the RTC registers of \<^verbatim>\<open>rtc_reg_map\<close>
  (\<^verbatim>\<open>stm32f1_rtc.h\<close>), the backup data registers \<^verbatim>\<open>BKP_DR\<close>, the write-protect
  bit \<^verbatim>\<open>PWR_CR.DBP\<close>, \<^verbatim>\<open>RCC_BDCR\<close>, \<^verbatim>\<open>RCC_APB1ENR\<close>, the RTC line of the NVIC
  and the three handler pointers \<^verbatim>\<open>ISR_RTC_SEC\<close>, \<^verbatim>\<open>ISR_RTC_ALR\<close>,
  \<^verbatim>\<open>ISR_RTC_OW\<close>, as one state record. Every bus write is also appended to a log, so
  that the order of the driver's accesses can be stated.

  Status bits that only the hardware sets and the driver polls (\<^verbatim>\<open>RTOFF\<close>,
  \<^verbatim>\<open>RSF\<close>, \<^verbatim>\<open>LSERDY\<close>) are read from a hardware environment \<open>hw_env\<close>: the value
  each bit shows at the \<open>n\<close>-th poll. A busy-wait loop is \<open>pollUntil\<close>, a
  \<^theory_text>\<open>partial_function (option)\<close>: \<open>None\<close> is the driver hanging because the bit
  never comes up.
\<close>

datatype reg = CRH | CRL | PRLH | PRLL | DIVH | DIVL | CNTH | CNTL | ALRH | ALRL

datatype InterruptMode = RTC_SECONDS_INTERRUPT | RTC_ALARM_INTERRUPT | RTC_OVERFLOW_INTERRUPT

text \<open>A handler is identified by its function pointer; \<open>None\<close> is \<^verbatim>\<open>NULL\<close>.\<close>

type_synonym handler = nat

datatype status = RTOFF | RSF | LSERDY

datatype event =
    EvSeen status              \<comment> \<open>a busy-wait saw the hardware set this bit\<close>
  | EvWrite reg u32            \<comment> \<open>a store to an RTC register\<close>
  | EvDBP bool                 \<comment> \<open>\<^verbatim>\<open>PWR_CR\<close>: backup-domain write access on or off\<close>
  | EvBkp nat u32              \<comment> \<open>a store to \<^verbatim>\<open>BKP_DR[idx]\<close>\<close>
  | EvBDCR u32                 \<comment> \<open>a store to \<^verbatim>\<open>RCC_BDCR\<close>\<close>
  | EvNVIC bool                \<comment> \<open>\<^verbatim>\<open>NVIC_ISER\<close> (True) or \<^verbatim>\<open>NVIC_ICER\<close> (False) for line 3\<close>
  | EvCall handler             \<comment> \<open>the ISR calls a handler\<close>

record rtc_state =
  regs :: "reg \<Rightarrow> u32"
  dbp :: bool
  bdcr :: u32
  apb1enr :: u32
  nvic_rtc :: bool
  bkp :: "nat \<Rightarrow> u32"
  isr :: "InterruptMode \<Rightarrow> handler option"
  poll :: nat
  log :: "event list"

record hw_env =
  rtoff_at :: "nat \<Rightarrow> bool"
  rsf_at :: "nat \<Rightarrow> bool"
  lserdy_at :: "nat \<Rightarrow> bool"

subsection \<open>Bit masks of the header\<close>

definition RTC_CRL_SECF :: u32 where "RTC_CRL_SECF = 1"
definition RTC_CRL_ALRF :: u32 where "RTC_CRL_ALRF = 2"
definition RTC_CRL_OWF :: u32 where "RTC_CRL_OWF = 4"
definition RTC_CRL_RSF :: u32 where "RTC_CRL_RSF = 8"
definition RTC_CRL_CNF :: u32 where "RTC_CRL_CNF = 16"
definition RTC_CRH_SECIE :: u32 where "RTC_CRH_SECIE = 1"
definition RTC_CRH_ALRIE :: u32 where "RTC_CRH_ALRIE = 2"
definition RTC_CRH_OWIE :: u32 where "RTC_CRH_OWIE = 4"

text \<open>The bit numbers the masks are built from (header lines 27--29 and 35--40), and the
  \<^verbatim>\<open>RTOFF\<close> mask (line 42), whose value the hardware environment supplies to the
  busy-waits.\<close>

definition RTC_CRH_OWIE_BIT :: nat where "RTC_CRH_OWIE_BIT = 2"
definition RTC_CRH_ALRIE_BIT :: nat where "RTC_CRH_ALRIE_BIT = 1"
definition RTC_CRH_SECIE_BIT :: nat where "RTC_CRH_SECIE_BIT = 0"
definition RTC_CRL_RTOFF_BIT :: nat where "RTC_CRL_RTOFF_BIT = 5"
definition RTC_CRL_CNF_BIT :: nat where "RTC_CRL_CNF_BIT = 4"
definition RTC_CRL_RSF_BIT :: nat where "RTC_CRL_RSF_BIT = 3"
definition RTC_CRL_OWF_BIT :: nat where "RTC_CRL_OWF_BIT = 2"
definition RTC_CRL_ALRF_BIT :: nat where "RTC_CRL_ALRF_BIT = 1"
definition RTC_CRL_SECF_BIT :: nat where "RTC_CRL_SECF_BIT = 0"
definition RTC_CRL_RTOFF :: u32 where "RTC_CRL_RTOFF = push_bit RTC_CRL_RTOFF_BIT 1"

subsection \<open>Primitive accesses\<close>

definition writeReg :: "reg \<Rightarrow> u32 \<Rightarrow> rtc_state \<Rightarrow> rtc_state" where
  "writeReg r v s = s\<lparr>regs := (regs s)(r := v), log := log s @ [EvWrite r v]\<rparr>"

text \<open>\<^verbatim>\<open>enableBackupWrites\<close> and \<^verbatim>\<open>disableBackupWrites\<close> (header lines 230--236).\<close>

definition enableBackupWrites :: "rtc_state \<Rightarrow> rtc_state" where
  "enableBackupWrites s = s\<lparr>dbp := True, log := log s @ [EvDBP True]\<rparr>"

definition disableBackupWrites :: "rtc_state \<Rightarrow> rtc_state" where
  "disableBackupWrites s = s\<lparr>dbp := False, log := log s @ [EvDBP False]\<rparr>"

text \<open>\<^verbatim>\<open>enterConfigMode\<close> and \<^verbatim>\<open>exitConfigMode\<close>: read-modify-write of \<^verbatim>\<open>CRL\<close>.\<close>

definition enterConfigMode :: "rtc_state \<Rightarrow> rtc_state" where
  "enterConfigMode s = writeReg CRL (regs s CRL OR RTC_CRL_CNF) s"

definition exitConfigMode :: "rtc_state \<Rightarrow> rtc_state" where
  "exitConfigMode s = writeReg CRL (regs s CRL AND NOT RTC_CRL_CNF) s"

text \<open>A busy-wait: poll a hardware bit until it reads 1; each poll takes one time step.\<close>

partial_function (option) pollUntil :: "(nat \<Rightarrow> bool) \<Rightarrow> rtc_state \<Rightarrow> rtc_state option" where
  "pollUntil b s =
     (let s' = s\<lparr>poll := Suc (poll s)\<rparr> in if b (poll s) then Some s' else pollUntil b s')"

declare pollUntil.simps [code]

text \<open>\<^verbatim>\<open>waitFinished\<close>: \<^verbatim>\<open>while ((RTC_CRL & RTC_CRL_RTOFF) == 0);\<close>\<close>

definition seen :: "status \<Rightarrow> rtc_state \<Rightarrow> rtc_state" where
  "seen b s = s\<lparr>log := log s @ [EvSeen b]\<rparr>"

definition waitFinished :: "hw_env \<Rightarrow> rtc_state \<Rightarrow> rtc_state option" where
  "waitFinished hw s = map_option (seen RTOFF) (pollUntil (rtoff_at hw) s)"

text \<open>\<^verbatim>\<open>waitSync\<close>: clear \<^verbatim>\<open>RSF\<close>, then wait until the hardware sets it again.\<close>

definition waitSync :: "hw_env \<Rightarrow> rtc_state \<Rightarrow> rtc_state option" where
  "waitSync hw s = map_option (seen RSF) (pollUntil (rsf_at hw) (writeReg CRL (regs s CRL AND NOT RTC_CRL_RSF) s))"

text \<open>A port at reset and an environment in which every polled bit comes up, for witnesses.\<close>

definition port0 :: rtc_state where
  "port0 = \<lparr>regs = (\<lambda>_. 0), dbp = False, bdcr = 0, apb1enr = 0, nvic_rtc = False,
            bkp = (\<lambda>_. 0), isr = (\<lambda>_. None), poll = 0, log = []\<rparr>"

definition hw_ready :: hw_env where
  "hw_ready = \<lparr>rtoff_at = (\<lambda>n. 2 \<le> n), rsf_at = (\<lambda>_. True), lserdy_at = (\<lambda>_. True)\<rparr>"

subsection \<open>The busy-wait returns exactly when the bit comes up\<close>

text \<open>Each mask is \<^verbatim>\<open>BIT(n)\<close> of its bit number, as the header writes it.\<close>

lemma rtc_masks_are_bits:
  "RTC_CRL_SECF = push_bit RTC_CRL_SECF_BIT 1" "RTC_CRL_ALRF = push_bit RTC_CRL_ALRF_BIT 1"
  "RTC_CRL_OWF = push_bit RTC_CRL_OWF_BIT 1" "RTC_CRL_RSF = push_bit RTC_CRL_RSF_BIT 1"
  "RTC_CRL_CNF = push_bit RTC_CRL_CNF_BIT 1" "RTC_CRL_RTOFF = 32"
  "RTC_CRH_SECIE = push_bit RTC_CRH_SECIE_BIT 1" "RTC_CRH_ALRIE = push_bit RTC_CRH_ALRIE_BIT 1"
  "RTC_CRH_OWIE = push_bit RTC_CRH_OWIE_BIT 1"
  by (simp_all add: RTC_CRL_SECF_def RTC_CRL_SECF_BIT_def RTC_CRL_ALRF_def RTC_CRL_ALRF_BIT_def
      RTC_CRL_OWF_def RTC_CRL_OWF_BIT_def RTC_CRL_RSF_def RTC_CRL_RSF_BIT_def RTC_CRL_CNF_def
      RTC_CRL_CNF_BIT_def RTC_CRL_RTOFF_def RTC_CRL_RTOFF_BIT_def RTC_CRH_SECIE_def RTC_CRH_SECIE_BIT_def
      RTC_CRH_ALRIE_def RTC_CRH_ALRIE_BIT_def RTC_CRH_OWIE_def RTC_CRH_OWIE_BIT_def)

lemma pollUntil_at:
  "poll s \<le> n \<Longrightarrow> b n \<Longrightarrow> (\<forall>m. poll s \<le> m \<and> m < n \<longrightarrow> \<not> b m) \<Longrightarrow>
   pollUntil b s = Some (s\<lparr>poll := Suc n\<rparr>)"
proof (induction "n - poll s" arbitrary: s)
  case 0
  then have "poll s = n" by simp
  with "0.prems" show ?case by (simp add: pollUntil.simps [of b s])
next
  case (Suc k)
  then have nb: "\<not> b (poll s)" and lt: "poll s < n" by auto
  let ?s' = "s\<lparr>poll := Suc (poll s)\<rparr>"
  have "pollUntil b ?s' = Some (?s'\<lparr>poll := Suc n\<rparr>)"
    using Suc lt by (intro Suc.hyps) auto
  with nb show ?case by (simp add: pollUntil.simps [of b s])
qed


lemma pollUntil_Some_bit:
  assumes "pollUntil b s = Some s'"
  shows "\<exists>n\<ge>poll s. b n"
proof (rule pollUntil.raw_induct [where P = "\<lambda>b s s'. \<exists>n\<ge>poll s. b n", OF _ assms])
  fix f :: "(nat \<Rightarrow> bool) \<Rightarrow> rtc_state \<Rightarrow> rtc_state option" and b s s'
  assume IH: "\<And>b s s'. f b s = Some s' \<Longrightarrow> \<exists>n\<ge>poll s. b n"
    and eq: "(let s' = s\<lparr>poll := Suc (poll s)\<rparr> in if b (poll s) then Some s' else f b s') = Some s'"
  show "\<exists>n\<ge>poll s. b n"
  proof (cases "b (poll s)")
    case True
    then show ?thesis by blast
  next
    case False
    with eq have "f b (s\<lparr>poll := Suc (poll s)\<rparr>) = Some s'" by (simp add: Let_def)
    from IH [OF this] obtain n where "Suc (poll s) \<le> n" "b n" by auto
    then show ?thesis using Suc_leD by blast
  qed
qed

theorem pollUntil_terminates:
  "(\<exists>s'. pollUntil b s = Some s') \<longleftrightarrow> (\<exists>n\<ge>poll s. b n)"
proof
  assume "\<exists>s'. pollUntil b s = Some s'"
  then show "\<exists>n\<ge>poll s. b n" using pollUntil_Some_bit by blast
next
  assume "\<exists>n\<ge>poll s. b n"
  then obtain n where "poll s \<le> n \<and> b n" "\<forall>m<n. \<not> (poll s \<le> m \<and> b m)"
    using exists_least_iff [of "\<lambda>n. poll s \<le> n \<and> b n"] by blast
  then show "\<exists>s'. pollUntil b s = Some s'"
    using pollUntil_at [of s n b] by auto
qed

lemma pollUntil_Some:
  assumes "pollUntil b s = Some s'"
  shows "\<exists>n\<ge>poll s. b n \<and> (\<forall>m. poll s \<le> m \<and> m < n \<longrightarrow> \<not> b m) \<and>
           s' = s\<lparr>poll := Suc n\<rparr>"
proof -
  obtain n where "poll s \<le> n \<and> b n" "\<forall>m<n. \<not> (poll s \<le> m \<and> b m)"
    using pollUntil_Some_bit [OF assms] exists_least_iff [of "\<lambda>n. poll s \<le> n \<and> b n"] by blast
  moreover from this have "pollUntil b s = Some (s\<lparr>poll := Suc n\<rparr>)"
    using pollUntil_at [of s n b] by auto
  ultimately show ?thesis using assms by auto
qed

lemmas port_defs = writeReg_def enableBackupWrites_def disableBackupWrites_def
  enterConfigMode_def exitConfigMode_def seen_def

lemma waitFinished_Some:
  "waitFinished hw s = Some s' \<Longrightarrow>
   \<exists>n\<ge>poll s. rtoff_at hw n \<and> (\<forall>m. poll s \<le> m \<and> m < n \<longrightarrow> \<not> rtoff_at hw m) \<and>
     s' = seen RTOFF (s\<lparr>poll := Suc n\<rparr>)"
  unfolding waitFinished_def using pollUntil_Some by fastforce

lemma waitFinished_terminates:
  "(\<exists>s'. waitFinished hw s = Some s') \<longleftrightarrow> (\<exists>n\<ge>poll s. rtoff_at hw n)"
  unfolding waitFinished_def using pollUntil_terminates [of "rtoff_at hw" s] by simp

end
