(* ===== verification/Counter.thy ===== *)
theory Counter
  imports RTC_Port
begin

text \<open>
  The counter access layer of \<^verbatim>\<open>src/src/stm32f1_rtc.cpp\<close>: \<^verbatim>\<open>getTime\<close>,
  \<^verbatim>\<open>setTime\<close>, \<^verbatim>\<open>setAlarmTime\<close> and \<^verbatim>\<open>getMilliseconds\<close>.

  \<^verbatim>\<open>getTime\<close> reads two registers that the hardware updates while the driver reads
  them, so it is modelled over the counter's value at each of its bus reads:
  \<open>cnt i\<close> is the 32-bit counter when the \<open>i\<close>-th read happens. Reading
  \<^verbatim>\<open>RTC_CNTH\<close> yields the high half, reading \<^verbatim>\<open>RTC_CNTL\<close> the low half, and the
  assignment to \<^verbatim>\<open>uint16_t\<close> keeps 16 bits.
\<close>

definition getTime :: "(nat \<Rightarrow> u32) \<Rightarrow> u32" where
  "getTime cnt =
     (let high1 = (ucast (drop_bit 16 (cnt 0)) :: u16);
          low = (ucast (take_bit 16 (cnt 1)) :: u16);
          high2 = (ucast (drop_bit 16 (cnt 2)) :: u16);
          (high1, low) = (if high1 \<noteq> high2 then (high2, ucast (take_bit 16 (cnt 3)) :: u16)
                          else (high1, low))
      in push_bit 16 (ucast high1) OR ucast low)"

text \<open>
  \<^verbatim>\<open>setTime\<close> and \<^verbatim>\<open>setAlarmTime\<close>: the configuration-mode write sequence. Each
  returns \<open>None\<close> when a \<^verbatim>\<open>waitFinished\<close> never returns.
\<close>

definition setTime :: "hw_env \<Rightarrow> u32 \<Rightarrow> rtc_state \<Rightarrow> rtc_state option" where
  "setTime hw time s =
     do {
       s \<leftarrow> waitFinished hw (enableBackupWrites s);
       let s = enterConfigMode s;
       let s = writeReg CNTH (drop_bit 16 time) s;
       let s = writeReg CNTL (time AND 0xFFFF) s;
       let s = exitConfigMode s;
       s \<leftarrow> waitFinished hw s;
       Some (disableBackupWrites s)
     }"

definition setAlarmTime :: "hw_env \<Rightarrow> u32 \<Rightarrow> rtc_state \<Rightarrow> rtc_state option" where
  "setAlarmTime hw time s =
     do {
       s \<leftarrow> waitFinished hw (enableBackupWrites s);
       let s = enterConfigMode s;
       let s = writeReg ALRH (drop_bit 16 time) s;
       let s = writeReg ALRL (time AND 0xFFFF) s;
       let s = exitConfigMode s;
       s \<leftarrow> waitFinished hw s;
       Some (disableBackupWrites s)
     }"

text \<open>
  \<^verbatim>\<open>getMilliseconds\<close> over the values read from \<^verbatim>\<open>RTC_DIVH\<close> and \<^verbatim>\<open>RTC_DIVL\<close>.
  For a divider value up to 32767 (the reload value \<^verbatim>\<open>init\<close> programs, from which
  the hardware counts down) every intermediate float and double value is exact, so
  the result is the integer quotient. Above it, \<^verbatim>\<open>32767 - ms\<close> wraps to a value near
  2^32 whose conversion to \<^verbatim>\<open>uint16_t\<close> overflows (undefined behaviour): \<open>None\<close>.
\<close>

definition getMilliseconds :: "u32 \<Rightarrow> u32 \<Rightarrow> u16 option" where
  "getMilliseconds divh divl =
     (let ms = push_bit 16 divh OR divl
      in if uint ms \<le> 32767 then Some (word_of_int ((32767 - uint ms) * 1000 div 32768)) else None)"

lemma recombine_halves:
  "push_bit 16 (ucast (ucast (drop_bit 16 w) :: u16)) OR ucast (ucast (take_bit 16 w) :: u16) = (w :: u32)"
  by (rule bit_word_eqI) (auto simp: bit_simps)

lemma high_half_of_nat:
  "(ucast (drop_bit 16 (word_of_nat T :: u32)) :: u16) = word_of_nat (drop_bit 16 T)"
  by (rule bit_word_eqI) (auto simp: bit_simps)

lemma getTime_same_high:
  assumes "(ucast (drop_bit 16 (cnt 0)) :: u16) = ucast (drop_bit 16 (cnt 2))"
    and "(ucast (drop_bit 16 (cnt 0)) :: u16) = ucast (drop_bit 16 (cnt 1))"
  shows "getTime cnt = cnt 1"
  using assms recombine_halves [of "cnt 1"] by (simp add: getTime_def Let_def)

lemma getTime_new_high:
  assumes "(ucast (drop_bit 16 (cnt 0)) :: u16) \<noteq> ucast (drop_bit 16 (cnt 2))"
    and "(ucast (drop_bit 16 (cnt 2)) :: u16) = ucast (drop_bit 16 (cnt 3))"
  shows "getTime cnt = cnt 3"
  using assms recombine_halves [of "cnt 3"] by (simp add: getTime_def Let_def)

lemma drop_bit_16_window:
  fixes a b :: nat
  assumes "a \<le> b" "b < a + 65536"
  shows "drop_bit 16 b = drop_bit 16 a \<or> drop_bit 16 b = Suc (drop_bit 16 a)"
  using assms by (simp add: drop_bit_eq_div) linarith

text \<open>
  C8. \<^verbatim>\<open>getTime\<close> never returns a torn value: if the counter advances by less than
  2^16 ticks over the four bus reads (it advances once per second, the reads take
  microseconds), the result is the counter's value at the first low read when no carry
  reached the high half between the two high reads, and its value at the re-read of the
  low half otherwise. Counter wrap-around at 2^32 is included (ticks are counted in
  \<open>nat\<close> and the counter is the tick count modulo 2^32).
\<close>

theorem getTime_rollover_safe:
  fixes T :: "nat \<Rightarrow> nat"
  assumes mono: "T 0 \<le> T 1" "T 1 \<le> T 2" "T 2 \<le> T 3" and window: "T 3 < T 0 + 65536"
  shows "getTime (\<lambda>i. word_of_nat (T i)) =
         (if T 0 div 65536 = T 2 div 65536 then word_of_nat (T 1) else word_of_nat (T 3))"
proof -
  let ?c = "\<lambda>i. (word_of_nat (T i) :: u32)" and ?q = "\<lambda>i. drop_bit 16 (T i)"
  have hi: "\<And>i. (ucast (drop_bit 16 (?c i)) :: u16) = word_of_nat (?q i)"
    by (rule high_half_of_nat)
  have le: "?q 0 \<le> ?q 1" "?q 1 \<le> ?q 2" "?q 2 \<le> ?q 3"
    using mono by (simp_all add: drop_bit_eq_div div_le_mono)
  have w2: "?q 2 = ?q 0 \<or> ?q 2 = Suc (?q 0)" and w3: "?q 3 = ?q 0 \<or> ?q 3 = Suc (?q 0)"
    using drop_bit_16_window [of "T 0" "T 2"] drop_bit_16_window [of "T 0" "T 3"] mono window
    by linarith+
  have cond: "(T 0 div 65536 = T 2 div 65536) = (?q 2 = ?q 0)"
    by (auto simp: drop_bit_eq_div)
  show ?thesis
  proof (cases "?q 2 = ?q 0")
    case True
    with le have "?q 1 = ?q 0" by simp
    with True have "getTime ?c = ?c 1"
      by (intro getTime_same_high) (simp_all only: hi)
    with True cond show ?thesis by simp
  next
    case False
    with w2 have q2: "?q 2 = Suc (?q 0)" by simp
    with w3 le have q3: "?q 3 = ?q 2" by auto
    have "(word_of_nat (?q 0) :: u16) \<noteq> word_of_nat (Suc (?q 0))"
      by (simp add: word_of_nat_eq_iff take_bit_eq_mod mod_Suc_eq)
    then have "getTime ?c = ?c 3"
      using q2 q3 by (intro getTime_new_high) (simp_all only: hi, simp_all)
    with False cond show ?thesis by simp
  qed
qed

theorem getTime_rollover_safe_witness:
  "[0xFFFF, 0xFFFF, 0x10000, 0x10001 :: nat] ! 0 \<le> [0xFFFF, 0xFFFF, 0x10000, 0x10001 :: nat] ! 1 \<and>
   [0xFFFF, 0xFFFF, 0x10000, 0x10001 :: nat] ! 1 \<le> [0xFFFF, 0xFFFF, 0x10000, 0x10001 :: nat] ! 2 \<and>
   [0xFFFF, 0xFFFF, 0x10000, 0x10001 :: nat] ! 2 \<le> [0xFFFF, 0xFFFF, 0x10000, 0x10001 :: nat] ! 3 \<and>
   [0xFFFF, 0xFFFF, 0x10000, 0x10001 :: nat] ! 3 < [0xFFFF, 0xFFFF, 0x10000, 0x10001 :: nat] ! 0 + 65536 \<and>
   getTime (\<lambda>i. word_of_nat ([0xFFFF, 0xFFFF, 0x10000, 0x10001 :: nat] ! i)) = 0x10001"
proof -
  let ?T = "\<lambda>i. [0xFFFF, 0xFFFF, 0x10000, 0x10001 :: nat] ! i"
  have h: "?T 0 \<le> ?T 1" "?T 1 \<le> ?T 2" "?T 2 \<le> ?T 3" "?T 3 < ?T 0 + 65536" by simp_all
  show ?thesis using h getTime_rollover_safe [OF h] by simp
qed

text \<open>\<^verbatim>\<open>setTime\<close> and \<^verbatim>\<open>setAlarmTime\<close> share one shape: a register pair written in
  configuration mode between two \<^verbatim>\<open>waitFinished\<close>.\<close>

lemma config_write_Some:
  assumes "do {
       s \<leftarrow> waitFinished hw (enableBackupWrites s);
       let s = enterConfigMode s;
       let s = writeReg r1 a s;
       let s = writeReg r2 b s;
       let s = exitConfigMode s;
       s \<leftarrow> waitFinished hw s;
       Some (disableBackupWrites s)
     } = Some s'"
  obtains n1 n2 where "poll s \<le> n1" "rtoff_at hw n1" "Suc n1 \<le> n2" "rtoff_at hw n2"
    "s' = disableBackupWrites (seen RTOFF ((exitConfigMode (writeReg r2 b
            (writeReg r1 a (enterConfigMode
              (seen RTOFF ((enableBackupWrites s)\<lparr>poll := Suc n1\<rparr>))))))\<lparr>poll := Suc n2\<rparr>))"
proof -
  from assms obtain s1 s2 where w1: "waitFinished hw (enableBackupWrites s) = Some s1"
    and w2: "waitFinished hw (exitConfigMode (writeReg r2 b (writeReg r1 a (enterConfigMode s1)))) = Some s2"
    and s': "s' = disableBackupWrites s2"
    by (auto simp: Let_def bind_eq_Some_conv)
  from waitFinished_Some [OF w1] obtain n1 where n1: "poll s \<le> n1" "rtoff_at hw n1"
    "s1 = seen RTOFF ((enableBackupWrites s)\<lparr>poll := Suc n1\<rparr>)"
    by (auto simp: port_defs)
  from waitFinished_Some [OF w2] n1(3) obtain n2 where "Suc n1 \<le> n2" "rtoff_at hw n2"
    "s2 = seen RTOFF ((exitConfigMode (writeReg r2 b (writeReg r1 a (enterConfigMode s1))))\<lparr>poll := Suc n2\<rparr>)"
    by (auto simp: port_defs)
  with n1 s' show ?thesis using that by blast
qed

lemma setTime_Some:
  assumes "setTime hw t s = Some s'"
  obtains n1 n2 where "poll s \<le> n1" "rtoff_at hw n1" "Suc n1 \<le> n2" "rtoff_at hw n2"
    "s' = disableBackupWrites (seen RTOFF ((exitConfigMode (writeReg CNTL (t AND 0xFFFF)
            (writeReg CNTH (drop_bit 16 t) (enterConfigMode
              (seen RTOFF ((enableBackupWrites s)\<lparr>poll := Suc n1\<rparr>))))))\<lparr>poll := Suc n2\<rparr>))"
  using assms unfolding setTime_def by (rule config_write_Some)

text \<open>
  C10. \<^verbatim>\<open>setTime\<close> returns exactly when the hardware shows \<^verbatim>\<open>RTOFF\<close> at some poll
  and again at a later one; otherwise it hangs in one of its two \<^verbatim>\<open>waitFinished\<close>.
\<close>

theorem setTime_terminates:
  "(\<exists>s'. setTime hw t s = Some s') \<longleftrightarrow>
   (\<exists>n1 n2. poll s \<le> n1 \<and> n1 < n2 \<and> rtoff_at hw n1 \<and> rtoff_at hw n2)"
proof
  assume "\<exists>s'. setTime hw t s = Some s'"
  then obtain s' where "setTime hw t s = Some s'" by blast
  then show "\<exists>n1 n2. poll s \<le> n1 \<and> n1 < n2 \<and> rtoff_at hw n1 \<and> rtoff_at hw n2"
    by (rule setTime_Some) (auto simp: Suc_le_eq)
next
  assume "\<exists>n1 n2. poll s \<le> n1 \<and> n1 < n2 \<and> rtoff_at hw n1 \<and> rtoff_at hw n2"
  then obtain n1 n2 where n: "poll s \<le> n1" "n1 < n2" "rtoff_at hw n1" "rtoff_at hw n2" by blast
  then obtain s1 where w1: "waitFinished hw (enableBackupWrites s) = Some s1"
    using waitFinished_terminates [of hw "enableBackupWrites s"] by (auto simp: port_defs)
  from waitFinished_Some [OF w1] obtain m where m: "poll s \<le> m" "rtoff_at hw m"
    "\<forall>k. poll s \<le> k \<and> k < m \<longrightarrow> \<not> rtoff_at hw k"
    "s1 = seen RTOFF ((enableBackupWrites s)\<lparr>poll := Suc m\<rparr>)"
    by (auto simp: port_defs)
  have "m \<le> n1"
    using m(3) n(1,3) by (meson not_le)
  let ?s = "exitConfigMode (writeReg CNTL (t AND 0xFFFF) (writeReg CNTH (drop_bit 16 t) (enterConfigMode s1)))"
  have "poll ?s = Suc m" by (simp add: m(4) port_defs)
  then obtain s2 where "waitFinished hw ?s = Some s2"
    using waitFinished_terminates [of hw ?s] n \<open>m \<le> n1\<close> by fastforce
  then show "\<exists>s'. setTime hw t s = Some s'"
    using w1 by (simp add: setTime_def Let_def)
qed

lemma recombine_time:
  "push_bit 16 (drop_bit 16 t) OR (t AND 0xFFFF) = (t :: u32)"
proof -
  have m: "(0xFFFF :: u32) = mask 16" by (simp add: mask_eq_exp_minus_1)
  show ?thesis
    unfolding m by (rule bit_word_eqI) (auto simp: bit_simps)
qed

text \<open>
  C9. When \<^verbatim>\<open>setTime\<close> returns, it has made exactly the accesses the peripheral
  requires, in order: enable backup writes, see \<^verbatim>\<open>RTOFF\<close>, set \<^verbatim>\<open>CNF\<close>, write the
  high then the low half, clear \<^verbatim>\<open>CNF\<close>, see \<^verbatim>\<open>RTOFF\<close>, disable backup writes; the
  counter registers hold the new time, write access is off again, and the backup
  registers, handlers and NVIC line are untouched.
\<close>

theorem setTime_effect:
  assumes "setTime hw t s = Some s'"
  shows "log s' = log s @ [EvDBP True, EvSeen RTOFF, EvWrite CRL (regs s CRL OR RTC_CRL_CNF),
            EvWrite CNTH (drop_bit 16 t), EvWrite CNTL (t AND 0xFFFF),
            EvWrite CRL ((regs s CRL OR RTC_CRL_CNF) AND NOT RTC_CRL_CNF), EvSeen RTOFF, EvDBP False] \<and>
         regs s' = (regs s)(CRL := (regs s CRL OR RTC_CRL_CNF) AND NOT RTC_CRL_CNF,
                            CNTH := drop_bit 16 t, CNTL := t AND 0xFFFF) \<and>
         push_bit 16 (regs s' CNTH) OR regs s' CNTL = t \<and>
         \<not> dbp s' \<and> bkp s' = bkp s \<and> isr s' = isr s \<and> nvic_rtc s' = nvic_rtc s \<and> bdcr s' = bdcr s"
  using assms
proof (rule setTime_Some)
  fix n1 n2
  assume s': "s' = disableBackupWrites (seen RTOFF ((exitConfigMode (writeReg CNTL (t AND 0xFFFF)
            (writeReg CNTH (drop_bit 16 t) (enterConfigMode
              (seen RTOFF ((enableBackupWrites s)\<lparr>poll := Suc n1\<rparr>))))))\<lparr>poll := Suc n2\<rparr>))"
  show ?thesis
    unfolding s' by (simp add: port_defs recombine_time fun_upd_twist)
qed

theorem setTime_effect_witness:
  "setTime hw_ready 0x12345678 port0 = Some (the (setTime hw_ready 0x12345678 port0)) \<and>
   push_bit 16 (regs (the (setTime hw_ready 0x12345678 port0)) CNTH)
     OR regs (the (setTime hw_ready 0x12345678 port0)) CNTL = 0x12345678"
proof -
  have h: "setTime hw_ready 0x12345678 port0 = Some (the (setTime hw_ready 0x12345678 port0))"
    by (simp add: setTime_def waitFinished_def hw_ready_def port0_def port_defs pollUntil.simps)
  show ?thesis using h setTime_effect [OF h] by blast
qed

lemma getMilliseconds_defined:
  "(\<exists>v. getMilliseconds divh divl = Some v) \<longleftrightarrow> uint (push_bit 16 divh OR divl) \<le> 32767"
  by (simp add: getMilliseconds_def Let_def)

text \<open>
  C11. When \<^verbatim>\<open>getMilliseconds\<close> returns (the divider value read is at most 32767,
  as the hardware counts down from the reload value 32767), its result is the elapsed
  fraction of the second in milliseconds, rounded down, and lies in 0..999. The spec's
  raw value 16384 gives 499.
\<close>

theorem getMilliseconds_bounds:
  assumes "getMilliseconds divh divl = Some v"
  shows "uint v = (32767 - uint (push_bit 16 divh OR divl)) * 1000 div 32768 \<and> uint v \<le> 999"
proof -
  let ?m = "uint (push_bit 16 divh OR divl)"
  have m: "0 \<le> ?m" "?m \<le> 32767" and v: "v = word_of_int ((32767 - ?m) * 1000 div 32768)"
    using assms by (simp_all add: getMilliseconds_def Let_def split: if_splits)
  have b: "0 \<le> x * 1000 div 32768 \<and> x * 1000 div 32768 \<le> 999" if "0 \<le> x" "x \<le> 32767" for x :: int
    using that by arith
  have "0 \<le> (32767 - ?m) * 1000 div 32768" "(32767 - ?m) * 1000 div 32768 \<le> 999"
    using b [of "32767 - ?m"] m by simp_all
  then show ?thesis
    unfolding v by (simp add: uint_word_of_int_id)
qed

theorem getMilliseconds_bounds_witness:
  "getMilliseconds 0 16384 = Some 499 \<and>
   uint (499 :: u16) = (32767 - uint (push_bit 16 0 OR (16384 :: u32))) * 1000 div 32768 \<and>
   uint (499 :: u16) \<le> 999"
proof -
  have h: "getMilliseconds 0 16384 = Some 499" by (simp add: getMilliseconds_def)
  show ?thesis using h getMilliseconds_bounds [OF h] by blast
qed

lemma setAlarmTime_Some:
  assumes "setAlarmTime hw t s = Some s'"
  obtains n1 n2 where "poll s \<le> n1" "rtoff_at hw n1" "Suc n1 \<le> n2" "rtoff_at hw n2"
    "s' = disableBackupWrites (seen RTOFF ((exitConfigMode (writeReg ALRL (t AND 0xFFFF)
            (writeReg ALRH (drop_bit 16 t) (enterConfigMode
              (seen RTOFF ((enableBackupWrites s)\<lparr>poll := Suc n1\<rparr>))))))\<lparr>poll := Suc n2\<rparr>))"
  using assms unfolding setAlarmTime_def by (rule config_write_Some)

text \<open>
  C33. When \<^verbatim>\<open>setAlarmTime\<close> returns, it has written the alarm's high then low half
  inside configuration mode, bracketed by the two \<^verbatim>\<open>RTOFF\<close> waits and the backup
  write enable; the alarm registers hold the new alarm time, and the counter, the other
  registers, the backup registers, the handlers and the NVIC line are untouched.
\<close>

theorem setAlarmTime_effect:
  assumes "setAlarmTime hw t s = Some s'"
  shows "log s' = log s @ [EvDBP True, EvSeen RTOFF, EvWrite CRL (regs s CRL OR RTC_CRL_CNF),
            EvWrite ALRH (drop_bit 16 t), EvWrite ALRL (t AND 0xFFFF),
            EvWrite CRL ((regs s CRL OR RTC_CRL_CNF) AND NOT RTC_CRL_CNF), EvSeen RTOFF, EvDBP False] \<and>
         regs s' = (regs s)(CRL := (regs s CRL OR RTC_CRL_CNF) AND NOT RTC_CRL_CNF,
                            ALRH := drop_bit 16 t, ALRL := t AND 0xFFFF) \<and>
         push_bit 16 (regs s' ALRH) OR regs s' ALRL = t \<and>
         regs s' CNTH = regs s CNTH \<and> regs s' CNTL = regs s CNTL \<and>
         \<not> dbp s' \<and> bkp s' = bkp s \<and> isr s' = isr s \<and> nvic_rtc s' = nvic_rtc s \<and> bdcr s' = bdcr s"
  using assms
proof (rule setAlarmTime_Some)
  fix n1 n2
  assume s': "s' = disableBackupWrites (seen RTOFF ((exitConfigMode (writeReg ALRL (t AND 0xFFFF)
            (writeReg ALRH (drop_bit 16 t) (enterConfigMode
              (seen RTOFF ((enableBackupWrites s)\<lparr>poll := Suc n1\<rparr>))))))\<lparr>poll := Suc n2\<rparr>))"
  show ?thesis
    unfolding s' by (simp add: port_defs recombine_time fun_upd_twist)
qed

theorem setAlarmTime_effect_witness:
  "setAlarmTime hw_ready 0x12345678 port0 = Some (the (setAlarmTime hw_ready 0x12345678 port0)) \<and>
   push_bit 16 (regs (the (setAlarmTime hw_ready 0x12345678 port0)) ALRH)
     OR regs (the (setAlarmTime hw_ready 0x12345678 port0)) ALRL = 0x12345678"
proof -
  have h: "setAlarmTime hw_ready 0x12345678 port0 = Some (the (setAlarmTime hw_ready 0x12345678 port0))"
    by (simp add: setAlarmTime_def waitFinished_def hw_ready_def port0_def port_defs pollUntil.simps)
  show ?thesis using h setAlarmTime_effect [OF h] by blast
qed

end
