(* ===== verification/Interrupts.thy ===== *)
theory Interrupts
  imports RTC_Port
begin

text \<open>
  Interrupt dispatch of \<^verbatim>\<open>src/src/stm32f1_rtc.cpp\<close>: \<^verbatim>\<open>attachInterrupt\<close>,
  \<^verbatim>\<open>detachInterrupt\<close>, the shared handler \<^verbatim>\<open>RTC_IRQHandler\<close> (\<^verbatim>\<open>__irq_rtc\<close> under
  libmaple), and the status queries and flag clears of the header. The three handler
  pointers are the field \<open>isr\<close> of the port state; a handler is identified by its
  pointer and calling it appends \<open>EvCall\<close> to the log. Handlers are assumed not to
  call back into the driver (the spec forbids mutating calls from a handler), so a call
  changes nothing else.
\<close>

definition interruptEnableBit :: "InterruptMode \<Rightarrow> u32" where
  "interruptEnableBit im =
     (case im of RTC_SECONDS_INTERRUPT \<Rightarrow> RTC_CRH_SECIE
               | RTC_ALARM_INTERRUPT \<Rightarrow> RTC_CRH_ALRIE
               | RTC_OVERFLOW_INTERRUPT \<Rightarrow> RTC_CRH_OWIE)"

definition interruptFlag :: "InterruptMode \<Rightarrow> u32" where
  "interruptFlag im =
     (case im of RTC_SECONDS_INTERRUPT \<Rightarrow> RTC_CRL_SECF
               | RTC_ALARM_INTERRUPT \<Rightarrow> RTC_CRL_ALRF
               | RTC_OVERFLOW_INTERRUPT \<Rightarrow> RTC_CRL_OWF)"

text \<open>\<^verbatim>\<open>NVIC_ISER[0] = bit(3)\<close> and \<^verbatim>\<open>NVIC_ICER[0] = bit(3)\<close>: the RTC line of the
  interrupt controller, shared by the three classes.\<close>

definition nvicSetEnable :: "rtc_state \<Rightarrow> rtc_state" where
  "nvicSetEnable s = s\<lparr>nvic_rtc := True, log := log s @ [EvNVIC True]\<rparr>"

definition nvicClearEnable :: "rtc_state \<Rightarrow> rtc_state" where
  "nvicClearEnable s = s\<lparr>nvic_rtc := False, log := log s @ [EvNVIC False]\<rparr>"

definition setHandler :: "InterruptMode \<Rightarrow> handler option \<Rightarrow> rtc_state \<Rightarrow> rtc_state" where
  "setHandler im h s = s\<lparr>isr := (isr s)(im := h)\<rparr>"

text \<open>Each case of the \<^verbatim>\<open>switch\<close> of \<^verbatim>\<open>attachInterrupt\<close> (lines 32--52) and
  \<^verbatim>\<open>detachInterrupt\<close> (lines 54--74) differs only in the bit and the slot; the
  handler argument may be \<^verbatim>\<open>NULL\<close> (\<open>None\<close>).\<close>

definition attachInterrupt :: "hw_env \<Rightarrow> InterruptMode \<Rightarrow> handler option \<Rightarrow> rtc_state \<Rightarrow> rtc_state option" where
  "attachInterrupt hw im handler s =
     do {
       s \<leftarrow> waitFinished hw s;
       let s = writeReg CRH (regs s CRH OR interruptEnableBit im) s;
       let s = nvicSetEnable s;
       Some (setHandler im handler s)
     }"

definition detachInterrupt :: "hw_env \<Rightarrow> InterruptMode \<Rightarrow> rtc_state \<Rightarrow> rtc_state option" where
  "detachInterrupt hw im s =
     do {
       let s = nvicClearEnable s;
       s \<leftarrow> waitFinished hw s;
       let s = writeReg CRH (regs s CRH AND NOT (interruptEnableBit im)) s;
       Some (setHandler im None s)
     }"

text \<open>One guarded call of the ISR: \<^verbatim>\<open>if ((irq & F) == F && ISR != NULL) ISR();\<close>\<close>

definition callHandler :: "bool \<Rightarrow> handler option \<Rightarrow> rtc_state \<Rightarrow> rtc_state" where
  "callHandler c h s =
     (if c then (case h of Some f \<Rightarrow> s\<lparr>log := log s @ [EvCall f]\<rparr> | None \<Rightarrow> s) else s)"

text \<open>The shared handler (lines 262--277). \<^verbatim>\<open>irq\<close> is a \<^verbatim>\<open>uint16_t\<close>; in
  \<^verbatim>\<open>RTC_CRL &= ~irq\<close> it is promoted to \<^verbatim>\<open>int\<close> before the complement, so the
  mask has all of the upper 16 bits set: the complement of the zero-extended value.\<close>

definition RTC_IRQHandler :: "hw_env \<Rightarrow> rtc_state \<Rightarrow> rtc_state option" where
  "RTC_IRQHandler hw s =
     (let irq = (ucast (regs s CRH AND regs s CRL) :: u16);
          s = callHandler (ucast irq AND RTC_CRL_SECF = RTC_CRL_SECF) (isr s RTC_SECONDS_INTERRUPT) s;
          s = callHandler (ucast irq AND RTC_CRL_ALRF = RTC_CRL_ALRF) (isr s RTC_ALARM_INTERRUPT) s;
          s = callHandler (ucast irq AND RTC_CRL_OWF = RTC_CRL_OWF) (isr s RTC_OVERFLOW_INTERRUPT) s
      in do {
           s \<leftarrow> waitFinished hw s;
           Some (writeReg CRL (regs s CRL AND NOT (ucast irq)) s)
         })"

text \<open>Status queries and flag clears of the header (lines 197--219).\<close>

definition isCounterUpdated :: "rtc_state \<Rightarrow> bool" where
  "isCounterUpdated s = (regs s CRL AND RTC_CRL_SECF = RTC_CRL_SECF)"

definition isAlarmTriggered :: "rtc_state \<Rightarrow> bool" where
  "isAlarmTriggered s = (regs s CRL AND RTC_CRL_ALRF = RTC_CRL_ALRF)"

definition isCounterOverflow :: "rtc_state \<Rightarrow> bool" where
  "isCounterOverflow s = (regs s CRL AND RTC_CRL_OWF = RTC_CRL_OWF)"

definition clearSecondFlag :: "rtc_state \<Rightarrow> rtc_state" where
  "clearSecondFlag s = writeReg CRL (regs s CRL AND NOT RTC_CRL_SECF) s"

definition clearAlarmFlag :: "rtc_state \<Rightarrow> rtc_state" where
  "clearAlarmFlag s = writeReg CRL (regs s CRL AND NOT RTC_CRL_ALRF) s"

definition clearOverflowFlag :: "rtc_state \<Rightarrow> rtc_state" where
  "clearOverflowFlag s = writeReg CRL (regs s CRL AND NOT RTC_CRL_OWF) s"

text \<open>What the spec says the ISR does: the classes in dispatch order, a class is served
  when its flag is asserted and enabled, and a served class with a handler is called.\<close>

definition allModes :: "InterruptMode list" where
  "allModes = [RTC_SECONDS_INTERRUPT, RTC_ALARM_INTERRUPT, RTC_OVERFLOW_INTERRUPT]"

definition served :: "rtc_state \<Rightarrow> InterruptMode \<Rightarrow> bool" where
  "served s im = (regs s CRH AND regs s CRL AND interruptFlag im \<noteq> 0)"

definition servedCalls :: "rtc_state \<Rightarrow> handler list" where
  "servedCalls s = List.map_filter (\<lambda>im. if served s im then isr s im else None) allModes"

lemma ucast_ucast_u16: "(ucast (ucast (w :: u32) :: u16) :: u32) = w AND 0xFFFF"
proof -
  have m: "(0xFFFF :: u32) = mask 16" by (simp add: mask_eq_exp_minus_1)
  show ?thesis unfolding m by (rule bit_word_eqI) (auto simp: bit_simps)
qed

lemma served_bits:
  "served s RTC_SECONDS_INTERRUPT = bit (regs s CRH AND regs s CRL) 0"
  "served s RTC_ALARM_INTERRUPT = bit (regs s CRH AND regs s CRL) 1"
  "served s RTC_OVERFLOW_INTERRUPT = bit (regs s CRH AND regs s CRL) 2"
  by (simp_all add: served_def interruptFlag_def RTC_CRL_SECF_def RTC_CRL_ALRF_def RTC_CRL_OWF_def bit_and_iff)

lemma callHandler_alt:
  "callHandler c h s =
     s\<lparr>log := log s @ (if c then (case h of None \<Rightarrow> [] | Some f \<Rightarrow> [EvCall f]) else [])\<rparr>"
  by (cases h) (simp_all add: callHandler_def)

lemma servedCalls_log:
  "log s @ (if bit (regs s CRH AND regs s CRL) 0
            then (case isr s RTC_SECONDS_INTERRUPT of None \<Rightarrow> [] | Some f \<Rightarrow> [EvCall f]) else [])
         @ (if bit (regs s CRH AND regs s CRL) 1
            then (case isr s RTC_ALARM_INTERRUPT of None \<Rightarrow> [] | Some f \<Rightarrow> [EvCall f]) else [])
         @ (if bit (regs s CRH AND regs s CRL) 2
            then (case isr s RTC_OVERFLOW_INTERRUPT of None \<Rightarrow> [] | Some f \<Rightarrow> [EvCall f]) else [])
   = log s @ map EvCall (servedCalls s)"
  by (simp add: servedCalls_def allModes_def served_bits split: option.splits)

lemma bit_ucast_u16_low:
  "n < 16 \<Longrightarrow> bit (ucast (ucast (w :: u32) :: u16) :: u32) n = bit w n"
  by (simp add: bit_simps)

text \<open>The ISR calls the served handlers in order, then waits for \<^verbatim>\<open>RTOFF\<close> and clears
  the served flags.\<close>

lemma RTC_IRQHandler_calls:
  "RTC_IRQHandler hw s =
     do {
       s' \<leftarrow> waitFinished hw (s\<lparr>log := log s @ map EvCall (servedCalls s)\<rparr>);
       Some (writeReg CRL (regs s' CRL AND NOT (ucast (ucast (regs s CRH AND regs s CRL) :: u16))) s')
     }"
  unfolding RTC_IRQHandler_def Let_def callHandler_alt
  by (simp add: RTC_CRL_SECF_def RTC_CRL_ALRF_def RTC_CRL_OWF_def servedCalls_log [symmetric]
      bit_ucast_u16_low)

lemma RTC_IRQHandler_Some:
  assumes "RTC_IRQHandler hw s = Some s'"
  obtains n where "poll s \<le> n" "rtoff_at hw n"
    "s' = writeReg CRL (regs s CRL AND NOT (ucast (ucast (regs s CRH AND regs s CRL) :: u16)))
            (seen RTOFF (s\<lparr>log := log s @ map EvCall (servedCalls s), poll := Suc n\<rparr>))"
  using assms waitFinished_Some [of hw "s\<lparr>log := log s @ map EvCall (servedCalls s)\<rparr>"]
  by (auto simp: RTC_IRQHandler_calls bind_eq_Some_conv seen_def)

text \<open>
  C16. When the shared ISR returns, it has called exactly the registered handlers of the
  classes whose flag is asserted and enabled, in the order seconds, alarm, overflow, then
  seen \<^verbatim>\<open>RTOFF\<close> and written \<^verbatim>\<open>CRL\<close> once, clearing the asserted-and-enabled
  flags (bits 0..15 of \<^verbatim>\<open>CRH AND CRL\<close>) and keeping every other bit; handlers,
  \<^verbatim>\<open>CRH\<close>, the NVIC line and the backup domain are unchanged.
\<close>

theorem RTC_IRQHandler_effect:
  assumes "RTC_IRQHandler hw s = Some s'"
  shows "log s' = log s @ map EvCall (servedCalls s) @
           [EvSeen RTOFF, EvWrite CRL (regs s CRL AND NOT (regs s CRH AND regs s CRL AND 0xFFFF))] \<and>
         regs s' = (regs s)(CRL := regs s CRL AND NOT (regs s CRH AND regs s CRL AND 0xFFFF)) \<and>
         isr s' = isr s \<and> nvic_rtc s' = nvic_rtc s \<and> bkp s' = bkp s \<and> dbp s' = dbp s \<and> bdcr s' = bdcr s"
  using assms by (rule RTC_IRQHandler_Some) (simp add: port_defs ucast_ucast_u16 or.assoc)

theorem RTC_IRQHandler_effect_witness:
  "RTC_IRQHandler hw_ready (port0\<lparr>regs := (\<lambda>_. 0)(CRH := 1, CRL := 3), isr := (\<lambda>_. Some 7)\<rparr>) =
     Some (the (RTC_IRQHandler hw_ready (port0\<lparr>regs := (\<lambda>_. 0)(CRH := 1, CRL := 3), isr := (\<lambda>_. Some 7)\<rparr>))) \<and>
   log (the (RTC_IRQHandler hw_ready (port0\<lparr>regs := (\<lambda>_. 0)(CRH := 1, CRL := 3), isr := (\<lambda>_. Some 7)\<rparr>))) =
     [EvCall 7, EvSeen RTOFF, EvWrite CRL 2]"
proof -
  let ?s = "port0\<lparr>regs := (\<lambda>_. 0)(CRH := 1, CRL := 3), isr := (\<lambda>_. Some 7)\<rparr>"
  have h: "RTC_IRQHandler hw_ready ?s = Some (the (RTC_IRQHandler hw_ready ?s))"
    by (simp add: RTC_IRQHandler_calls waitFinished_def hw_ready_def port0_def pollUntil.simps)
  have c: "servedCalls ?s = [7]"
    by (simp add: servedCalls_def allModes_def served_def interruptFlag_def RTC_CRL_SECF_def
        RTC_CRL_ALRF_def RTC_CRL_OWF_def port0_def)
  show ?thesis using h RTC_IRQHandler_effect [OF h] c by (simp add: port0_def)
qed

text \<open>
  C17. After the ISR, the flag of a class is cleared when the class is enabled, whether
  or not a handler is registered, and is left as it was when the class is disabled. The
  spec (section 4.3) says the ISR does not touch the flags of handler-less classes, and
  (section 8) that the ISR clears the flag of a detached class; the code does neither.
\<close>

theorem RTC_IRQHandler_flags:
  assumes "RTC_IRQHandler hw s = Some s'"
  shows "regs s' CRL AND interruptFlag im =
         (if regs s CRH AND interruptEnableBit im = 0 then regs s CRL AND interruptFlag im else 0)"
  using RTC_IRQHandler_effect [OF assms]
  by (cases im) (simp_all add: interruptFlag_def interruptEnableBit_def RTC_CRL_SECF_def RTC_CRL_ALRF_def
      RTC_CRL_OWF_def RTC_CRH_SECIE_def RTC_CRH_ALRIE_def RTC_CRH_OWIE_def bit_simps)

theorem RTC_IRQHandler_flags_witness:
  "RTC_IRQHandler hw_ready (port0\<lparr>regs := (\<lambda>_. 0)(CRH := 1, CRL := 3)\<rparr>) =
     Some (the (RTC_IRQHandler hw_ready (port0\<lparr>regs := (\<lambda>_. 0)(CRH := 1, CRL := 3)\<rparr>))) \<and>
   regs (the (RTC_IRQHandler hw_ready (port0\<lparr>regs := (\<lambda>_. 0)(CRH := 1, CRL := 3)\<rparr>))) CRL
     AND interruptFlag RTC_SECONDS_INTERRUPT = 0 \<and>
   regs (the (RTC_IRQHandler hw_ready (port0\<lparr>regs := (\<lambda>_. 0)(CRH := 1, CRL := 3)\<rparr>))) CRL
     AND interruptFlag RTC_ALARM_INTERRUPT = 2"
proof -
  let ?s = "port0\<lparr>regs := (\<lambda>_. 0)(CRH := 1, CRL := 3)\<rparr>"
  have h: "RTC_IRQHandler hw_ready ?s = Some (the (RTC_IRQHandler hw_ready ?s))"
    by (simp add: RTC_IRQHandler_calls waitFinished_def hw_ready_def port0_def pollUntil.simps)
  show ?thesis
    using h RTC_IRQHandler_flags [OF h, of RTC_SECONDS_INTERRUPT] RTC_IRQHandler_flags [OF h, of RTC_ALARM_INTERRUPT]
    by (simp add: interruptFlag_def interruptEnableBit_def RTC_CRL_SECF_def RTC_CRL_ALRF_def
        RTC_CRH_SECIE_def RTC_CRH_ALRIE_def)
qed

text \<open>C18. The ISR returns exactly when the hardware eventually shows \<^verbatim>\<open>RTOFF\<close>.\<close>

theorem RTC_IRQHandler_terminates:
  "(\<exists>s'. RTC_IRQHandler hw s = Some s') \<longleftrightarrow> (\<exists>n\<ge>poll s. rtoff_at hw n)"
  using waitFinished_terminates [of hw "s\<lparr>log := log s @ map EvCall (servedCalls s)\<rparr>"]
  by (auto simp: RTC_IRQHandler_calls bind_eq_Some_conv)

lemmas irq_defs = nvicSetEnable_def nvicClearEnable_def setHandler_def

lemma attachInterrupt_Some:
  assumes "attachInterrupt hw im h s = Some s'"
  obtains n where "poll s \<le> n" "rtoff_at hw n"
    "s' = setHandler im h (nvicSetEnable (writeReg CRH (regs s CRH OR interruptEnableBit im)
            (seen RTOFF (s\<lparr>poll := Suc n\<rparr>))))"
  using assms waitFinished_Some [of hw s]
  by (auto simp: attachInterrupt_def bind_eq_Some_conv seen_def)

lemma detachInterrupt_Some:
  assumes "detachInterrupt hw im s = Some s'"
  obtains n where "poll s \<le> n" "rtoff_at hw n"
    "s' = setHandler im None (writeReg CRH (regs s CRH AND NOT (interruptEnableBit im))
            (seen RTOFF ((nvicClearEnable s)\<lparr>poll := Suc n\<rparr>)))"
  using assms waitFinished_Some [of hw "nvicClearEnable s"]
  by (auto simp: detachInterrupt_def bind_eq_Some_conv seen_def nvicClearEnable_def)

text \<open>
  C19. \<^verbatim>\<open>attachInterrupt\<close> waits for \<^verbatim>\<open>RTOFF\<close>, sets the class's enable bit,
  unmasks the NVIC line and installs the handler, in that order; \<^verbatim>\<open>detachInterrupt\<close>
  masks the NVIC line first, waits, clears the enable bit and removes the handler. Masking
  the shared line disables the ISR for all three classes, not only the detached one.
\<close>

theorem attach_detach_effect:
  "(attachInterrupt hw im h s = Some s' \<longrightarrow>
      log s' = log s @ [EvSeen RTOFF, EvWrite CRH (regs s CRH OR interruptEnableBit im), EvNVIC True] \<and>
      regs s' = (regs s)(CRH := regs s CRH OR interruptEnableBit im) \<and>
      isr s' = (isr s)(im := h) \<and> nvic_rtc s') \<and>
   (detachInterrupt hw im s = Some s'' \<longrightarrow>
      log s'' = log s @ [EvNVIC False, EvSeen RTOFF, EvWrite CRH (regs s CRH AND NOT (interruptEnableBit im))] \<and>
      regs s'' = (regs s)(CRH := regs s CRH AND NOT (interruptEnableBit im)) \<and>
      isr s'' = (isr s)(im := None) \<and> \<not> nvic_rtc s'')"
proof (rule conjI; rule impI)
  assume "attachInterrupt hw im h s = Some s'"
  then show "log s' = log s @ [EvSeen RTOFF, EvWrite CRH (regs s CRH OR interruptEnableBit im), EvNVIC True] \<and>
      regs s' = (regs s)(CRH := regs s CRH OR interruptEnableBit im) \<and>
      isr s' = (isr s)(im := h) \<and> nvic_rtc s'"
    by (rule attachInterrupt_Some) (simp add: irq_defs port_defs)
next
  assume "detachInterrupt hw im s = Some s''"
  then show "log s'' = log s @ [EvNVIC False, EvSeen RTOFF, EvWrite CRH (regs s CRH AND NOT (interruptEnableBit im))] \<and>
      regs s'' = (regs s)(CRH := regs s CRH AND NOT (interruptEnableBit im)) \<and>
      isr s'' = (isr s)(im := None) \<and> \<not> nvic_rtc s''"
    by (rule detachInterrupt_Some) (simp add: irq_defs port_defs)
qed

theorem attach_detach_effect_witness:
  "attachInterrupt hw_ready RTC_ALARM_INTERRUPT (Some 5) port0 = Some (the (attachInterrupt hw_ready RTC_ALARM_INTERRUPT (Some 5) port0)) \<and>
   isr (the (attachInterrupt hw_ready RTC_ALARM_INTERRUPT (Some 5) port0)) RTC_ALARM_INTERRUPT = Some 5 \<and>
   detachInterrupt hw_ready RTC_ALARM_INTERRUPT port0 = Some (the (detachInterrupt hw_ready RTC_ALARM_INTERRUPT port0)) \<and>
   \<not> nvic_rtc (the (detachInterrupt hw_ready RTC_ALARM_INTERRUPT port0))"
proof -
  have a: "attachInterrupt hw_ready RTC_ALARM_INTERRUPT (Some 5) port0 =
           Some (the (attachInterrupt hw_ready RTC_ALARM_INTERRUPT (Some 5) port0))"
    by (simp add: attachInterrupt_def waitFinished_def hw_ready_def port0_def pollUntil.simps)
  have d: "detachInterrupt hw_ready RTC_ALARM_INTERRUPT port0 =
           Some (the (detachInterrupt hw_ready RTC_ALARM_INTERRUPT port0))"
    by (simp add: detachInterrupt_def waitFinished_def hw_ready_def port0_def pollUntil.simps irq_defs Let_def)
  show ?thesis
    using a d attach_detach_effect [of hw_ready RTC_ALARM_INTERRUPT "Some 5" port0
        "the (attachInterrupt hw_ready RTC_ALARM_INTERRUPT (Some 5) port0)"
        "the (detachInterrupt hw_ready RTC_ALARM_INTERRUPT port0)"]
    by simp
qed

end
