(* ===== verification/Interrupt_Interleaving.thy ===== *)
theory Interrupt_Interleaving
  imports Interrupts
begin

text \<open>
  The foreground and the interrupt context interleaved. \<^verbatim>\<open>attachInterrupt\<close> and
  \<^verbatim>\<open>detachInterrupt\<close> are split into their statements (micro-operations
  \<open>fgop\<close>); the shared ISR may preempt the foreground between any two of them while
  the NVIC line is unmasked, and runs to completion; the hardware may assert any flag at
  any time. A system state is the foreground call in progress with its program counter
  (\<open>None\<close> when idle) and the port. \<^verbatim>\<open>waitFinished\<close> is one micro-operation: it
  only reads \<^verbatim>\<open>RTOFF\<close>, so an ISR run during the wait commutes with it up to the poll
  counter.
\<close>

datatype fgcall = Attach InterruptMode "handler option" | Detach InterruptMode

datatype fgop = OpWaitFinished | OpOrCRH u32 | OpAndNotCRH u32 | OpNVIC bool
  | OpSetISR InterruptMode "handler option"

definition fgStep :: "hw_env \<Rightarrow> fgop \<Rightarrow> rtc_state \<Rightarrow> rtc_state option" where
  "fgStep hw op s =
     (case op of
        OpWaitFinished \<Rightarrow> waitFinished hw s
      | OpOrCRH b \<Rightarrow> Some (writeReg CRH (regs s CRH OR b) s)
      | OpAndNotCRH b \<Rightarrow> Some (writeReg CRH (regs s CRH AND NOT b) s)
      | OpNVIC e \<Rightarrow> Some (if e then nvicSetEnable s else nvicClearEnable s)
      | OpSetISR im h \<Rightarrow> Some (setHandler im h s))"

fun callOps :: "fgcall \<Rightarrow> fgop list" where
  "callOps (Attach im h) = [OpWaitFinished, OpOrCRH (interruptEnableBit im), OpNVIC True, OpSetISR im h]"
| "callOps (Detach im) = [OpNVIC False, OpWaitFinished, OpAndNotCRH (interruptEnableBit im), OpSetISR im None]"

fun runOps :: "hw_env \<Rightarrow> fgop list \<Rightarrow> rtc_state \<Rightarrow> rtc_state option" where
  "runOps hw [] s = Some s"
| "runOps hw (op # ops) s = fgStep hw op s \<bind> runOps hw ops"

text \<open>The hardware asserts a flag (\<^verbatim>\<open>SECF\<close>, \<^verbatim>\<open>ALRF\<close> or \<^verbatim>\<open>OWF\<close>).\<close>

definition raiseFlag :: "InterruptMode \<Rightarrow> rtc_state \<Rightarrow> rtc_state" where
  "raiseFlag im s = s\<lparr>regs := (regs s)(CRL := regs s CRL OR interruptFlag im)\<rparr>"

type_synonym sys = "(fgcall \<times> nat) option \<times> rtc_state"

inductive rtc_step :: "hw_env \<Rightarrow> sys \<Rightarrow> sys \<Rightarrow> bool" for hw where
  call: "rtc_step hw (None, s) (Some (c, 0), s)"
| fg: "pc < length (callOps c) \<Longrightarrow> fgStep hw (callOps c ! pc) s = Some s' \<Longrightarrow>
       rtc_step hw (Some (c, pc), s) (if Suc pc = length (callOps c) then None else Some (c, Suc pc), s')"
| irq: "nvic_rtc s \<Longrightarrow> RTC_IRQHandler hw s = Some s' \<Longrightarrow> rtc_step hw (f, s) (f, s')"
| flag: "rtc_step hw (f, s) (f, raiseFlag im s)"

text \<open>After reset the handler pointers are \<^verbatim>\<open>NULL\<close> (static storage) and \<^verbatim>\<open>CRH\<close> is 0.\<close>

inductive reach :: "hw_env \<Rightarrow> sys \<Rightarrow> bool" for hw where
  init: "regs s CRH = 0 \<Longrightarrow> isr s = (\<lambda>_. None) \<Longrightarrow> reach hw (None, s)"
| step: "reach hw x \<Longrightarrow> rtc_step hw x y \<Longrightarrow> reach hw y"

inductive_cases rtc_stepE: "rtc_step hw x y"

text \<open>The handler calls recorded in a log.\<close>

definition handlerCalls :: "event list \<Rightarrow> handler list" where
  "handlerCalls es = List.map_filter (\<lambda>e. case e of EvCall f \<Rightarrow> Some f | _ \<Rightarrow> None) es"

definition enabled :: "rtc_state \<Rightarrow> InterruptMode \<Rightarrow> bool" where
  "enabled s im = (regs s CRH AND interruptEnableBit im \<noteq> 0)"

text \<open>
  The invariant: \<^verbatim>\<open>CRH\<close> holds only enable bits (bits 3 and up are 0); a class with a handler is enabled,
  except in the last step of its own detach; during a detach, once the first statement ran,
  the NVIC line is masked; during an attach, once the enable bit is set it stays set.
\<close>

definition rtcInv :: "sys \<Rightarrow> bool" where
  "rtcInv x =
     (case x of (f, s) \<Rightarrow>
        drop_bit 3 (regs s CRH) = 0 \<and>
        list_all (\<lambda>im. isr s im \<noteq> None \<and> f \<noteq> Some (Detach im, 3) \<longrightarrow> enabled s im) allModes \<and>
        (case f of None \<Rightarrow> True
         | Some (Detach im, pc) \<Rightarrow> (1 \<le> pc \<longrightarrow> \<not> nvic_rtc s)
         | Some (Attach im h, pc) \<Rightarrow> (2 \<le> pc \<longrightarrow> enabled s im)))"

lemma drop_bit_3_eq_0: "(drop_bit 3 (x :: u32) = 0) = (\<forall>n\<ge>3. \<not> bit x n)"
proof -
  have "(drop_bit 3 x = 0) = (\<forall>n. \<not> bit x (3 + n))"
  proof
    assume "drop_bit 3 x = 0"
    show "\<forall>n. \<not> bit x (3 + n)"
    proof
      fix n
      have "bit (drop_bit 3 x) n = bit x (3 + n)" by (simp add: bit_drop_bit_eq)
      with \<open>drop_bit 3 x = 0\<close> show "\<not> bit x (3 + n)" by simp
    qed
  next
    assume "\<forall>n. \<not> bit x (3 + n)"
    then show "drop_bit 3 x = 0" by (intro bit_word_eqI) (simp add: bit_drop_bit_eq)
  qed
  also have "\<dots> = (\<forall>n\<ge>3. \<not> bit x n)"
    by (metis le_add1 le_add_diff_inverse)
  finally show ?thesis .
qed

lemma enabled_simps:
  "enabled s RTC_SECONDS_INTERRUPT = bit (regs s CRH) 0"
  "enabled s RTC_ALARM_INTERRUPT = bit (regs s CRH) 1"
  "enabled s RTC_OVERFLOW_INTERRUPT = bit (regs s CRH) 2"
  by (simp_all add: enabled_def interruptEnableBit_def RTC_CRH_SECIE_def RTC_CRH_ALRIE_def RTC_CRH_OWIE_def)

lemma interruptEnableBit_bits:
  "interruptEnableBit RTC_SECONDS_INTERRUPT = 2 ^ 0"
  "interruptEnableBit RTC_ALARM_INTERRUPT = 2 ^ 1"
  "interruptEnableBit RTC_OVERFLOW_INTERRUPT = 2 ^ 2"
  by (simp_all add: interruptEnableBit_def RTC_CRH_SECIE_def RTC_CRH_ALRIE_def RTC_CRH_OWIE_def)

lemma rtcInv_unfold:
  "rtcInv (f, s) =
     ((\<forall>n\<ge>3. \<not> bit (regs s CRH) n) \<and>
      (isr s RTC_SECONDS_INTERRUPT \<noteq> None \<and> f \<noteq> Some (Detach RTC_SECONDS_INTERRUPT, 3) \<longrightarrow> bit (regs s CRH) 0) \<and>
      (isr s RTC_ALARM_INTERRUPT \<noteq> None \<and> f \<noteq> Some (Detach RTC_ALARM_INTERRUPT, 3) \<longrightarrow> bit (regs s CRH) 1) \<and>
      (isr s RTC_OVERFLOW_INTERRUPT \<noteq> None \<and> f \<noteq> Some (Detach RTC_OVERFLOW_INTERRUPT, 3) \<longrightarrow> bit (regs s CRH) 2) \<and>
      (case f of None \<Rightarrow> True
       | Some (Detach im, pc) \<Rightarrow> (1 \<le> pc \<longrightarrow> \<not> nvic_rtc s)
       | Some (Attach im h, pc) \<Rightarrow> (2 \<le> pc \<longrightarrow> enabled s im)))"
  by (simp add: rtcInv_def allModes_def enabled_simps drop_bit_3_eq_0)

text \<open>The invariant only reads \<^verbatim>\<open>CRH\<close>, the handler slots and the NVIC line.\<close>

lemma rtcInv_cong:
  "regs s' CRH = regs s CRH \<Longrightarrow> isr s' = isr s \<Longrightarrow> nvic_rtc s' = nvic_rtc s \<Longrightarrow>
   rtcInv (f, s') = rtcInv (f, s)"
proof -
  assume "regs s' CRH = regs s CRH" "isr s' = isr s" "nvic_rtc s' = nvic_rtc s"
  moreover from this(1) have "enabled s' = enabled s" by (simp add: enabled_def fun_eq_iff)
  ultimately show ?thesis by (cases f) (simp_all add: rtcInv_def split: prod.split fgcall.split)
qed

lemma raiseFlag_frame [simp]:
  "regs (raiseFlag im s) CRH = regs s CRH" "isr (raiseFlag im s) = isr s" "nvic_rtc (raiseFlag im s) = nvic_rtc s"
  by (simp_all add: raiseFlag_def)

lemma waitFinished_frame:
  "waitFinished hw s = Some s' \<Longrightarrow> regs s' = regs s \<and> isr s' = isr s \<and> nvic_rtc s' = nvic_rtc s"
  by (auto dest!: waitFinished_Some simp: seen_def)

subsection \<open>Each micro-operation keeps the invariant\<close>

lemmas inv_simps = rtcInv_unfold port_defs irq_defs interruptEnableBit_bits enabled_simps bit_simps
  bit_small_u32 bit_numeral_Bit0_int bit_1_iff

lemma inv_wait:
  assumes "waitFinished hw s = Some s'"
  shows "rtcInv (Some (Attach im h, 0), s) \<Longrightarrow> rtcInv (Some (Attach im h, 1), s')"
    and "rtcInv (Some (Detach im, 1), s) \<Longrightarrow> rtcInv (Some (Detach im, 2), s')"
  using waitFinished_frame [OF assms] rtcInv_cong [of s' s]
  by (simp_all add: rtcInv_unfold)

lemma inv_attach_steps:
  "rtcInv (Some (Attach im h, 1), s) \<Longrightarrow>
   rtcInv (Some (Attach im h, 2), writeReg CRH (regs s CRH OR interruptEnableBit im) s)"
  "rtcInv (Some (Attach im h, 2), s) \<Longrightarrow> rtcInv (Some (Attach im h, 3), nvicSetEnable s)"
  "rtcInv (Some (Attach im h, 3), s) \<Longrightarrow> rtcInv (None, setHandler im h s)"
  by (cases im; auto simp: inv_simps)+

lemma inv_detach_steps:
  "rtcInv (None, s) \<Longrightarrow> rtcInv (Some (c, 0), s)"
  "rtcInv (Some (Detach im, 0), s) \<Longrightarrow> rtcInv (Some (Detach im, 1), nvicClearEnable s)"
  "rtcInv (Some (Detach im, 2), s) \<Longrightarrow>
   rtcInv (Some (Detach im, 3), writeReg CRH (regs s CRH AND NOT (interruptEnableBit im)) s)"
  "rtcInv (Some (Detach im, 3), s) \<Longrightarrow> rtcInv (None, setHandler im None s)"
  by (cases c; cases im; auto simp: inv_simps)+

lemma rtcInv_step: "rtc_step hw x y \<Longrightarrow> rtcInv x \<Longrightarrow> rtcInv y"
proof (induction rule: rtc_step.induct)
  case (call s c)
  then show ?case by (rule inv_detach_steps(1))
next
  case (fg pc c s s')
  show ?case
  proof (cases c)
    case (Attach im h)
    with fg.hyps(1) consider "pc = 0" | "pc = 1" | "pc = 2" | "pc = 3" by fastforce
    then show ?thesis
      using fg Attach
      by cases (auto simp: fgStep_def intro: inv_wait [unfolded One_nat_def numeral_2_eq_2]
          inv_attach_steps inv_attach_steps [unfolded One_nat_def numeral_2_eq_2])
  next
    case (Detach im)
    with fg.hyps(1) consider "pc = 0" | "pc = 1" | "pc = 2" | "pc = 3" by fastforce
    then show ?thesis
      using fg Detach
      by cases (auto simp: fgStep_def intro: inv_wait [unfolded One_nat_def numeral_2_eq_2]
          inv_detach_steps inv_detach_steps [unfolded One_nat_def numeral_2_eq_2])
  qed
next
  case (irq s s' f)
  then show ?case using RTC_IRQHandler_effect [OF irq.hyps(2)] rtcInv_cong [of s' s f] by simp
next
  case (flag f s im)
  then show ?case using rtcInv_cong [of "raiseFlag im s" s f] by simp
qed

lemma reach_rtcInv: "reach hw x \<Longrightarrow> rtcInv x"
proof (induction rule: reach.induct)
  case (init s)
  then show ?case by (simp add: rtcInv_unfold)
next
  case (step x y)
  then show ?case using rtcInv_step by blast
qed

lemma handlerCalls_append [simp]: "handlerCalls (xs @ ys) = handlerCalls xs @ handlerCalls ys"
  by (simp add: handlerCalls_def map_filter_def)

lemma handlerCalls_simps [simp]:
  "handlerCalls [] = []" "handlerCalls [EvCall f] = [f]" "handlerCalls (map EvCall fs) = fs"
  "handlerCalls [EvSeen b] = []" "handlerCalls [EvWrite r v] = []" "handlerCalls [EvNVIC e] = []"
  by (simp_all add: handlerCalls_def map_filter_def comp_def)

lemma fgStep_calls:
  "fgStep hw op s = Some s' \<Longrightarrow> handlerCalls (log s') = handlerCalls (log s)"
  by (cases op) (auto simp: fgStep_def port_defs irq_defs dest!: waitFinished_Some)

lemma rtcInv_handler_enabled:
  "rtcInv (None, s) \<Longrightarrow> isr s im = Some f \<Longrightarrow> enabled s im"
  by (cases im) (auto simp: rtcInv_unfold enabled_simps)

lemma served_raiseFlag:
  "enabled s im \<Longrightarrow> served (raiseFlag im s) im"
  by (cases im) (simp_all add: served_def raiseFlag_def enabled_def interruptFlag_def interruptEnableBit_def
      RTC_CRL_SECF_def RTC_CRL_ALRF_def RTC_CRL_OWF_def RTC_CRH_SECIE_def RTC_CRH_ALRIE_def RTC_CRH_OWIE_def
      bit_simps bit_small_u32 bit_numeral_Bit0_int bit_1_iff)

lemma servedCalls_member:
  "served s im \<Longrightarrow> isr s im = Some f \<Longrightarrow> f \<in> set (servedCalls s)"
  by (cases im) (auto simp: servedCalls_def allModes_def map_filter_def)

lemma run_ops_steps:
  "runOps hw (drop pc (callOps c)) s = Some s' \<Longrightarrow> pc < length (callOps c) \<Longrightarrow>
   (rtc_step hw)\<^sup>*\<^sup>* (Some (c, pc), s) (None, s')"
proof (induction "length (callOps c) - pc" arbitrary: pc s)
  case 0
  then show ?case by simp
next
  case (Suc k)
  from Suc.prems obtain s1 where s1: "fgStep hw (callOps c ! pc) s = Some s1"
    and rest: "runOps hw (drop (Suc pc) (callOps c)) s1 = Some s'"
    by (auto simp: Cons_nth_drop_Suc [symmetric] bind_eq_Some_conv)
  have step: "rtc_step hw (Some (c, pc), s)
      (if Suc pc = length (callOps c) then None else Some (c, Suc pc), s1)"
    using Suc.prems(2) s1 by (rule rtc_step.fg)
  show ?case
  proof (cases "Suc pc = length (callOps c)")
    case True
    with rest have "s1 = s'" by simp
    with step True show ?thesis by simp
  next
    case False
    with Suc.hyps(1) [of "Suc pc" s1] Suc.hyps(2) Suc.prems(2) rest
    have "(rtc_step hw)\<^sup>*\<^sup>* (Some (c, Suc pc), s1) (None, s')" by simp
    with step False show ?thesis by (simp add: converse_rtranclp_into_rtranclp)
  qed
qed

lemma reach_star: "(rtc_step hw)\<^sup>*\<^sup>* x y \<Longrightarrow> reach hw x \<Longrightarrow> reach hw y"
  by (induction rule: rtranclp_induct) (auto intro: reach.step)

lemma run_call:
  "runOps hw (callOps c) s = Some s' \<Longrightarrow> (rtc_step hw)\<^sup>*\<^sup>* (None, s) (None, s')"
  using run_ops_steps [of hw 0 c s s'] rtc_step.call [of hw s c]
  by (cases c) (auto intro: converse_rtranclp_into_rtranclp)

lemma runOps_callOps:
  "runOps hw (callOps (Attach im h)) s = attachInterrupt hw im h s"
  "runOps hw (callOps (Detach im)) s = detachInterrupt hw im s"
  by (auto simp: attachInterrupt_def detachInterrupt_def fgStep_def intro!: Option.bind_cong)

text \<open>
  C20. In every idle state reachable from reset, under every interleaving of
  \<^verbatim>\<open>attachInterrupt\<close>/\<^verbatim>\<open>detachInterrupt\<close> statements, ISR runs and hardware flag
  assertions, \<^verbatim>\<open>CRH\<close> holds only enable bits and every class with a handler is
  enabled.
\<close>

theorem reach_handlers_enabled:
  assumes "reach hw (None, s)"
  shows "drop_bit 3 (regs s CRH) = 0 \<and> (\<forall>im f. isr s im = Some f \<longrightarrow> enabled s im)"
  using reach_rtcInv [OF assms] rtcInv_handler_enabled [of s] by (simp add: rtcInv_def)

lemma attach_sec_port0:
  "attachInterrupt hw_ready RTC_SECONDS_INTERRUPT (Some 9) port0 =
   Some (the (attachInterrupt hw_ready RTC_SECONDS_INTERRUPT (Some 9) port0))"
  by (simp add: attachInterrupt_def waitFinished_def hw_ready_def port0_def pollUntil.simps)

lemma reach_port0: "reach hw (None, port0)"
  by (rule reach.init) (simp_all add: port0_def)

lemma reach_attach_sec:
  "reach hw_ready (None, the (attachInterrupt hw_ready RTC_SECONDS_INTERRUPT (Some 9) port0))"
proof -
  have "runOps hw_ready (callOps (Attach RTC_SECONDS_INTERRUPT (Some 9))) port0 =
        Some (the (attachInterrupt hw_ready RTC_SECONDS_INTERRUPT (Some 9) port0))"
    using attach_sec_port0 by (simp only: runOps_callOps)
  then have "(rtc_step hw_ready)\<^sup>*\<^sup>* (None, port0)
               (None, the (attachInterrupt hw_ready RTC_SECONDS_INTERRUPT (Some 9) port0))"
    by (rule run_call)
  then show ?thesis using reach_port0 by (rule reach_star)
qed

theorem reach_handlers_enabled_witness:
  "reach hw_ready (None, the (attachInterrupt hw_ready RTC_SECONDS_INTERRUPT (Some 9) port0)) \<and>
   enabled (the (attachInterrupt hw_ready RTC_SECONDS_INTERRUPT (Some 9) port0)) RTC_SECONDS_INTERRUPT"
proof -
  have "isr (the (attachInterrupt hw_ready RTC_SECONDS_INTERRUPT (Some 9) port0)) RTC_SECONDS_INTERRUPT = Some 9"
    by (simp add: attachInterrupt_def waitFinished_def hw_ready_def port0_def pollUntil.simps irq_defs port_defs)
  then show ?thesis using reach_attach_sec reach_handlers_enabled [OF reach_attach_sec] by blast
qed

text \<open>
  C21. Once \<^verbatim>\<open>detachInterrupt\<close> has executed its first statement (masking the NVIC
  line) and until it returns, the line stays masked, so no step of the system (an ISR
  run in particular) calls a handler (spec, section 5).
\<close>

theorem detach_masks_isr:
  assumes "reach hw (Some (Detach im, pc), s)" "1 \<le> pc"
    and "rtc_step hw (Some (Detach im, pc), s) (f', s')"
  shows "\<not> nvic_rtc s \<and> handlerCalls (log s') = handlerCalls (log s)"
proof -
  have m: "\<not> nvic_rtc s" using reach_rtcInv [OF assms(1)] assms(2) by (simp add: rtcInv_def)
  from assms(3) have "handlerCalls (log s') = handlerCalls (log s)"
  proof (cases rule: rtc_step.cases)
    case fg
    then show ?thesis using fgStep_calls by auto
  next
    case irq
    then show ?thesis using m by simp
  next
    case flag
    then show ?thesis by (auto simp: raiseFlag_def)
  qed
  with m show ?thesis by simp
qed

theorem detach_masks_isr_witness:
  "reach hw_ready (Some (Detach RTC_SECONDS_INTERRUPT, 1), nvicClearEnable port0) \<and>
   rtc_step hw_ready (Some (Detach RTC_SECONDS_INTERRUPT, 1), nvicClearEnable port0)
     (Some (Detach RTC_SECONDS_INTERRUPT, 1), raiseFlag RTC_SECONDS_INTERRUPT (nvicClearEnable port0)) \<and>
   \<not> nvic_rtc (nvicClearEnable port0)"
proof -
  have r0: "reach hw_ready (Some (Detach RTC_SECONDS_INTERRUPT, 0), port0)"
    using reach_port0 rtc_step.call by (rule reach.step)
  have "rtc_step hw_ready (Some (Detach RTC_SECONDS_INTERRUPT, 0), port0)
          (Some (Detach RTC_SECONDS_INTERRUPT, 1), nvicClearEnable port0)"
    using rtc_step.fg [of 0 "Detach RTC_SECONDS_INTERRUPT" hw_ready port0 "nvicClearEnable port0"]
    by (simp add: fgStep_def)
  with r0 have r1: "reach hw_ready (Some (Detach RTC_SECONDS_INTERRUPT, 1), nvicClearEnable port0)"
    by (rule reach.step)
  have st: "rtc_step hw_ready (Some (Detach RTC_SECONDS_INTERRUPT, 1), nvicClearEnable port0)
     (Some (Detach RTC_SECONDS_INTERRUPT, 1), raiseFlag RTC_SECONDS_INTERRUPT (nvicClearEnable port0))"
    by (rule rtc_step.flag)
  show ?thesis using r1 st detach_masks_isr [OF r1 _ st] by simp
qed

text \<open>
  C22. In an idle reachable state, a flag the hardware asserts for a class with a
  registered handler is served if the ISR runs: when an ISR run on that state returns, it
  has called the handler. Whether the ISR runs at all is not covered: the NVIC line is
  shared, and \<^verbatim>\<open>detachInterrupt\<close> of any class masks it until the next
  \<^verbatim>\<open>attachInterrupt\<close>, so after detaching one class the handlers of the others stay
  registered and enabled but are not called.
\<close>

theorem isr_delivers:
  assumes "reach hw (None, s)" "isr s im = Some f" "RTC_IRQHandler hw (raiseFlag im s) = Some s'"
  shows "f \<in> set (handlerCalls (log s'))"
proof -
  have "enabled s im" using reach_rtcInv [OF assms(1)] assms(2) by (rule rtcInv_handler_enabled)
  then have "served (raiseFlag im s) im" by (rule served_raiseFlag)
  with assms(2) have "f \<in> set (servedCalls (raiseFlag im s))"
    by (intro servedCalls_member) (simp_all add: raiseFlag_def)
  then show ?thesis using RTC_IRQHandler_effect [OF assms(3)] by simp
qed

theorem isr_delivers_witness:
  "RTC_IRQHandler hw_ready (raiseFlag RTC_SECONDS_INTERRUPT
      (the (attachInterrupt hw_ready RTC_SECONDS_INTERRUPT (Some 9) port0))) =
   Some (the (RTC_IRQHandler hw_ready (raiseFlag RTC_SECONDS_INTERRUPT
      (the (attachInterrupt hw_ready RTC_SECONDS_INTERRUPT (Some 9) port0))))) \<and>
   9 \<in> set (handlerCalls (log (the (RTC_IRQHandler hw_ready (raiseFlag RTC_SECONDS_INTERRUPT
      (the (attachInterrupt hw_ready RTC_SECONDS_INTERRUPT (Some 9) port0)))))))"
proof -
  let ?s = "the (attachInterrupt hw_ready RTC_SECONDS_INTERRUPT (Some 9) port0)"
  have i: "isr ?s RTC_SECONDS_INTERRUPT = Some 9"
    by (simp add: attachInterrupt_def waitFinished_def hw_ready_def port0_def pollUntil.simps irq_defs port_defs)
  have h: "RTC_IRQHandler hw_ready (raiseFlag RTC_SECONDS_INTERRUPT ?s) =
           Some (the (RTC_IRQHandler hw_ready (raiseFlag RTC_SECONDS_INTERRUPT ?s)))"
    by (simp add: RTC_IRQHandler_calls attachInterrupt_def waitFinished_def hw_ready_def port0_def
        pollUntil.simps irq_defs port_defs raiseFlag_def)
  show ?thesis using h isr_delivers [OF reach_attach_sec i h] by blast
qed

text \<open>
  C23. The drop window of \<^verbatim>\<open>attachInterrupt\<close> (spec, section 5): there is a run from
  reset in which a seconds flag is asserted and enabled while
  \<^verbatim>\<open>attachInterrupt(RTC_SECONDS_INTERRUPT, h)\<close> has set the enable bit and unmasked
  the line but not yet stored the handler; the ISR runs, finds no handler, and clears the
  flag. The attach completes with the handler installed and enabled, the flag cleared, and
  no handler ever called: the event is lost.
\<close>

theorem attach_drop_window:
  "\<exists>s4 s. (rtc_step hw_ready)\<^sup>*\<^sup>* (None, port0) (Some (Attach RTC_SECONDS_INTERRUPT (Some 9), 3), s4) \<and>
     served s4 RTC_SECONDS_INTERRUPT \<and>
     (rtc_step hw_ready)\<^sup>*\<^sup>* (Some (Attach RTC_SECONDS_INTERRUPT (Some 9), 3), s4) (None, s) \<and>
     isr s RTC_SECONDS_INTERRUPT = Some 9 \<and> enabled s RTC_SECONDS_INTERRUPT \<and>
     \<not> isCounterUpdated s \<and> handlerCalls (log s) = []"
proof -
  define a where "a = Attach RTC_SECONDS_INTERRUPT (Some 9)"
  define s1 where "s1 = the (waitFinished hw_ready port0)"
  define s2 where "s2 = writeReg CRH (regs s1 CRH OR interruptEnableBit RTC_SECONDS_INTERRUPT) s1"
  define s3 where "s3 = nvicSetEnable s2"
  define s4 where "s4 = raiseFlag RTC_SECONDS_INTERRUPT s3"
  define s5 where "s5 = the (RTC_IRQHandler hw_ready s4)"
  define s6 where "s6 = setHandler RTC_SECONDS_INTERRUPT (Some 9) s5"
  have w: "waitFinished hw_ready port0 = Some s1"
    by (simp add: s1_def waitFinished_def hw_ready_def port0_def pollUntil.simps)
  have i: "RTC_IRQHandler hw_ready s4 = Some s5"
    by (simp add: s5_def s4_def s3_def s2_def s1_def RTC_IRQHandler_calls waitFinished_def hw_ready_def
        port0_def pollUntil.simps irq_defs port_defs raiseFlag_def)
  have st1: "rtc_step hw_ready (None, port0) (Some (a, 0), port0)" by (rule rtc_step.call)
  have st2: "rtc_step hw_ready (Some (a, 0), port0) (Some (a, 1), s1)"
    using rtc_step.fg [of 0 a hw_ready port0 s1] w by (simp add: a_def fgStep_def)
  have st3: "rtc_step hw_ready (Some (a, 1), s1) (Some (a, 2), s2)"
    using rtc_step.fg [of 1 a hw_ready s1 s2] by (simp add: a_def fgStep_def s2_def numeral_2_eq_2)
  have st4: "rtc_step hw_ready (Some (a, 2), s2) (Some (a, 3), s3)"
    using rtc_step.fg [of 2 a hw_ready s2 s3] by (simp add: a_def fgStep_def s3_def)
  have st5: "rtc_step hw_ready (Some (a, 3), s3) (Some (a, 3), s4)"
    unfolding s4_def by (rule rtc_step.flag)
  have n4: "nvic_rtc s4" by (simp add: s4_def s3_def raiseFlag_def irq_defs)
  have st6: "rtc_step hw_ready (Some (a, 3), s4) (Some (a, 3), s5)"
    using n4 i by (rule rtc_step.irq)
  have st7: "rtc_step hw_ready (Some (a, 3), s5) (None, s6)"
    using rtc_step.fg [of 3 a hw_ready s5 s6] by (simp add: a_def fgStep_def s6_def)
  have run1: "(rtc_step hw_ready)\<^sup>*\<^sup>* (None, port0) (Some (a, 3), s4)"
    using st1 st2 st3 st4 st5 by (meson converse_rtranclp_into_rtranclp rtranclp.rtrancl_refl)
  have run2: "(rtc_step hw_ready)\<^sup>*\<^sup>* (Some (a, 3), s4) (None, s6)"
    using st6 st7 by (meson converse_rtranclp_into_rtranclp rtranclp.rtrancl_refl)
  have f: "served s4 RTC_SECONDS_INTERRUPT \<and> isr s6 RTC_SECONDS_INTERRUPT = Some 9 \<and>
      enabled s6 RTC_SECONDS_INTERRUPT \<and> \<not> isCounterUpdated s6 \<and> handlerCalls (log s6) = []"
    using w
    by (simp add: s6_def s5_def s4_def s3_def s2_def s1_def RTC_IRQHandler_calls waitFinished_def hw_ready_def
        port0_def pollUntil.simps irq_defs port_defs raiseFlag_def served_def enabled_def isCounterUpdated_def
        interruptFlag_def interruptEnableBit_def RTC_CRL_SECF_def RTC_CRH_SECIE_def servedCalls_def
        allModes_def handlerCalls_def map_filter_def seen_def)
  show ?thesis using run1 run2 f unfolding a_def by blast
qed

end
