(* ===== verification/Backup.thy ===== *)
theory Backup
  imports RTC_Port
begin

text \<open>
  The backup register store of \<^verbatim>\<open>src/src/stm32f1_rtc.cpp\<close>
  (\<^verbatim>\<open>getBackupRegister\<close>, \<^verbatim>\<open>setBackupRegister\<close>). \<^verbatim>\<open>BKP_DR\<close> is the
  \<^verbatim>\<open>uint32_t\<close> array at the base of the backup block, indexed by word: data
  registers 1..10 sit at indices 1..10, data registers 11..42 (on the variants that have
  them) at indices 16..47; indices 11..15 are the block's control registers. The
  compile-time selection \<^verbatim>\<open>#if (BKP_NR_DATA_REGS == 42) || defined(BKP_DR42_D)\<close> is
  the parameter \<open>extended\<close>.
\<close>

text \<open>\<^verbatim>\<open>RTC_INIT_REG\<close> and \<^verbatim>\<open>RTC_INIT_FLAG\<close> (header lines 100--102): the slot and
  bit in which \<^verbatim>\<open>init\<close> records that the clock domain is configured.\<close>

definition RTC_INIT_REG :: nat where "RTC_INIT_REG = 1"

definition RTC_INIT_FLAG :: u32 where "RTC_INIT_FLAG = push_bit 0 1"

text \<open>A store \<^verbatim>\<open>BKP_DR[i] = v\<close>.\<close>

definition writeBkp :: "nat \<Rightarrow> u32 \<Rightarrow> rtc_state \<Rightarrow> rtc_state" where
  "writeBkp i v s = s\<lparr>bkp := (bkp s)(i := v), log := log s @ [EvBkp i v]\<rparr>"

text \<open>The index prologue both functions share (lines 123--129 and 136--142): the
  \<^verbatim>\<open>uint8_t\<close> parameter is remapped in place, so \<^verbatim>\<open>idx += 5\<close> wraps modulo 256.\<close>

definition backupIndex :: "bool \<Rightarrow> u8 \<Rightarrow> u8 option" where
  "backupIndex extended idx =
     (if extended
      then (let idx = (if idx > 10 then idx + 5 else idx)
            in if 1 \<le> idx \<and> idx \<le> 47 then Some idx else None)
      else if 1 \<le> idx \<and> idx \<le> 10 then Some idx else None)"

definition getBackupRegister :: "bool \<Rightarrow> u8 \<Rightarrow> rtc_state \<Rightarrow> u16" where
  "getBackupRegister extended idx s =
     (case backupIndex extended idx of Some i \<Rightarrow> ucast (bkp s (unat i)) | None \<Rightarrow> 0)"

definition setBackupRegister :: "bool \<Rightarrow> u8 \<Rightarrow> u16 \<Rightarrow> rtc_state \<Rightarrow> bool \<times> rtc_state" where
  "setBackupRegister extended idx val s =
     (case backupIndex extended idx of
        Some i \<Rightarrow> (True, disableBackupWrites (writeBkp (unat i) (ucast val) (enableBackupWrites s)))
      | None \<Rightarrow> (False, s))"

text \<open>
  The store as the spec describes it: \<open>backupSlots extended\<close> user slots numbered from
  1 (42 or 10, \<^verbatim>\<open>BKP_NR_DATA_REGS\<close>), slot \<open>k\<close> held in data register
  \<open>k\<close>, which is word \<open>backupSlot k\<close> of the backup block.
\<close>

definition backupSlots :: "bool \<Rightarrow> nat" where
  "backupSlots extended = (if extended then 42 else 10)"

definition backupSlot :: "nat \<Rightarrow> nat" where
  "backupSlot k = (if k \<le> 10 then k else k + 5)"

definition backupAbs :: "bool \<Rightarrow> rtc_state \<Rightarrow> nat \<Rightarrow> u16" where
  "backupAbs extended s k =
     (if 1 \<le> k \<and> k \<le> backupSlots extended then ucast (bkp s (backupSlot k)) else 0)"

lemma uint_u8_plus_5:
  "uint (idx + 5 :: u8) = (if uint idx \<le> 250 then uint idx + 5 else uint idx - 251)"
  using uint_lt2p [of idx] by (simp add: uint_plus_if' word_le_def)

lemma backupIndex_extended:
  "backupIndex True idx =
     (if 1 \<le> uint idx \<and> uint idx \<le> 10 then Some idx
      else if 11 \<le> uint idx \<and> uint idx \<le> 42 \<or> 252 \<le> uint idx then Some (idx + 5) else None)"
  using uint_lt2p [of idx] uint_u8_plus_5 [of idx]
  by (auto simp: backupIndex_def word_le_def word_less_def)

lemma backupIndex_base:
  "backupIndex False idx = (if 1 \<le> uint idx \<and> uint idx \<le> 10 then Some idx else None)"
  by (simp add: backupIndex_def word_le_def)

lemma backupIndex_slot:
  assumes "1 \<le> k" "k \<le> backupSlots extended"
  shows "backupIndex extended (of_nat k) = Some (of_nat (backupSlot k))"
proof -
  have k: "uint (of_nat k :: u8) = int k" "k \<le> 42"
    using assms by (auto simp: backupSlots_def unsigned_of_nat take_bit_nat_eq_self split: if_splits)
  show ?thesis
  proof (cases extended)
    case True
    then show ?thesis using assms k
      by (auto simp: backupIndex_extended backupSlot_def of_nat_add)
  next
    case False
    then show ?thesis using assms k by (simp add: backupIndex_base backupSlot_def backupSlots_def)
  qed
qed

lemma unat_backupSlot: "k \<le> 42 \<Longrightarrow> unat (of_nat (backupSlot k) :: u8) = backupSlot k"
  by (simp add: backupSlot_def unat_of_nat)

lemma backupSlot_inj: "backupSlot k = backupSlot k' \<Longrightarrow> k = k'"
  by (simp add: backupSlot_def split: if_splits)

lemma ucast_u16_u32_id [simp]: "(ucast (ucast (v :: u16) :: u32) :: u16) = v"
  by (simp add: ucast_up_ucast_id is_up)

lemma backupIndex_cases:
  assumes "backupIndex extended idx = Some i"
  obtains (same) "1 \<le> uint idx" "uint idx \<le> 10" "i = idx"
    | (shifted) extended "11 \<le> uint idx \<and> uint idx \<le> 42 \<or> 252 \<le> uint idx" "i = idx + 5"
  using assms
  by (cases extended) (auto simp: backupIndex_extended backupIndex_base split: if_splits)

lemma backupIndex_data_register:
  assumes "backupIndex extended idx = Some i"
  shows "unat i \<in> {1..10} \<union> {16..47}"
proof -
  have "1 \<le> uint i \<and> uint i \<le> 10 \<or> 16 \<le> uint i \<and> uint i \<le> 47"
    using assms
  proof (cases rule: backupIndex_cases)
    case shifted
    have lt: "uint idx < 256" using uint_lt2p [of idx] by simp
    have "uint i = (if uint idx \<le> 250 then uint idx + 5 else uint idx - 251)"
      unfolding shifted(3) by (rule uint_u8_plus_5)
    with shifted(2) lt show ?thesis by (simp split: if_splits)
  qed simp
  then have "1 \<le> unat i \<and> unat i \<le> 10 \<or> 16 \<le> unat i \<and> unat i \<le> 47"
    using uint_nat [of i] by linarith
  then show ?thesis by auto
qed

text \<open>
  C12. On every documented slot (1..42 on the extended variant, 1..10 on the base one)
  \<^verbatim>\<open>getBackupRegister\<close> reads the slot's value, \<^verbatim>\<open>setBackupRegister\<close> succeeds
  and updates that slot of the abstract store and no other.
\<close>

theorem backup_refines:
  assumes "1 \<le> k" "k \<le> backupSlots extended"
  shows "getBackupRegister extended (of_nat k) s = backupAbs extended s k \<and>
         fst (setBackupRegister extended (of_nat k) v s) \<and>
         backupAbs extended (snd (setBackupRegister extended (of_nat k) v s)) = (backupAbs extended s)(k := v)"
proof -
  have k42: "k \<le> 42" using assms(2) by (simp add: backupSlots_def split: if_splits)
  note idx = backupIndex_slot [OF assms] unat_backupSlot [OF k42]
  have "backupAbs extended (snd (setBackupRegister extended (of_nat k) v s)) k' = ((backupAbs extended s)(k := v)) k'"
    for k'
    using assms backupSlot_inj [of k' k]
    by (auto simp: backupAbs_def setBackupRegister_def idx port_defs writeBkp_def)
  then show ?thesis
    using assms by (auto simp: getBackupRegister_def setBackupRegister_def backupAbs_def idx)
qed

theorem backup_refines_witness:
  "1 \<le> (42::nat) \<and> 42 \<le> backupSlots True \<and>
   getBackupRegister True (of_nat 42) port0 = backupAbs True port0 42 \<and>
   fst (setBackupRegister True (of_nat 42) 0xBEEF port0) \<and>
   backupAbs True (snd (setBackupRegister True (of_nat 42) 0xBEEF port0)) = (backupAbs True port0)(42 := 0xBEEF)"
  using backup_refines [of 42 True port0 "0xBEEF"] by (simp add: backupSlots_def)

lemma backupIndex_None:
  "(backupIndex extended idx = None) =
   (idx = 0 \<or> (if extended then 43 \<le> uint idx \<and> uint idx \<le> 251 else 11 \<le> uint idx))"
proof -
  have "(1 \<le> uint idx) = (idx \<noteq> 0)"
    using uint_0_iff [of idx] uint_ge_0 [of idx] by linarith
  moreover have "uint idx < 256" using uint_lt2p [of idx] by simp
  ultimately show ?thesis
    by (auto simp: backupIndex_extended backupIndex_base)
qed

text \<open>
  C13. An index outside the variant's range (0, 43..251 on the extended variant; 0 and
  11..255 on the base one) makes \<^verbatim>\<open>setBackupRegister\<close> return false without touching
  the port, and \<^verbatim>\<open>getBackupRegister\<close> return 0 (spec, section 8: indices 0 and 11 on
  the base variant).
\<close>

theorem setBackupRegister_out_of_range:
  "(\<not> fst (setBackupRegister extended idx v s)) =
     (idx = 0 \<or> (if extended then 43 \<le> uint idx \<and> uint idx \<le> 251 else 11 \<le> uint idx)) \<and>
   (\<not> fst (setBackupRegister extended idx v s) \<longrightarrow>
      snd (setBackupRegister extended idx v s) = s \<and> getBackupRegister extended idx s = 0)"
  by (auto simp: setBackupRegister_def getBackupRegister_def backupIndex_None [symmetric]
      split: option.splits)

theorem setBackupRegister_out_of_range_witness:
  "(\<not> fst (setBackupRegister False 11 7 port0)) = (11 = (0::u8) \<or> 11 \<le> uint (11::u8)) \<and>
   \<not> fst (setBackupRegister False 11 7 port0) \<and>
   snd (setBackupRegister False 11 7 port0) = port0 \<and> getBackupRegister False 11 port0 = 0"
proof -
  have h: "\<not> fst (setBackupRegister False 11 7 port0)"
    by (simp add: setBackupRegister_def backupIndex_base)
  show ?thesis using h setBackupRegister_out_of_range [of False 11 7 port0] by simp
qed

lemma setBackupRegister_Some:
  "backupIndex extended idx = Some i \<Longrightarrow>
   setBackupRegister extended idx v s =
     (True, s\<lparr>dbp := False, bkp := (bkp s)(unat i := ucast v),
              log := log s @ [EvDBP True, EvBkp (unat i) (ucast v), EvDBP False]\<rparr>)"
  by (simp add: setBackupRegister_def port_defs writeBkp_def)

text \<open>
  C14. \<^verbatim>\<open>setBackupRegister\<close> stores only into a data register (words 1..10 and
  16..47 of the backup block, never the control registers at 11..15), leaves the RTC
  registers, handlers, NVIC line and \<^verbatim>\<open>RCC_BDCR\<close> alone, and when it writes it
  brackets the one store with enabling and disabling backup-domain write access.
\<close>

theorem setBackupRegister_data_only:
  assumes "j \<notin> {1..10} \<union> {16..47}"
  shows "bkp (snd (setBackupRegister extended idx v s)) j = bkp s j \<and>
         regs (snd (setBackupRegister extended idx v s)) = regs s \<and>
         isr (snd (setBackupRegister extended idx v s)) = isr s \<and>
         nvic_rtc (snd (setBackupRegister extended idx v s)) = nvic_rtc s \<and>
         bdcr (snd (setBackupRegister extended idx v s)) = bdcr s \<and>
         dbp (snd (setBackupRegister extended idx v s)) = (dbp s \<and> \<not> fst (setBackupRegister extended idx v s)) \<and>
         (fst (setBackupRegister extended idx v s) \<longrightarrow>
            (\<exists>i \<in> {1..10} \<union> {16..47}. log (snd (setBackupRegister extended idx v s)) =
               log s @ [EvDBP True, EvBkp i (ucast v), EvDBP False]))"
proof (cases "backupIndex extended idx")
  case None
  then show ?thesis by (simp add: setBackupRegister_def)
next
  case (Some i)
  with backupIndex_data_register [OF Some] assms show ?thesis
    by (auto simp: setBackupRegister_Some)
qed

theorem setBackupRegister_data_only_witness:
  "(11::nat) \<notin> {1..10} \<union> {16..47} \<and>
   bkp (snd (setBackupRegister True 11 7 port0)) 11 = 0 \<and>
   bkp (snd (setBackupRegister True 11 7 port0)) 16 = 7"
proof -
  have "(11::nat) \<notin> {1..10} \<union> {16..47}" by simp
  from setBackupRegister_data_only [OF this, of True 11 7 port0] show ?thesis
    by (simp add: setBackupRegister_def backupIndex_extended port_defs writeBkp_def port0_def)
qed

lemma u8_plus_5_eq: "(idx :: u8) + 5 = idx - 251"
  by simp

text \<open>
  C15. On the extended variant the index arithmetic \<^verbatim>\<open>idx += 5\<close> on a
  \<^verbatim>\<open>uint8_t\<close> wraps: indices 252..255 pass the range check and address data registers
  1..4, so they alias indices 1..4, and \<^verbatim>\<open>setBackupRegister(252, v)\<close> overwrites the
  slot holding the driver's initialisation flag.
\<close>

theorem backup_index_wraps:
  assumes "252 \<le> uint idx"
  shows "backupIndex True idx = Some (idx - 251) \<and> 1 \<le> uint (idx - 251) \<and> uint (idx - 251) \<le> 4 \<and>
         setBackupRegister True idx v s = setBackupRegister True (idx - 251) v s \<and>
         getBackupRegister True idx s = getBackupRegister True (idx - 251) s"
proof -
  have lt: "uint idx < 256" using uint_lt2p [of idx] by simp
  have u: "uint (idx - 251) = uint idx - 251"
    using assms by (simp add: uint_sub_if' word_le_def)
  have "backupIndex True idx = Some (idx - 251)"
    using assms by (simp add: backupIndex_extended u8_plus_5_eq)
  moreover have "backupIndex True (idx - 251) = Some (idx - 251)"
    using assms lt by (simp add: backupIndex_extended u)
  ultimately show ?thesis
    using assms lt by (simp add: u setBackupRegister_def getBackupRegister_def)
qed

theorem backup_index_wraps_witness:
  "252 \<le> uint (252 :: u8) \<and> setBackupRegister True 252 0 port0 = setBackupRegister True 1 0 port0 \<and>
   getBackupRegister True 252 port0 = getBackupRegister True 1 port0"
  using backup_index_wraps [of 252 0 port0] by simp

end
