(* ===== verification/Clock_Init.thy ===== *)
theory Clock_Init
  imports Backup
begin

text \<open>
  The clock domain initialiser of \<^verbatim>\<open>src/src/stm32f1_rtc.cpp\<close>: \<^verbatim>\<open>begin\<close> and
  \<^verbatim>\<open>init\<close>, with the header's \<^verbatim>\<open>isInitialized\<close> and
  \<^verbatim>\<open>enableClockInterface\<close>. The bit masks of \<^verbatim>\<open>RCC_BDCR\<close> and
  \<^verbatim>\<open>RCC_APB1ENR\<close> come from the vendor headers (reference manual values). A write to
  \<^verbatim>\<open>RCC_BDCR\<close> with \<^verbatim>\<open>BDRST\<close> set resets the backup domain: the backup data
  registers read 0 and \<^verbatim>\<open>RCC_BDCR\<close> holds only \<^verbatim>\<open>BDRST\<close>. The
  \<^verbatim>\<open>LSERDY\<close> busy-wait is a \<open>pollUntil\<close> like the other waits.
\<close>

definition RCC_BDCR_LSEON :: u32 where "RCC_BDCR_LSEON = 1"
definition RCC_BDCR_LSERDY :: u32 where "RCC_BDCR_LSERDY = 2"
definition RCC_BDCR_RTCSEL_LSE :: u32 where "RCC_BDCR_RTCSEL_LSE = 0x100"
definition RCC_BDCR_RTCEN :: u32 where "RCC_BDCR_RTCEN = 0x8000"
definition RCC_BDCR_BDRST :: u32 where "RCC_BDCR_BDRST = 0x10000"
definition RCC_APB1ENR_BKPEN :: u32 where "RCC_APB1ENR_BKPEN = 0x8000000"
definition RCC_APB1ENR_PWREN :: u32 where "RCC_APB1ENR_PWREN = 0x10000000"

text \<open>\<^verbatim>\<open>isInitialized\<close> (header lines 193--195).\<close>

definition isInitialized :: "rtc_state \<Rightarrow> bool" where
  "isInitialized s = (bkp s RTC_INIT_REG AND RTC_INIT_FLAG = RTC_INIT_FLAG)"

text \<open>\<^verbatim>\<open>enableClockInterface\<close> (header lines 221--223).\<close>

definition enableClockInterface :: "rtc_state \<Rightarrow> rtc_state" where
  "enableClockInterface s = s\<lparr>apb1enr := apb1enr s OR (RCC_APB1ENR_PWREN OR RCC_APB1ENR_BKPEN)\<rparr>"

text \<open>A store to \<^verbatim>\<open>RCC_BDCR\<close>, with the backup-domain reset it triggers.\<close>

definition writeBDCR :: "u32 \<Rightarrow> rtc_state \<Rightarrow> rtc_state" where
  "writeBDCR v s =
     (if v AND RCC_BDCR_BDRST \<noteq> 0
      then s\<lparr>bdcr := RCC_BDCR_BDRST, bkp := (\<lambda>_. 0), log := log s @ [EvBDCR v]\<rparr>
      else s\<lparr>bdcr := v, log := log s @ [EvBDCR v]\<rparr>)"

text \<open>\<^verbatim>\<open>while ((RCC_BDCR & RCC_BDCR_LSERDY) == 0);\<close>\<close>

definition waitLSE :: "hw_env \<Rightarrow> rtc_state \<Rightarrow> rtc_state option" where
  "waitLSE hw s = map_option (seen LSERDY) (pollUntil (lserdy_at hw) s)"

text \<open>\<^verbatim>\<open>init\<close> (lines 14--30).\<close>

definition init :: "hw_env \<Rightarrow> rtc_state \<Rightarrow> rtc_state option" where
  "init hw s =
     do {
       let s = enableBackupWrites s;
       let s = writeBDCR (bdcr s OR RCC_BDCR_BDRST) s;
       let s = writeBDCR (bdcr s AND NOT RCC_BDCR_BDRST) s;
       let s = writeBDCR (bdcr s OR RCC_BDCR_LSEON) s;
       s \<leftarrow> waitLSE hw s;
       let s = writeBDCR (bdcr s OR RCC_BDCR_RTCSEL_LSE) s;
       let s = writeBDCR (bdcr s OR RCC_BDCR_RTCEN) s;
       s \<leftarrow> waitSync hw s;
       s \<leftarrow> waitFinished hw s;
       let s = enterConfigMode s;
       let s = writeReg PRLL 0x7FFF s;
       let s = exitConfigMode s;
       s \<leftarrow> waitFinished hw s;
       let s = writeBkp RTC_INIT_REG (bkp s RTC_INIT_REG OR RTC_INIT_FLAG) s;
       Some (disableBackupWrites s)
     }"

text \<open>\<^verbatim>\<open>begin\<close> (lines 4--12): the result and the port after it.\<close>

definition begin_rtc :: "hw_env \<Rightarrow> rtc_state \<Rightarrow> (bool \<times> rtc_state) option" where
  "begin_rtc hw s =
     (let isInit = isInitialized s;
          s = enableClockInterface s
      in map_option (Pair isInit) (if isInit then waitSync hw s else init hw s))"

lemmas bdcr_defs = RCC_BDCR_LSEON_def RCC_BDCR_LSERDY_def RCC_BDCR_RTCSEL_LSE_def RCC_BDCR_RTCEN_def
  RCC_BDCR_BDRST_def

lemma wait_Some:
  "waitLSE hw s = Some s' \<Longrightarrow> \<exists>n\<ge>poll s. lserdy_at hw n \<and> s' = seen LSERDY (s\<lparr>poll := Suc n\<rparr>)"
  "waitSync hw s = Some s' \<Longrightarrow> \<exists>n\<ge>poll s. rsf_at hw n \<and>
     s' = seen RSF ((writeReg CRL (regs s CRL AND NOT RTC_CRL_RSF) s)\<lparr>poll := Suc n\<rparr>)"
  "waitFinished hw s = Some s' \<Longrightarrow> \<exists>n\<ge>poll s. rtoff_at hw n \<and> s' = seen RTOFF (s\<lparr>poll := Suc n\<rparr>)"
  by (auto simp: waitLSE_def waitSync_def waitFinished_def port_defs dest!: pollUntil_Some)

lemma writeBDCR_frame [simp]:
  "regs (writeBDCR v s) = regs s" "isr (writeBDCR v s) = isr s" "nvic_rtc (writeBDCR v s) = nvic_rtc s"
  "dbp (writeBDCR v s) = dbp s" "poll (writeBDCR v s) = poll s"
  by (simp_all add: writeBDCR_def)

lemma writeBDCR_reset:
  "writeBDCR (v OR RCC_BDCR_BDRST) s =
   s\<lparr>bdcr := RCC_BDCR_BDRST, bkp := (\<lambda>_. 0), log := log s @ [EvBDCR (v OR RCC_BDCR_BDRST)]\<rparr>"
proof -
  have "(v OR RCC_BDCR_BDRST) AND RCC_BDCR_BDRST = RCC_BDCR_BDRST"
    by (rule bit_word_eqI) (auto simp: bit_simps)
  then show ?thesis by (simp add: writeBDCR_def RCC_BDCR_BDRST_def)
qed

lemma init_prefix:
  "writeBDCR (bdcr (writeBDCR (bdcr (writeBDCR (bdcr (enableBackupWrites s) OR RCC_BDCR_BDRST) (enableBackupWrites s))
      AND NOT RCC_BDCR_BDRST) (writeBDCR (bdcr (enableBackupWrites s) OR RCC_BDCR_BDRST) (enableBackupWrites s)))
      OR RCC_BDCR_LSEON)
    (writeBDCR (bdcr (writeBDCR (bdcr (enableBackupWrites s) OR RCC_BDCR_BDRST) (enableBackupWrites s))
      AND NOT RCC_BDCR_BDRST) (writeBDCR (bdcr (enableBackupWrites s) OR RCC_BDCR_BDRST) (enableBackupWrites s))) =
   s\<lparr>dbp := True, bdcr := 1, bkp := (\<lambda>_. 0),
     log := log s @ [EvDBP True, EvBDCR (bdcr s OR RCC_BDCR_BDRST), EvBDCR 0, EvBDCR 1]\<rparr>"
  by (simp add: writeBDCR_reset) (simp add: writeBDCR_def bdcr_defs port_defs)

lemma init_Some:
  assumes "init hw s = Some s'"
  obtains a b c d where
    "waitLSE hw (s\<lparr>dbp := True, bdcr := 1, bkp := (\<lambda>_. 0),
        log := log s @ [EvDBP True, EvBDCR (bdcr s OR RCC_BDCR_BDRST), EvBDCR 0, EvBDCR 1]\<rparr>) = Some a"
    "waitSync hw (writeBDCR (bdcr (writeBDCR (bdcr a OR RCC_BDCR_RTCSEL_LSE) a) OR RCC_BDCR_RTCEN)
          (writeBDCR (bdcr a OR RCC_BDCR_RTCSEL_LSE) a)) = Some b"
    "waitFinished hw b = Some c"
    "waitFinished hw (exitConfigMode (writeReg PRLL 0x7FFF (enterConfigMode c))) = Some d"
    "s' = disableBackupWrites (writeBkp RTC_INIT_REG (bkp d RTC_INIT_REG OR RTC_INIT_FLAG) d)"
  using assms unfolding init_def Let_def init_prefix
  by (auto simp: bind_eq_Some_conv)

lemma init_final:
  assumes "init hw s = Some s'"
  shows "\<exists>p. s' = s\<lparr>bdcr := 0x8101,
     regs := (regs s)(CRL := (regs s CRL AND NOT RTC_CRL_RSF OR RTC_CRL_CNF) AND NOT RTC_CRL_CNF, PRLL := 0x7FFF),
     poll := p, bkp := (\<lambda>_. 0)(RTC_INIT_REG := 1), dbp := False,
     log := log s @ [EvDBP True, EvBDCR (bdcr s OR RCC_BDCR_BDRST), EvBDCR 0, EvBDCR RCC_BDCR_LSEON,
           EvSeen LSERDY, EvBDCR 0x101, EvBDCR 0x8101,
           EvWrite CRL (regs s CRL AND NOT RTC_CRL_RSF), EvSeen RSF, EvSeen RTOFF,
           EvWrite CRL (regs s CRL AND NOT RTC_CRL_RSF OR RTC_CRL_CNF), EvWrite PRLL 0x7FFF,
           EvWrite CRL ((regs s CRL AND NOT RTC_CRL_RSF OR RTC_CRL_CNF) AND NOT RTC_CRL_CNF), EvSeen RTOFF,
           EvBkp RTC_INIT_REG 1, EvDBP False]\<rparr>"
  using assms
proof (rule init_Some)
  fix a b c d
  assume wa: "waitLSE hw (s\<lparr>dbp := True, bdcr := 1, bkp := (\<lambda>_. 0),
        log := log s @ [EvDBP True, EvBDCR (bdcr s OR RCC_BDCR_BDRST), EvBDCR 0, EvBDCR 1]\<rparr>) = Some a"
    and wb: "waitSync hw (writeBDCR (bdcr (writeBDCR (bdcr a OR RCC_BDCR_RTCSEL_LSE) a) OR RCC_BDCR_RTCEN)
          (writeBDCR (bdcr a OR RCC_BDCR_RTCSEL_LSE) a)) = Some b"
    and wc: "waitFinished hw b = Some c"
    and wd: "waitFinished hw (exitConfigMode (writeReg PRLL 0x7FFF (enterConfigMode c))) = Some d"
    and s': "s' = disableBackupWrites (writeBkp RTC_INIT_REG (bkp d RTC_INIT_REG OR RTC_INIT_FLAG) d)"
  from wait_Some(1) [OF wa] obtain n1 where
    a: "a = seen LSERDY (s\<lparr>dbp := True, bdcr := 1, bkp := (\<lambda>_. 0),
        log := log s @ [EvDBP True, EvBDCR (bdcr s OR RCC_BDCR_BDRST), EvBDCR 0, EvBDCR 1], poll := Suc n1\<rparr>)"
    by auto
  from wait_Some(2) [OF wb] obtain n2 where
    b: "b = seen RSF ((writeReg CRL (regs a CRL AND NOT RTC_CRL_RSF)
          (writeBDCR (bdcr (writeBDCR (bdcr a OR RCC_BDCR_RTCSEL_LSE) a) OR RCC_BDCR_RTCEN)
          (writeBDCR (bdcr a OR RCC_BDCR_RTCSEL_LSE) a)))\<lparr>poll := Suc n2\<rparr>)"
    by auto
  from wait_Some(3) [OF wc] obtain n3 where c: "c = seen RTOFF (b\<lparr>poll := Suc n3\<rparr>)" by auto
  from wait_Some(3) [OF wd] obtain n4 where
    d: "d = seen RTOFF ((exitConfigMode (writeReg PRLL 0x7FFF (enterConfigMode c)))\<lparr>poll := Suc n4\<rparr>)" by auto
  show ?thesis
    unfolding s' d c b a
    by (intro exI [of _ "Suc n4"]) (simp add: writeBDCR_def port_defs writeBkp_def bdcr_defs RTC_INIT_FLAG_def fun_upd_twist)
qed

text \<open>
  C24. When \<^verbatim>\<open>init\<close> returns, it has made exactly the spec's bring-up sequence:
  backup writes on, backup-domain reset asserted and released, LSE on, LSE ready seen, LSE
  selected, RTC enabled, RSF cleared and seen, RTOFF seen, prescaler reload 0x7FFF written
  inside configuration mode, RTOFF seen, the initialisation flag set, backup writes off.
  The flag is set last, after the clock is configured; all other backup registers read 0.
\<close>

theorem init_effect:
  assumes "init hw s = Some s'"
  shows "log s' = log s @ [EvDBP True, EvBDCR (bdcr s OR RCC_BDCR_BDRST), EvBDCR 0, EvBDCR RCC_BDCR_LSEON,
           EvSeen LSERDY, EvBDCR 0x101, EvBDCR 0x8101,
           EvWrite CRL (regs s CRL AND NOT RTC_CRL_RSF), EvSeen RSF, EvSeen RTOFF,
           EvWrite CRL (regs s CRL AND NOT RTC_CRL_RSF OR RTC_CRL_CNF), EvWrite PRLL 0x7FFF,
           EvWrite CRL ((regs s CRL AND NOT RTC_CRL_RSF OR RTC_CRL_CNF) AND NOT RTC_CRL_CNF), EvSeen RTOFF,
           EvBkp RTC_INIT_REG 1, EvDBP False] \<and>
         bdcr s' = 0x8101 \<and> regs s' PRLL = 0x7FFF \<and> bkp s' = (\<lambda>_. 0)(RTC_INIT_REG := 1) \<and>
         \<not> dbp s' \<and> isInitialized s' \<and> isr s' = isr s \<and> nvic_rtc s' = nvic_rtc s"
  using init_final [OF assms] by (auto simp: isInitialized_def RTC_INIT_FLAG_def bdcr_defs)

lemma wait_poll:
  "waitLSE hw s = Some s' \<Longrightarrow> poll s \<le> n \<Longrightarrow> lserdy_at hw n \<Longrightarrow> poll s' \<le> Suc n"
  "waitSync hw s = Some s' \<Longrightarrow> poll s \<le> n \<Longrightarrow> rsf_at hw n \<Longrightarrow> poll s' \<le> Suc n"
  "waitFinished hw s = Some s' \<Longrightarrow> poll s \<le> n \<Longrightarrow> rtoff_at hw n \<Longrightarrow> poll s' \<le> Suc n"
  by (auto simp: waitLSE_def waitSync_def waitFinished_def port_defs dest!: pollUntil_Some
      intro: leI)

lemma wait_exists:
  "poll s \<le> n \<Longrightarrow> lserdy_at hw n \<Longrightarrow> \<exists>s'. waitLSE hw s = Some s'"
  "poll s \<le> n \<Longrightarrow> rsf_at hw n \<Longrightarrow> \<exists>s'. waitSync hw s = Some s'"
  "poll s \<le> n \<Longrightarrow> rtoff_at hw n \<Longrightarrow> \<exists>s'. waitFinished hw s = Some s'"
  using pollUntil_terminates [of "lserdy_at hw" s] pollUntil_terminates [of "rtoff_at hw" s]
    pollUntil_terminates [of "rsf_at hw" "writeReg CRL (regs s CRL AND NOT RTC_CRL_RSF) s"]
  by (auto simp: waitLSE_def waitSync_def waitFinished_def port_defs)

lemma init_terminates:
  "(\<exists>s'. init hw s = Some s') \<longleftrightarrow>
   (\<exists>n1 n2 n3 n4. poll s \<le> n1 \<and> n1 < n2 \<and> n2 < n3 \<and> n3 < n4 \<and>
      lserdy_at hw n1 \<and> rsf_at hw n2 \<and> rtoff_at hw n3 \<and> rtoff_at hw n4)"
proof
  assume "\<exists>s'. init hw s = Some s'"
  then obtain s' where "init hw s = Some s'" by blast
  then show "\<exists>n1 n2 n3 n4. poll s \<le> n1 \<and> n1 < n2 \<and> n2 < n3 \<and> n3 < n4 \<and>
      lserdy_at hw n1 \<and> rsf_at hw n2 \<and> rtoff_at hw n3 \<and> rtoff_at hw n4"
  proof (rule init_Some)
    fix a b c d
    assume wa: "waitLSE hw (s\<lparr>dbp := True, bdcr := 1, bkp := (\<lambda>_. 0),
        log := log s @ [EvDBP True, EvBDCR (bdcr s OR RCC_BDCR_BDRST), EvBDCR 0, EvBDCR 1]\<rparr>) = Some a"
      and wb: "waitSync hw (writeBDCR (bdcr (writeBDCR (bdcr a OR RCC_BDCR_RTCSEL_LSE) a) OR RCC_BDCR_RTCEN)
          (writeBDCR (bdcr a OR RCC_BDCR_RTCSEL_LSE) a)) = Some b"
      and wc: "waitFinished hw b = Some c"
      and wd: "waitFinished hw (exitConfigMode (writeReg PRLL 0x7FFF (enterConfigMode c))) = Some d"
    from wait_Some(1) [OF wa] obtain n1 where "poll s \<le> n1" "lserdy_at hw n1" "poll a = Suc n1"
      by (auto simp: seen_def)
    moreover from wait_Some(2) [OF wb] this(3) obtain n2 where "Suc n1 \<le> n2" "rsf_at hw n2" "poll b = Suc n2"
      by (auto simp: seen_def port_defs)
    moreover from wait_Some(3) [OF wc] this(3) obtain n3 where "Suc n2 \<le> n3" "rtoff_at hw n3" "poll c = Suc n3"
      by (auto simp: seen_def)
    moreover from wait_Some(3) [OF wd] this(3) obtain n4 where "Suc n3 \<le> n4" "rtoff_at hw n4"
      by (auto simp: seen_def port_defs)
    ultimately show ?thesis by (metis Suc_le_lessD)
  qed
next
  assume "\<exists>n1 n2 n3 n4. poll s \<le> n1 \<and> n1 < n2 \<and> n2 < n3 \<and> n3 < n4 \<and>
      lserdy_at hw n1 \<and> rsf_at hw n2 \<and> rtoff_at hw n3 \<and> rtoff_at hw n4"
  then obtain n1 n2 n3 n4 where n: "poll s \<le> n1" "n1 < n2" "n2 < n3" "n3 < n4"
    "lserdy_at hw n1" "rsf_at hw n2" "rtoff_at hw n3" "rtoff_at hw n4" by blast
  let ?p = "s\<lparr>dbp := True, bdcr := 1, bkp := (\<lambda>_. 0),
        log := log s @ [EvDBP True, EvBDCR (bdcr s OR RCC_BDCR_BDRST), EvBDCR 0, EvBDCR 1]\<rparr>"
  obtain a where wa: "waitLSE hw ?p = Some a" using wait_exists(1) [of ?p n1 hw] n by auto
  have pa: "poll a \<le> Suc n1" using wait_poll(1) [OF wa] n by simp
  let ?a = "writeBDCR (bdcr (writeBDCR (bdcr a OR RCC_BDCR_RTCSEL_LSE) a) OR RCC_BDCR_RTCEN)
          (writeBDCR (bdcr a OR RCC_BDCR_RTCSEL_LSE) a)"
  obtain b where wb: "waitSync hw ?a = Some b" using wait_exists(2) [of ?a n2 hw] n pa by auto
  have pb: "poll b \<le> Suc n2" using wait_poll(2) [OF wb] n pa by simp
  obtain c where wc: "waitFinished hw b = Some c" using wait_exists(3) [of b n3 hw] n pb by auto
  have pc: "poll c \<le> Suc n3" using wait_poll(3) [OF wc] n pb by simp
  let ?c = "exitConfigMode (writeReg PRLL 0x7FFF (enterConfigMode c))"
  obtain d where wd: "waitFinished hw ?c = Some d"
    using wait_exists(3) [of ?c n4 hw] n pc by (auto simp: port_defs)
  show "\<exists>s'. init hw s = Some s'"
    using wa wb wc wd by (simp add: init_def Let_def init_prefix)
qed

theorem init_effect_witness:
  "init hw_ready port0 = Some (the (init hw_ready port0)) \<and> isInitialized (the (init hw_ready port0)) \<and>
   regs (the (init hw_ready port0)) PRLL = 0x7FFF"
proof -
  have "\<exists>s'. init hw_ready port0 = Some s'"
    by (rule init_terminates [THEN iffD2], rule exI [of _ 0], rule exI [of _ 1], rule exI [of _ 2],
        rule exI [of _ 3]) (simp add: hw_ready_def port0_def)
  then have h: "init hw_ready port0 = Some (the (init hw_ready port0))" by auto
  show ?thesis using h init_effect [OF h] by blast
qed

lemma enableClockInterface_frame [simp]:
  "poll (enableClockInterface s) = poll s" "bkp (enableClockInterface s) = bkp s"
  "regs (enableClockInterface s) = regs s" "bdcr (enableClockInterface s) = bdcr s"
  "log (enableClockInterface s) = log s" "isInitialized (enableClockInterface s) = isInitialized s"
  by (simp_all add: enableClockInterface_def isInitialized_def)

text \<open>A cold start is \<^verbatim>\<open>init\<close> after the clock interfaces are enabled; a reset port
  starts cold and completes under \<open>hw_ready\<close>.\<close>

lemma begin_rtc_cold:
  assumes "begin_rtc hw s = Some (b, s')" "\<not> isInitialized s"
  shows "\<not> b \<and> init hw (enableClockInterface s) = Some s'"
  using assms by (auto simp: begin_rtc_def Let_def)

lemma begin_rtc_port0: "\<exists>s1. begin_rtc hw_ready port0 = Some (False, s1)"
proof -
  have "\<exists>s'. init hw_ready (enableClockInterface port0) = Some s'"
    by (rule init_terminates [THEN iffD2], rule exI [of _ 0], rule exI [of _ 1], rule exI [of _ 2],
        rule exI [of _ 3]) (simp add: hw_ready_def port0_def)
  moreover have "\<not> isInitialized port0" by (simp add: isInitialized_def port0_def RTC_INIT_FLAG_def)
  ultimately show ?thesis by (auto simp: begin_rtc_def Let_def)
qed

text \<open>
  C25. When \<^verbatim>\<open>begin\<close> returns, its result is whether the device was already
  initialised, the device is initialised afterwards, and the clock interfaces are enabled.
  On an initialised device it only re-synchronises: backup registers, \<^verbatim>\<open>RCC_BDCR\<close>
  and the prescaler are untouched and the only accesses are clearing \<^verbatim>\<open>RSF\<close> and
  seeing it set again.
\<close>

theorem begin_rtc_effect:
  assumes "begin_rtc hw s = Some (b, s')"
  shows "b = isInitialized s \<and> isInitialized s' \<and>
         apb1enr s' = apb1enr s OR (RCC_APB1ENR_PWREN OR RCC_APB1ENR_BKPEN) \<and>
         (isInitialized s \<longrightarrow> bkp s' = bkp s \<and> bdcr s' = bdcr s \<and> regs s' PRLL = regs s PRLL \<and>
            log s' = log s @ [EvWrite CRL (regs s CRL AND NOT RTC_CRL_RSF), EvSeen RSF])"
proof (cases "isInitialized s")
  case True
  with assms have "waitSync hw (enableClockInterface s) = Some s'" and b: "b = isInitialized s"
    by (auto simp: begin_rtc_def Let_def)
  from wait_Some(2) [OF this(1)] True b show ?thesis
    by (auto simp: port_defs isInitialized_def enableClockInterface_def)
next
  case False
  with assms have "init hw (enableClockInterface s) = Some s'" and b: "b = isInitialized s"
    by (auto simp: begin_rtc_def Let_def)
  from init_final [OF this(1)] False b show ?thesis
    by (auto simp: isInitialized_def RTC_INIT_FLAG_def enableClockInterface_def)
qed

theorem begin_rtc_effect_witness:
  "begin_rtc hw_ready port0 = Some (the (begin_rtc hw_ready port0)) \<and>
   \<not> fst (the (begin_rtc hw_ready port0)) \<and> isInitialized (snd (the (begin_rtc hw_ready port0)))"
proof -
  obtain s1 where h: "begin_rtc hw_ready port0 = Some (False, s1)" using begin_rtc_port0 by blast
  show ?thesis using h begin_rtc_effect [OF h] by simp
qed

text \<open>
  C26. \<^verbatim>\<open>begin\<close> returns exactly when the hardware raises the flags it waits for: on
  an initialised device \<^verbatim>\<open>RSF\<close> at some poll; otherwise \<^verbatim>\<open>LSERDY\<close>, then
  \<^verbatim>\<open>RSF\<close>, then \<^verbatim>\<open>RTOFF\<close> twice, at increasing polls. Without a working LSE it hangs.
\<close>

theorem begin_rtc_terminates:
  "(\<exists>r. begin_rtc hw s = Some r) \<longleftrightarrow>
   (if isInitialized s then \<exists>n\<ge>poll s. rsf_at hw n
    else \<exists>n1 n2 n3 n4. poll s \<le> n1 \<and> n1 < n2 \<and> n2 < n3 \<and> n3 < n4 \<and>
           lserdy_at hw n1 \<and> rsf_at hw n2 \<and> rtoff_at hw n3 \<and> rtoff_at hw n4)"
proof (cases "isInitialized s")
  case True
  have "(\<exists>s'. waitSync hw (enableClockInterface s) = Some s') = (\<exists>n\<ge>poll s. rsf_at hw n)"
    using pollUntil_terminates [of "rsf_at hw" "writeReg CRL (regs s CRL AND NOT RTC_CRL_RSF) (enableClockInterface s)"]
    by (simp add: waitSync_def port_defs)
  with True show ?thesis by (auto simp: begin_rtc_def Let_def)
next
  case False
  with init_terminates [of hw "enableClockInterface s"] show ?thesis by (auto simp: begin_rtc_def Let_def)
qed

text \<open>
  C27. The public \<^verbatim>\<open>setBackupRegister\<close> accepts index 1 (and, on the extended
  variant, 252), the slot holding the initialisation flag: writing a value with bit 0 clear
  clears the flag, so the next \<^verbatim>\<open>begin\<close> resets the backup domain. The spec says the
  flag must never be cleared by the driver.
\<close>

theorem setBackupRegister_clears_init_flag:
  "isInitialized (snd (setBackupRegister extended 1 v s)) = bit v 0 \<and>
   isInitialized (snd (setBackupRegister True 252 v s)) = bit v 0"
  by (cases extended)
     (simp_all add: setBackupRegister_def backupIndex_extended backupIndex_base writeBkp_def port_defs
      isInitialized_def RTC_INIT_REG_def RTC_INIT_FLAG_def bit_simps)

lemma begin_rtc_returns_init:
  "begin_rtc hw s = Some (b, s') \<Longrightarrow> b = isInitialized s"
  by (auto simp: begin_rtc_def Let_def)

text \<open>
  C35. A \<^verbatim>\<open>begin\<close> that reports an uninitialised device has erased the user's
  backup data: afterwards every slot that \<^verbatim>\<open>getBackupRegister\<close> reads is 0, except
  slot 1, which holds the initialisation flag and reads 1. This holds for both register
  maps.
\<close>

theorem begin_rtc_cold_erases_backup:
  assumes "begin_rtc hw s = Some (False, s')"
  shows "backupAbs extended s' = (\<lambda>k. if k = 1 then 1 else 0) \<and> getBackupRegister extended 1 s' = 1"
proof -
  have "\<not> isInitialized s" using begin_rtc_returns_init [OF assms] by simp
  with begin_rtc_cold [OF assms] have "init hw (enableClockInterface s) = Some s'" by simp
  from init_final [OF this] have bk: "bkp s' = (\<lambda>_. 0)(RTC_INIT_REG := 1)" by auto
  have "backupAbs extended s' k = (if k = 1 then 1 else 0)" for k
    by (auto simp: backupAbs_def backupSlot_def backupSlots_def bk RTC_INIT_REG_def)
  moreover have "getBackupRegister extended 1 s' = 1"
    by (cases extended) (simp_all add: getBackupRegister_def backupIndex_def bk RTC_INIT_REG_def)
  ultimately show ?thesis by auto
qed

theorem begin_rtc_cold_erases_backup_witness:
  "\<exists>s'. begin_rtc hw_ready port0 = Some (False, s') \<and>
     backupAbs True s' = (\<lambda>k. if k = 1 then 1 else 0) \<and> getBackupRegister True 1 s' = 1"
proof -
  obtain s1 where h: "begin_rtc hw_ready port0 = Some (False, s1)" using begin_rtc_port0 by blast
  show ?thesis using h begin_rtc_cold_erases_backup [OF h, of True] by blast
qed

end
