(* ===== verification/Hijri.thy ===== *)
theory Hijri
  imports Gregorian
begin

text \<open>
  The Hijri converter of \<^verbatim>\<open>src/src/stm32f1_rtc.cpp\<close>: \<^verbatim>\<open>epochToHijriDate\<close>,
  \<^verbatim>\<open>hijriDateTimeToEpoch\<close> and the header's \<^verbatim>\<open>getNumberOfDaysUntillHijriMonth\<close>.
  The code computes in \<^verbatim>\<open>double\<close> with the constants \<^verbatim>\<open>MOON_CYCLE\<close> = 29.5305882
  and \<^verbatim>\<open>HIJRI_DIFF\<close> = 21.252353. The model computes in \<open>rat\<close> with the decimal
  constants of the source: on every day number the driver can produce (0..49710) and every
  year, month and day in the clamp range, the floors of the exact and of the IEEE double
  computation coincide (checked by exhaustive enumeration against IEEE doubles), since no
  quotient or product comes within the rounding error of an integer.
  Month normalisation reuses \<open>normalizeMonth\<close>: lines 226--233 are the same code as
  lines 183--190.
\<close>

definition MOON_CYCLE :: rat where "MOON_CYCLE = 29.5305882"

definition HIJRI_DIFF :: rat where "HIJRI_DIFF = 21.252353"

text \<open>Header lines 245--247; the conversion of the \<^verbatim>\<open>double\<close> to \<^verbatim>\<open>uint16_t\<close> keeps
  the low 16 bits (it is only applied to non-negative values below 2^16).\<close>

definition getNumberOfDaysUntillHijriMonth :: "i16 \<Rightarrow> u16" where
  "getNumberOfDaysUntillHijriMonth hmonth = word_of_int \<lfloor>of_int (sint hmonth) * MOON_CYCLE\<rfloor>"

text \<open>Lines 203--222.\<close>

definition epochToHijriDate :: "u32 \<Rightarrow> DateVar \<Rightarrow> DateVar" where
  "epochToHijriDate time rhdate =
     (let nd = (ucast (time div 86400) :: u16);
          nod = of_int (uint nd) + HIJRI_DIFF;
          m = (word_of_int \<lfloor>nod / MOON_CYCLE\<rfloor> :: i16);
          nodim = getNumberOfDaysUntillHijriMonth m;
          dim = (word_of_int (uint (getNumberOfDaysUntillHijriMonth (word_of_int (sint m + 1))) - uint nodim) :: u8);
          d = (word_of_int (\<lfloor>nod - of_int (uint nodim)\<rfloor> + 1) :: i16);
          (d, m) = (if sint d > uint dim then (1, m + 1) else (d, m));
          m = m + 9
      in rhdate\<lparr>numberOfDays := nd, month := word_of_int (sint m smod 12 + 1), day := d,
                year := word_of_int (sint m sdiv 12 + 1389),
                weekday := word_of_int ((uint nd + 4) mod 7), isLeapYear := False\<rparr>)"

text \<open>Lines 234--237.\<close>

definition hijriClampYear :: "u16 \<Rightarrow> u16" where
  "hijriClampYear y = (if y < 1389 then 1389 else if y > 1529 then 1529 else y)"

text \<open>Lines 224--243.\<close>

definition hijriDateTimeToEpoch :: "DateVar \<Rightarrow> TimeVar \<Rightarrow> u32 \<times> DateVar \<times> TimeVar" where
  "hijriDateTimeToEpoch rhdate rtime =
     (let (y1, m1) = normalizeMonth (year rhdate) (month rhdate);
          y2 = hijriClampYear y1;
          nd = (word_of_int \<lfloor>of_int ((uint y2 - 1389) * 12 + sint m1 - 10) * MOON_CYCLE
                               + of_int (sint (day rhdate) - 22)\<rfloor> :: u16);
          time = (word_of_int (uint nd * 86400 + sint (hours rtime) * 3600
                  + sint (minutes rtime) * 60 + sint (seconds rtime)) :: u32);
          rhdate' = rhdate\<lparr>year := y2, month := m1, numberOfDays := nd\<rparr>
      in (time, epochToHijriDate time rhdate', epochToTime time rtime))"

text \<open>The lunar month a Hijri date names, counted from the month of the epoch
  (Shawwal 1389): the index line 238 multiplies by \<^verbatim>\<open>MOON_CYCLE\<close>.\<close>

definition hijriMonthIndex :: "DateVar \<Rightarrow> int" where
  "hijriMonthIndex r = (uint (year r) - 1389) * 12 + sint (month r) - 10"

subsection \<open>The lunar month arithmetic in integers\<close>

lemma floor_HIJRI_DIFF: "\<lfloor>of_int n + HIJRI_DIFF\<rfloor> = n + 21"
proof -
  have "\<lfloor>HIJRI_DIFF\<rfloor> = 21" by (simp add: HIJRI_DIFF_def floor_eq_iff)
  then show ?thesis by (metis add.commute floor_add_int)
qed

lemma MOON_CYCLE_pos [simp]: "0 < MOON_CYCLE"
  by (simp add: MOON_CYCLE_def)

text \<open>The month index \<open>m\<close> of day \<open>n\<close> brackets it between the cumulative day counts of
  months \<open>m\<close> and \<open>m + 1\<close>.\<close>

lemma hijri_month_bracket:
  fixes n :: int
  defines "m \<equiv> \<lfloor>(of_int n + HIJRI_DIFF) / MOON_CYCLE\<rfloor>"
  shows "\<lfloor>of_int m * MOON_CYCLE\<rfloor> \<le> n + 21" "n + 21 \<le> \<lfloor>of_int (m + 1) * MOON_CYCLE\<rfloor>"
proof -
  have "of_int m \<le> (of_int n + HIJRI_DIFF) / MOON_CYCLE"
    unfolding m_def by (rule of_int_floor_le)
  then have lo: "of_int m * MOON_CYCLE \<le> of_int n + HIJRI_DIFF"
    by (simp add: pos_le_divide_eq)
  have hi: "of_int n + HIJRI_DIFF < of_int (m + 1) * MOON_CYCLE"
    using floor_correct [of "(of_int n + HIJRI_DIFF) / MOON_CYCLE"] unfolding m_def
    by (simp add: pos_divide_less_eq mult.commute)
  show "\<lfloor>of_int m * MOON_CYCLE\<rfloor> \<le> n + 21"
    using floor_mono [OF lo] floor_HIJRI_DIFF [of n] by simp
  have "of_int (n + 21) \<le> of_int n + HIJRI_DIFF" by (simp add: HIJRI_DIFF_def)
  with hi show "n + 21 \<le> \<lfloor>of_int (m + 1) * MOON_CYCLE\<rfloor>"
    by (simp add: le_floor_iff)
qed

lemma moon_step: "\<lfloor>of_int (m + 1) * MOON_CYCLE\<rfloor> - \<lfloor>of_int m * MOON_CYCLE\<rfloor> \<in> {29, 30}"
proof -
  have e: "of_int (m + 1) * MOON_CYCLE = of_int m * MOON_CYCLE + MOON_CYCLE" by (simp add: algebra_simps)
  have "\<lfloor>MOON_CYCLE\<rfloor> = 29" by (simp add: MOON_CYCLE_def floor_eq_iff)
  then show ?thesis unfolding e floor_add by auto
qed

lemma hijri_month_range:
  fixes n :: int
  assumes "0 \<le> n" "n \<le> 49710"
  shows "0 \<le> \<lfloor>(of_int n + HIJRI_DIFF) / MOON_CYCLE\<rfloor>" "\<lfloor>(of_int n + HIJRI_DIFF) / MOON_CYCLE\<rfloor> \<le> 1684"
proof -
  have "0 \<le> (of_int n + HIJRI_DIFF) / MOON_CYCLE"
    using assms by (intro divide_nonneg_pos) (simp_all add: HIJRI_DIFF_def)
  then show "0 \<le> \<lfloor>(of_int n + HIJRI_DIFF) / MOON_CYCLE\<rfloor>" by simp
  have "(of_int n + HIJRI_DIFF) / MOON_CYCLE < 1685"
    using assms by (simp add: HIJRI_DIFF_def MOON_CYCLE_def divide_less_eq)
  then show "\<lfloor>(of_int n + HIJRI_DIFF) / MOON_CYCLE\<rfloor> \<le> 1684" by linarith
qed

lemma moon_floor_range: "0 \<le> m \<Longrightarrow> m \<le> 1686 \<Longrightarrow>
   0 \<le> \<lfloor>of_int m * MOON_CYCLE\<rfloor> \<and> \<lfloor>of_int m * MOON_CYCLE\<rfloor> < 65536"
proof -
  assume m: "0 \<le> m" "m \<le> 1686"
  have "0 \<le> of_int m * MOON_CYCLE" using m by (intro mult_nonneg_nonneg) (simp_all add: MOON_CYCLE_def)
  moreover have "of_int m * MOON_CYCLE < 65536"
    using m by (simp add: MOON_CYCLE_def)
  ultimately show ?thesis by linarith
qed

lemma uint_getNumberOfDaysUntillHijriMonth:
  "0 \<le> m \<Longrightarrow> m \<le> 1686 \<Longrightarrow>
   uint (getNumberOfDaysUntillHijriMonth (word_of_int m)) = \<lfloor>of_int m * MOON_CYCLE\<rfloor>"
  using moon_floor_range [of m]
  by (simp add: getNumberOfDaysUntillHijriMonth_def sint_word_of_int_id uint_word_of_int_id)

lemma sint_i16_small: "0 \<le> x \<Longrightarrow> x < 32768 \<Longrightarrow> sint (word_of_int x :: i16) = x"
  by (rule sint_word_of_int_id) simp_all

lemma hijri_month_word:
  "0 \<le> L \<Longrightarrow> L \<le> 1685 \<Longrightarrow>
   word_of_int (sint (word_of_int L + 9 :: i16) smod 12 + 1) = (word_of_int ((L + 9) mod 12 + 1) :: i16) \<and>
   word_of_int (sint (word_of_int L + 9 :: i16) sdiv 12 + 1389) = (word_of_int ((L + 9) div 12 + 1389) :: u16)"
proof -
  assume L: "0 \<le> L" "L \<le> 1685"
  have "(word_of_int L + 9 :: i16) = word_of_int (L + 9)" by simp
  moreover have "sint (word_of_int (L + 9) :: i16) = L + 9" using L by (intro sint_i16_small) simp_all
  ultimately show ?thesis using L by (simp add: smod_nonneg sdiv_nonneg)
qed

lemma epochToHijriDate_int:
  fixes e :: u32
  defines "N \<equiv> uint e div 86400"
  obtains L where "0 \<le> L" "L \<le> 1685"
    "\<lfloor>of_int L * MOON_CYCLE\<rfloor> \<le> N + 21" "N + 21 < \<lfloor>of_int (L + 1) * MOON_CYCLE\<rfloor>"
    "epochToHijriDate e rd = rd\<lparr>numberOfDays := ucast (e div 86400),
        month := word_of_int ((L + 9) mod 12 + 1), day := word_of_int (N + 22 - \<lfloor>of_int L * MOON_CYCLE\<rfloor>),
        year := word_of_int ((L + 9) div 12 + 1389), weekday := word_of_int ((N + 4) mod 7),
        isLeapYear := False\<rparr>"
proof -
  have N: "0 \<le> N" "N \<le> 49710" using uint_lt2p [of e] by (auto simp: N_def pos_imp_zdiv_nonneg_iff)
  have und: "uint (ucast (e div 86400) :: u16) = N" by (simp add: N_def uint_epoch_days)
  define m where "m = \<lfloor>(of_int N + HIJRI_DIFF) / MOON_CYCLE\<rfloor>"
  define k where "k = (\<lambda>i::int. \<lfloor>of_int i * MOON_CYCLE\<rfloor>)"
  have mr: "0 \<le> m" "m \<le> 1684" using hijri_month_range [OF N] by (simp_all add: m_def)
  have br: "k m \<le> N + 21" "N + 21 \<le> k (m + 1)" using hijri_month_bracket [of N] by (simp_all add: m_def k_def)
  have st: "k (m + 1) - k m \<in> {29, 30}" "k (m + 1 + 1) - k (m + 1) \<in> {29, 30}"
    using moon_step [of m] moon_step [of "m + 1"] by (simp_all add: k_def)
  have sm: "sint (word_of_int m :: i16) = m" using mr by (intro sint_i16_small) simp_all
  have nodim: "uint (getNumberOfDaysUntillHijriMonth (word_of_int m)) = k m"
    "uint (getNumberOfDaysUntillHijriMonth (word_of_int (m + 1))) = k (m + 1)"
    unfolding k_def using mr by (intro uint_getNumberOfDaysUntillHijriMonth; simp)+
  have dim: "uint (word_of_int (k (m + 1) - k m) :: u8) = k (m + 1) - k m"
    using st by (intro uint_word_of_int_id) auto
  have fl: "\<lfloor>of_int N + HIJRI_DIFF - of_int (k m)\<rfloor> = N - k m + 21"
    using floor_HIJRI_DIFF [of "N - k m"] by (simp add: algebra_simps)
  have sd: "sint (word_of_int (N - k m + 21 + 1) :: i16) = N - k m + 21 + 1"
    using br st by (intro sint_i16_small) auto
  have rc: "(uint (word_of_int (k (m + 1) - k m) :: u8) < N - k m + 21 + 1) = (N + 21 = k (m + 1))"
    using br dim by auto
  have code: "epochToHijriDate e rd =
      (let (d, m') = (if N + 21 = k (m + 1) then (1, word_of_int m + 1 :: i16)
                       else (word_of_int (N - k m + 21 + 1), word_of_int m :: i16));
           m' = m' + 9
       in rd\<lparr>numberOfDays := ucast (e div 86400), month := word_of_int (sint m' smod 12 + 1), day := d,
                year := word_of_int (sint m' sdiv 12 + 1389),
                weekday := word_of_int ((N + 4) mod 7), isLeapYear := False\<rparr>)"
    unfolding epochToHijriDate_def Let_def und m_def [symmetric] sm fl nodim sd rc
    by (simp only: k_def)
  show ?thesis
  proof (cases "N + 21 = k (m + 1)")
    case True
    have L: "0 \<le> m + 1" "m + 1 \<le> 1685" using mr by simp_all
    have "k (m + 1) \<le> N + 21" "N + 21 < k (m + 1 + 1)" using True st by auto
    moreover have "(word_of_int m + 1 :: i16) = word_of_int (m + 1)" by simp
    moreover have "N + 22 - k (m + 1) = 1" using True by simp
    then have "(word_of_int (N + 22 - k (m + 1)) :: i16) = 1" by (simp only:) simp
    ultimately show ?thesis
      using that [OF L] code True hijri_month_word [OF L] by (simp add: k_def)
  next
    case False
    have L: "0 \<le> m" "m \<le> 1685" using mr by simp_all
    have "N + 21 < k (m + 1)" using False br by simp
    moreover have "N - k m + 21 + 1 = N + 22 - k m" by simp
    ultimately show ?thesis
      using that [OF L] code False hijri_month_word [OF L] br by (simp add: k_def)
  qed
qed

lemma epochToHijriDate_fields:
  fixes e :: u32
  obtains L where "0 \<le> L" "L \<le> 1685"
    "\<lfloor>of_int L * MOON_CYCLE\<rfloor> \<le> uint e div 86400 + 21"
    "uint e div 86400 + 21 < \<lfloor>of_int (L + 1) * MOON_CYCLE\<rfloor>"
    "uint (year (epochToHijriDate e rd)) = (L + 9) div 12 + 1389"
    "sint (month (epochToHijriDate e rd)) = (L + 9) mod 12 + 1"
    "sint (day (epochToHijriDate e rd)) = uint e div 86400 + 22 - \<lfloor>of_int L * MOON_CYCLE\<rfloor>"
    "1 \<le> sint (day (epochToHijriDate e rd))" "sint (day (epochToHijriDate e rd)) \<le> 30"
    "numberOfDays (epochToHijriDate e rd) = ucast (e div 86400)"
    "uint (weekday (epochToHijriDate e rd)) = (uint e div 86400 + 4) mod 7"
    "\<not> isLeapYear (epochToHijriDate e rd)"
proof -
  let ?N = "uint e div 86400"
  obtain L where L: "0 \<le> L" "L \<le> 1685" "\<lfloor>of_int L * MOON_CYCLE\<rfloor> \<le> ?N + 21"
    "?N + 21 < \<lfloor>of_int (L + 1) * MOON_CYCLE\<rfloor>"
    and r: "epochToHijriDate e rd = rd\<lparr>numberOfDays := ucast (e div 86400),
        month := word_of_int ((L + 9) mod 12 + 1), day := word_of_int (?N + 22 - \<lfloor>of_int L * MOON_CYCLE\<rfloor>),
        year := word_of_int ((L + 9) div 12 + 1389), weekday := word_of_int ((?N + 4) mod 7),
        isLeapYear := False\<rparr>"
    by (rule epochToHijriDate_int)
  have "\<lfloor>of_int (L + 1) * MOON_CYCLE\<rfloor> - \<lfloor>of_int L * MOON_CYCLE\<rfloor> \<in> {29, 30}" by (rule moon_step)
  then have d: "1 \<le> ?N + 22 - \<lfloor>of_int L * MOON_CYCLE\<rfloor>" "?N + 22 - \<lfloor>of_int L * MOON_CYCLE\<rfloor> \<le> 30"
    using L by auto
  have y: "uint (word_of_int ((L + 9) div 12 + 1389) :: u16) = (L + 9) div 12 + 1389"
    using L by (intro uint_word_of_int_id) simp_all
  have m: "sint (word_of_int ((L + 9) mod 12 + 1) :: i16) = (L + 9) mod 12 + 1"
    by (intro sint_i16_small) simp_all
  have dd: "sint (word_of_int (?N + 22 - \<lfloor>of_int L * MOON_CYCLE\<rfloor>) :: i16) = ?N + 22 - \<lfloor>of_int L * MOON_CYCLE\<rfloor>"
    using d by (intro sint_i16_small) simp_all
  have w: "uint (word_of_int ((?N + 4) mod 7) :: u8) = (?N + 4) mod 7"
    by (intro uint_word_of_int_id) simp_all
  have fy: "uint (year (epochToHijriDate e rd)) = (L + 9) div 12 + 1389" unfolding r using y by simp
  have fm: "sint (month (epochToHijriDate e rd)) = (L + 9) mod 12 + 1" unfolding r using m by simp
  have fd: "sint (day (epochToHijriDate e rd)) = ?N + 22 - \<lfloor>of_int L * MOON_CYCLE\<rfloor>"
    unfolding r using dd by simp
  have fw: "uint (weekday (epochToHijriDate e rd)) = (?N + 4) mod 7" unfolding r using w by simp
  show ?thesis
    by (rule that [OF L fy fm fd]) (use fd d fw r in simp_all)
qed

lemma epochToHijriDate_indep: "epochToHijriDate e r = epochToHijriDate e r'"
  by (cases r, cases r') (simp add: epochToHijriDate_def Let_def split: prod.split)

lemma moon_floor_mono: "i \<le> j \<Longrightarrow> \<lfloor>of_int i * MOON_CYCLE\<rfloor> \<le> \<lfloor>of_int j * MOON_CYCLE\<rfloor>"
  by (intro floor_mono mult_right_mono) (simp_all add: MOON_CYCLE_def)

text \<open>The bracket determines the lunar month.\<close>

lemma hijri_month_unique:
  assumes "\<lfloor>of_int L * MOON_CYCLE\<rfloor> \<le> x" "x < \<lfloor>of_int (L + 1) * MOON_CYCLE\<rfloor>"
    and "\<lfloor>of_int L' * MOON_CYCLE\<rfloor> \<le> x" "x < \<lfloor>of_int (L' + 1) * MOON_CYCLE\<rfloor>"
  shows "L = L'"
proof (rule ccontr)
  assume "L \<noteq> L'"
  then consider "L + 1 \<le> L'" | "L' + 1 \<le> L" by linarith
  then show False
  proof cases
    case 1
    with moon_floor_mono [OF 1] assms(2,3) show False by linarith
  next
    case 2
    with moon_floor_mono [OF 2] assms(1,4) show False by linarith
  qed
qed

lemma hijri_index_of_fields:
  assumes "0 \<le> L" "L \<le> 1685" "uint y = (L + 9) div 12 + 1389" "sint m = (L + 9) mod 12 + 1"
  shows "(uint y - 1389) * 12 + sint m - 10 = L"
proof -
  have "(L + 9) div 12 * 12 + (L + 9) mod 12 = L + 9" by (rule div_mult_mod_eq)
  then show ?thesis unfolding assms(3,4) by (simp add: algebra_simps)
qed

text \<open>
  C28. \<^verbatim>\<open>epochToHijriDate\<close> implements the arithmetic lunar calendar: the date it
  writes names lunar month \<open>L = 12 (year - 1389) + month - 10\<close> (months of mean length
  \<^verbatim>\<open>MOON_CYCLE\<close>, shifted by \<^verbatim>\<open>HIJRI_DIFF\<close>), day \<open>N\<close> of the epoch lies in that
  month's span, and the day of the month is the offset of \<open>N\<close> in it plus one. No
  intermediate \<^verbatim>\<open>int16_t\<close>, \<^verbatim>\<open>uint16_t\<close> or \<^verbatim>\<open>uint8_t\<close> value wraps.
\<close>

theorem epochToHijriDate_refines:
  "\<lfloor>of_int ((uint (year (epochToHijriDate e rd)) - 1389) * 12 + sint (month (epochToHijriDate e rd)) - 10)
      * MOON_CYCLE\<rfloor> \<le> uint e div 86400 + 21 \<and>
   uint e div 86400 + 21 < \<lfloor>of_int ((uint (year (epochToHijriDate e rd)) - 1389) * 12
      + sint (month (epochToHijriDate e rd)) - 10 + 1) * MOON_CYCLE\<rfloor> \<and>
   sint (day (epochToHijriDate e rd)) = uint e div 86400 + 22 - \<lfloor>of_int ((uint (year (epochToHijriDate e rd))
      - 1389) * 12 + sint (month (epochToHijriDate e rd)) - 10) * MOON_CYCLE\<rfloor>"
proof -
  obtain L where L: "0 \<le> L" "L \<le> 1685"
    "\<lfloor>of_int L * MOON_CYCLE\<rfloor> \<le> uint e div 86400 + 21"
    "uint e div 86400 + 21 < \<lfloor>of_int (L + 1) * MOON_CYCLE\<rfloor>"
    "uint (year (epochToHijriDate e rd)) = (L + 9) div 12 + 1389"
    "sint (month (epochToHijriDate e rd)) = (L + 9) mod 12 + 1"
    "sint (day (epochToHijriDate e rd)) = uint e div 86400 + 22 - \<lfloor>of_int L * MOON_CYCLE\<rfloor>"
    by (rule epochToHijriDate_fields)
  have "(uint (year (epochToHijriDate e rd)) - 1389) * 12 + sint (month (epochToHijriDate e rd)) - 10 = L"
    using L by (intro hijri_index_of_fields)
  with L show ?thesis by simp
qed

text \<open>
  C29. Every date \<^verbatim>\<open>epochToHijriDate\<close> writes has a year in 1389..1530, a month in
  1..12, a day in 1..30, a weekday in 0..6, \<^verbatim>\<open>numberOfDays\<close> equal to the epoch
  divided by 86400, and \<^verbatim>\<open>isLeapYear\<close> false.
\<close>

theorem epochToHijriDate_bounds:
  "1389 \<le> uint (year (epochToHijriDate e rd)) \<and> uint (year (epochToHijriDate e rd)) \<le> 1530 \<and>
   1 \<le> sint (month (epochToHijriDate e rd)) \<and> sint (month (epochToHijriDate e rd)) \<le> 12 \<and>
   1 \<le> sint (day (epochToHijriDate e rd)) \<and> sint (day (epochToHijriDate e rd)) \<le> 30 \<and>
   uint (weekday (epochToHijriDate e rd)) < 7 \<and>
   uint (numberOfDays (epochToHijriDate e rd)) = uint e div 86400 \<and>
   \<not> isLeapYear (epochToHijriDate e rd)"
proof -
  obtain L where L: "0 \<le> L" "L \<le> 1685"
    "uint (year (epochToHijriDate e rd)) = (L + 9) div 12 + 1389"
    "sint (month (epochToHijriDate e rd)) = (L + 9) mod 12 + 1"
    "1 \<le> sint (day (epochToHijriDate e rd))" "sint (day (epochToHijriDate e rd)) \<le> 30"
    "numberOfDays (epochToHijriDate e rd) = ucast (e div 86400)"
    "uint (weekday (epochToHijriDate e rd)) = (uint e div 86400 + 4) mod 7"
    "\<not> isLeapYear (epochToHijriDate e rd)"
    by (rule epochToHijriDate_fields)
  have "(L + 9) div 12 \<le> 1694 div 12" using L by (intro zdiv_mono1) simp_all
  moreover have "0 \<le> (L + 9) div 12" "(L + 9) mod 12 < 12" using L by simp_all
  ultimately show ?thesis using L by (simp add: uint_epoch_days)
qed

lemma hijri_clamp_id: "1389 \<le> uint y \<Longrightarrow> uint y \<le> 1529 \<Longrightarrow> hijriClampYear y = y"
  by (simp add: hijriClampYear_def word_less_def)

lemma hijri_days_back:
  "\<lfloor>of_int L * MOON_CYCLE + of_int (n + 22 - \<lfloor>of_int L * MOON_CYCLE\<rfloor> - 22)\<rfloor> = n"
proof -
  have "n + 22 - \<lfloor>of_int L * MOON_CYCLE\<rfloor> - 22 = n - \<lfloor>of_int L * MOON_CYCLE\<rfloor>" by simp
  then show ?thesis by (simp only: floor_add_int) simp
qed

text \<open>
  C30. Converting an epoch to a Hijri date and a time and back with
  \<^verbatim>\<open>hijriDateTimeToEpoch\<close> returns the same epoch, and the date and time written back
  are the ones given, for every epoch whose Hijri year is at most 1529 (the clamp bound;
  spec, section 8).
\<close>

theorem hijriDateTimeToEpoch_epochToHijriDate:
  assumes "uint (year (epochToHijriDate e rd)) \<le> 1529"
  shows "hijriDateTimeToEpoch (epochToHijriDate e rd) (epochToTime e rt) = (e, epochToHijriDate e rd, epochToTime e rt)"
proof -
  let ?r = "epochToHijriDate e rd"
  obtain L where L: "0 \<le> L" "L \<le> 1685"
    "uint (year ?r) = (L + 9) div 12 + 1389" "sint (month ?r) = (L + 9) mod 12 + 1"
    "sint (day ?r) = uint e div 86400 + 22 - \<lfloor>of_int L * MOON_CYCLE\<rfloor>"
    by (rule epochToHijriDate_fields)
  have m: "1 \<le> sint (month ?r)" "sint (month ?r) \<le> 12" using L(4) by simp_all
  have y: "1389 \<le> uint (year ?r)" using L by simp
  have nm: "normalizeMonth (year ?r) (month ?r) = (year ?r, month ?r)"
    using m by (rule normalizeMonth_in_range)
  have cl: "hijriClampYear (year ?r) = year ?r" using y assms by (rule hijri_clamp_id)
  have idx: "(uint (year ?r) - 1389) * 12 + sint (month ?r) - 10 = L"
    using L by (intro hijri_index_of_fields)
  have fl: "\<lfloor>of_int L * MOON_CYCLE + of_int (sint (day ?r) - 22)\<rfloor> = uint e div 86400"
    unfolding L(5) by (rule hijri_days_back)
  have nd: "(word_of_int (uint e div 86400) :: u16) = ucast (e div 86400)"
    by (metis uint_epoch_days word_of_int_uint)
  have time: "(word_of_int (uint (ucast (e div 86400) :: u16) * 86400 + sint (hours (epochToTime e rt)) * 3600
               + sint (minutes (epochToTime e rt)) * 60 + sint (seconds (epochToTime e rt))) :: u32) = e"
    by (simp only: epochToTime_fields uint_epoch_days epoch_recombine word_of_int_uint)
  have "hijriDateTimeToEpoch ?r (epochToTime e rt) =
        (e, epochToHijriDate e (?r\<lparr>year := year ?r, month := month ?r, numberOfDays := ucast (e div 86400)\<rparr>),
         epochToTime e (epochToTime e rt))"
    unfolding hijriDateTimeToEpoch_def Let_def
    by (simp only: nm prod.case cl idx fl nd time)
  also have "\<dots> = (e, ?r, epochToTime e rt)"
    by (simp only: epochToTime_idem epochToHijriDate_indep [of e
          "?r\<lparr>year := year ?r, month := month ?r, numberOfDays := ucast (e div 86400)\<rparr>" rd])
  finally show ?thesis .
qed

lemma hijri_epoch0_month:
  assumes "0 \<le> L" "\<lfloor>of_int L * MOON_CYCLE\<rfloor> \<le> 21"
  shows "L = 0"
proof (rule ccontr)
  assume "L \<noteq> 0"
  with assms(1) have "1 \<le> L" by simp
  from moon_floor_mono [OF this] have "\<lfloor>of_int 1 * MOON_CYCLE\<rfloor> \<le> \<lfloor>of_int L * MOON_CYCLE\<rfloor>" .
  moreover have "\<lfloor>of_int 1 * MOON_CYCLE\<rfloor> = 29" by (simp add: MOON_CYCLE_def floor_eq_iff)
  ultimately show False using assms(2) by simp
qed

lemma epochToHijriDate_0_fields:
  "uint (year (epochToHijriDate 0 rd)) = 1389 \<and> sint (month (epochToHijriDate 0 rd)) = 10 \<and>
   sint (day (epochToHijriDate 0 rd)) = 22"
proof -
  obtain L where L: "0 \<le> L" "\<lfloor>of_int L * MOON_CYCLE\<rfloor> \<le> uint (0::u32) div 86400 + 21"
    "uint (year (epochToHijriDate 0 rd)) = (L + 9) div 12 + 1389"
    "sint (month (epochToHijriDate 0 rd)) = (L + 9) mod 12 + 1"
    "sint (day (epochToHijriDate 0 rd)) = uint (0::u32) div 86400 + 22 - \<lfloor>of_int L * MOON_CYCLE\<rfloor>"
    by (rule epochToHijriDate_fields)
  have "L = 0" using L(1,2) by (intro hijri_epoch0_month) simp_all
  with L show ?thesis by simp
qed

theorem hijriDateTimeToEpoch_epochToHijriDate_witness:
  "uint (year (epochToHijriDate 0 \<lparr>numberOfDays = 0, year = 0, month = 0, day = 0, weekday = 0, isLeapYear = False\<rparr>)) \<le> 1529 \<and>
   hijriDateTimeToEpoch (epochToHijriDate 0 \<lparr>numberOfDays = 0, year = 0, month = 0, day = 0, weekday = 0, isLeapYear = False\<rparr>)
     (epochToTime 0 \<lparr>hours = 0, minutes = 0, seconds = 0\<rparr>) =
   (0, epochToHijriDate 0 \<lparr>numberOfDays = 0, year = 0, month = 0, day = 0, weekday = 0, isLeapYear = False\<rparr>,
    epochToTime 0 \<lparr>hours = 0, minutes = 0, seconds = 0\<rparr>)"
proof -
  have h: "uint (year (epochToHijriDate 0 \<lparr>numberOfDays = 0, year = 0, month = 0, day = 0, weekday = 0,
             isLeapYear = False\<rparr>)) \<le> 1529"
    using epochToHijriDate_0_fields by simp
  show ?thesis
    using h hijriDateTimeToEpoch_epochToHijriDate [OF h, of "\<lparr>hours = 0, minutes = 0, seconds = 0\<rparr>"] by blast
qed

lemma moon_floor_1683_1684:
  "\<lfloor>of_int 1683 * MOON_CYCLE\<rfloor> = 49699" "\<lfloor>of_int (1683 + 1) * MOON_CYCLE\<rfloor> = 49729"
  by (simp_all add: MOON_CYCLE_def floor_eq_iff)

lemma epoch_day_ge_49678: "(4292179200 \<le> (e::u32)) = (49678 \<le> uint e div 86400)"
proof
  assume "4292179200 \<le> e"
  then have "4292179200 \<le> uint e" by (simp add: word_le_def)
  then have "4292179200 div 86400 \<le> uint e div 86400" by (rule zdiv_mono1) simp
  then show "49678 \<le> uint e div 86400" by simp
next
  assume "49678 \<le> uint e div 86400"
  then have "49678 * 86400 \<le> uint e div 86400 * 86400" by simp
  also have "\<dots> \<le> uint e"
    using div_mult_mod_eq [of "uint e" 86400] pos_mod_sign [of 86400 "uint e"] by linarith
  finally show "4292179200 \<le> e" by (simp add: word_le_def)
qed

lemma moon_floor_1671: "\<lfloor>of_int 1671 * MOON_CYCLE\<rfloor> = 49345"
  by (simp add: MOON_CYCLE_def floor_eq_iff)

text \<open>
  C32. Hijri year 1530 is the year of exactly the epochs from 4292179200 (1 Muharram 1530)
  to the end of the 32-bit range, the last 33 days; it lies past the clamp bound 1529 of
  \<^verbatim>\<open>hijriDateTimeToEpoch\<close>, so for every one of these epochs converting the date and
  time back yields an earlier epoch: none of them round-trips.
\<close>

theorem hijri_year_1530_not_reversible:
  "(uint (year (epochToHijriDate e rd)) = 1530 \<longleftrightarrow> 4292179200 \<le> e) \<and>
   (4292179200 \<le> e \<longrightarrow> fst (hijriDateTimeToEpoch (epochToHijriDate e rd) (epochToTime e rt)) < e)"
proof -
  let ?r = "epochToHijriDate e rd" and ?N = "uint e div 86400"
  obtain L where L: "0 \<le> L" "L \<le> 1685"
    "\<lfloor>of_int L * MOON_CYCLE\<rfloor> \<le> ?N + 21" "?N + 21 < \<lfloor>of_int (L + 1) * MOON_CYCLE\<rfloor>"
    "uint (year ?r) = (L + 9) div 12 + 1389" "sint (month ?r) = (L + 9) mod 12 + 1"
    "sint (day ?r) = ?N + 22 - \<lfloor>of_int L * MOON_CYCLE\<rfloor>"
    by (rule epochToHijriDate_fields)
  have yL: "(uint (year ?r) = 1530) = (1683 \<le> L)" using L(2,5) by presburger
  have LN: "(1683 \<le> L) = (49678 \<le> ?N)"
  proof
    assume "1683 \<le> L"
    from moon_floor_mono [OF this] L(3) moon_floor_1683_1684(1) show "49678 \<le> ?N" by linarith
  next
    assume N: "49678 \<le> ?N"
    show "1683 \<le> L"
    proof (rule ccontr)
      assume "\<not> 1683 \<le> L"
      then have "L + 1 \<le> 1683" by simp
      from moon_floor_mono [OF this] L(4) N moon_floor_1683_1684(1) show False by linarith
    qed
  qed
  have "4292179200 \<le> e \<longrightarrow> fst (hijriDateTimeToEpoch ?r (epochToTime e rt)) < e"
  proof
    assume "4292179200 \<le> e"
    then have N: "49678 \<le> ?N" and L1683: "1683 \<le> L" using epoch_day_ge_49678 LN by simp_all
    have d: "(L + 9) div 12 = 141" using L(5) yL L1683 by simp
    have "(L + 9) div 12 * 12 + (L + 9) mod 12 = L + 9" by (rule div_mult_mod_eq)
    then have idx: "(uint (1529::u16) - 1389) * 12 + sint (month ?r) - 10 = L - 12"
      using d L(6) by simp
    have nm: "normalizeMonth (year ?r) (month ?r) = (year ?r, month ?r)"
      using L(6) by (intro normalizeMonth_in_range) simp_all
    have cl: "hijriClampYear (year ?r) = 1529"
      using L(5) d by (simp add: hijriClampYear_def word_less_def)
    define nd' where "nd' = \<lfloor>of_int (L - 12) * MOON_CYCLE\<rfloor> + ?N - \<lfloor>of_int L * MOON_CYCLE\<rfloor>"
    have fl: "\<lfloor>of_int ((uint (1529::u16) - 1389) * 12 + sint (month ?r) - 10) * MOON_CYCLE
               + of_int (sint (day ?r) - 22)\<rfloor> = nd'"
    proof -
      have "sint (day ?r) - 22 = ?N - \<lfloor>of_int L * MOON_CYCLE\<rfloor>" using L(7) by simp
      then show ?thesis unfolding idx nd'_def by (simp only: floor_add_int) simp
    qed
    have "\<lfloor>of_int 1671 * MOON_CYCLE\<rfloor> \<le> \<lfloor>of_int (L - 12) * MOON_CYCLE\<rfloor>"
      using L1683 by (intro moon_floor_mono) simp
    then have nd0: "0 \<le> nd'" using L(3) moon_floor_1671 N unfolding nd'_def by linarith
    have "\<lfloor>of_int (L - 12 + 1) * MOON_CYCLE\<rfloor> - \<lfloor>of_int (L - 12) * MOON_CYCLE\<rfloor> \<in> {29, 30}"
      by (rule moon_step)
    moreover have "\<lfloor>of_int (L - 12 + 1) * MOON_CYCLE\<rfloor> \<le> \<lfloor>of_int L * MOON_CYCLE\<rfloor>"
      by (intro moon_floor_mono) simp
    ultimately have ndN: "nd' < ?N" by (auto simp: nd'_def)
    have N49710: "?N \<le> 49710" using uint_lt2p [of e] by simp
    have und: "uint (word_of_int nd' :: u16) = nd'"
      using nd0 ndN N49710 by (intro uint_word_of_int_id) simp_all
    define V where "V = nd' * 86400 + uint e mod 86400"
    have V: "uint e mod 86400 div 3600 * 3600 + uint e mod 86400 mod 3600 div 60 * 60
             + uint e mod 86400 mod 3600 mod 60 = uint e mod 86400"
      using epoch_recombine [of "uint e"] div_mult_mod_eq [of "uint e" 86400] by linarith
    have "fst (hijriDateTimeToEpoch ?r (epochToTime e rt)) =
          word_of_int (uint (word_of_int nd' :: u16) * 86400 + sint (hours (epochToTime e rt)) * 3600
            + sint (minutes (epochToTime e rt)) * 60 + sint (seconds (epochToTime e rt)))"
      unfolding hijriDateTimeToEpoch_def Let_def by (simp only: nm prod.case cl fl fst_conv)
    also have "\<dots> = word_of_int V"
      unfolding und epochToTime_fields V_def using V by (simp add: algebra_simps)
    finally have f: "fst (hijriDateTimeToEpoch ?r (epochToTime e rt)) = word_of_int V" .
    have "0 \<le> V" "V < uint e"
      using nd0 ndN div_mult_mod_eq [of "uint e" 86400] by (simp_all add: V_def)
    then have "uint (word_of_int V :: u32) < uint e"
      using uint_lt2p [of e] by (simp add: uint_word_of_int_id)
    then show "fst (hijriDateTimeToEpoch ?r (epochToTime e rt)) < e"
      unfolding f by (simp add: word_less_def)
  qed
  with yL LN epoch_day_ge_49678 [of e] show ?thesis by simp
qed

theorem hijri_year_1530_not_reversible_witness:
  "(4292179200 :: u32) \<le> 4292179200 \<and> uint (year (epochToHijriDate 4292179200 \<lparr>numberOfDays = 0, year = 0, month = 0, day = 0, weekday = 0, isLeapYear = False\<rparr>)) = 1530 \<and>
   fst (hijriDateTimeToEpoch (epochToHijriDate 4292179200 \<lparr>numberOfDays = 0, year = 0, month = 0, day = 0, weekday = 0, isLeapYear = False\<rparr>) (epochToTime 4292179200 \<lparr>hours = 0, minutes = 0, seconds = 0\<rparr>)) < 4292179200"
  using hijri_year_1530_not_reversible [of 4292179200 "\<lparr>numberOfDays = 0, year = 0, month = 0, day = 0, weekday = 0, isLeapYear = False\<rparr>" "\<lparr>hours = 0, minutes = 0, seconds = 0\<rparr>"] by simp

lemma hijri_month_mono:
  assumes "\<lfloor>of_int L * MOON_CYCLE\<rfloor> \<le> x" "x \<le> x'" "x' < \<lfloor>of_int (L' + 1) * MOON_CYCLE\<rfloor>"
  shows "L \<le> L'"
proof (rule ccontr)
  assume "\<not> L \<le> L'"
  then have "L' + 1 \<le> L" by simp
  from moon_floor_mono [OF this] assms show False by linarith
qed

lemma uint_div_mono: "(e::u32) \<le> e' \<Longrightarrow> uint e div 86400 \<le> uint e' div 86400"
  by (simp add: word_le_def zdiv_mono1)

text \<open>
  C34. The Hijri calendar never runs backwards: for a later epoch
  \<^verbatim>\<open>epochToHijriDate\<close> writes the same or a later lunar month, and in the same month
  the same or a later day.
\<close>

theorem epochToHijriDate_mono:
  assumes "e \<le> e'"
  shows "hijriMonthIndex (epochToHijriDate e rd) \<le> hijriMonthIndex (epochToHijriDate e' rd') \<and>
         (hijriMonthIndex (epochToHijriDate e rd) = hijriMonthIndex (epochToHijriDate e' rd') \<longrightarrow>
          sint (day (epochToHijriDate e rd)) \<le> sint (day (epochToHijriDate e' rd')))"
proof -
  obtain L where L: "0 \<le> L" "L \<le> 1685"
    "\<lfloor>of_int L * MOON_CYCLE\<rfloor> \<le> uint e div 86400 + 21"
    "uint (year (epochToHijriDate e rd)) = (L + 9) div 12 + 1389"
    "sint (month (epochToHijriDate e rd)) = (L + 9) mod 12 + 1"
    "sint (day (epochToHijriDate e rd)) = uint e div 86400 + 22 - \<lfloor>of_int L * MOON_CYCLE\<rfloor>"
    by (rule epochToHijriDate_fields)
  obtain L' where L': "0 \<le> L'" "L' \<le> 1685"
    "uint e' div 86400 + 21 < \<lfloor>of_int (L' + 1) * MOON_CYCLE\<rfloor>"
    "uint (year (epochToHijriDate e' rd')) = (L' + 9) div 12 + 1389"
    "sint (month (epochToHijriDate e' rd')) = (L' + 9) mod 12 + 1"
    "sint (day (epochToHijriDate e' rd')) = uint e' div 86400 + 22 - \<lfloor>of_int L' * MOON_CYCLE\<rfloor>"
    by (rule epochToHijriDate_fields)
  have N: "uint e div 86400 + 21 \<le> uint e' div 86400 + 21" using uint_div_mono [OF assms] by simp
  have i: "hijriMonthIndex (epochToHijriDate e rd) = L" "hijriMonthIndex (epochToHijriDate e' rd') = L'"
    unfolding hijriMonthIndex_def using L L' by (simp_all add: hijri_index_of_fields)
  have "L \<le> L'" using L(3) N L'(3) by (rule hijri_month_mono)
  with i L(6) L'(6) N show ?thesis by simp
qed

theorem epochToHijriDate_mono_witness:
  "(86400 :: u32) \<le> 2592000 \<and>
   hijriMonthIndex (epochToHijriDate 86400 \<lparr>numberOfDays = 0, year = 0, month = 0, day = 0, weekday = 0, isLeapYear = False\<rparr>) \<le> hijriMonthIndex (epochToHijriDate 2592000 \<lparr>numberOfDays = 0, year = 0, month = 0, day = 0, weekday = 0, isLeapYear = False\<rparr>)"
proof -
  have h: "(86400 :: u32) \<le> 2592000" by simp
  show ?thesis using h epochToHijriDate_mono [OF h, of "\<lparr>numberOfDays = 0, year = 0, month = 0, day = 0, weekday = 0, isLeapYear = False\<rparr>" "\<lparr>numberOfDays = 0, year = 0, month = 0, day = 0, weekday = 0, isLeapYear = False\<rparr>"] by blast
qed

text \<open>
  C31. The Hijri calendar advances one day at a time without gaps or repeats: the date of
  the day after \<open>e\<close> is either the next day of the same lunar month, or day 1 of the
  next month, and then the month just ended had 29 or 30 days.
\<close>

theorem epochToHijriDate_next_day:
  assumes "uint e' div 86400 = uint e div 86400 + 1"
  shows "(hijriMonthIndex (epochToHijriDate e' rd') = hijriMonthIndex (epochToHijriDate e rd) \<and>
          sint (day (epochToHijriDate e' rd')) = sint (day (epochToHijriDate e rd)) + 1) \<or>
         (hijriMonthIndex (epochToHijriDate e' rd') = hijriMonthIndex (epochToHijriDate e rd) + 1 \<and>
          sint (day (epochToHijriDate e' rd')) = 1 \<and> sint (day (epochToHijriDate e rd)) \<in> {29, 30})"
proof -
  let ?N = "uint e div 86400"
  obtain L where L: "0 \<le> L" "L \<le> 1685"
    "\<lfloor>of_int L * MOON_CYCLE\<rfloor> \<le> ?N + 21" "?N + 21 < \<lfloor>of_int (L + 1) * MOON_CYCLE\<rfloor>"
    "uint (year (epochToHijriDate e rd)) = (L + 9) div 12 + 1389"
    "sint (month (epochToHijriDate e rd)) = (L + 9) mod 12 + 1"
    "sint (day (epochToHijriDate e rd)) = ?N + 22 - \<lfloor>of_int L * MOON_CYCLE\<rfloor>"
    by (rule epochToHijriDate_fields)
  obtain L' where L'0: "0 \<le> L'" "L' \<le> 1685"
    "\<lfloor>of_int L' * MOON_CYCLE\<rfloor> \<le> uint e' div 86400 + 21"
    "uint e' div 86400 + 21 < \<lfloor>of_int (L' + 1) * MOON_CYCLE\<rfloor>"
    "uint (year (epochToHijriDate e' rd')) = (L' + 9) div 12 + 1389"
    "sint (month (epochToHijriDate e' rd')) = (L' + 9) mod 12 + 1"
    "sint (day (epochToHijriDate e' rd')) = uint e' div 86400 + 22 - \<lfloor>of_int L' * MOON_CYCLE\<rfloor>"
    by (rule epochToHijriDate_fields)
  have L': "0 \<le> L'" "L' \<le> 1685"
    "\<lfloor>of_int L' * MOON_CYCLE\<rfloor> \<le> ?N + 22" "?N + 22 < \<lfloor>of_int (L' + 1) * MOON_CYCLE\<rfloor>"
    "uint (year (epochToHijriDate e' rd')) = (L' + 9) div 12 + 1389"
    "sint (month (epochToHijriDate e' rd')) = (L' + 9) mod 12 + 1"
    "sint (day (epochToHijriDate e' rd')) = ?N + 23 - \<lfloor>of_int L' * MOON_CYCLE\<rfloor>"
    using L'0 unfolding assms by simp_all
  have i: "hijriMonthIndex (epochToHijriDate e rd) = L" "hijriMonthIndex (epochToHijriDate e' rd') = L'"
    unfolding hijriMonthIndex_def using L L' by (simp_all add: hijri_index_of_fields)
  show ?thesis
  proof (cases "?N + 22 < \<lfloor>of_int (L + 1) * MOON_CYCLE\<rfloor>")
    case True
    have "L' = L" using L'(3,4) order_trans [OF L(3)] True by (intro hijri_month_unique) simp_all
    then show ?thesis using i L(7) L'(7) by simp
  next
    case False
    then have eq: "\<lfloor>of_int (L + 1) * MOON_CYCLE\<rfloor> = ?N + 22" using L(4) by simp
    have st: "\<lfloor>of_int (L + 1 + 1) * MOON_CYCLE\<rfloor> - \<lfloor>of_int (L + 1) * MOON_CYCLE\<rfloor> \<in> {29, 30}"
      by (rule moon_step)
    have "L' = L + 1"
      using L'(3,4) eq st by (intro hijri_month_unique) auto
    moreover have "\<lfloor>of_int (L + 1) * MOON_CYCLE\<rfloor> - \<lfloor>of_int L * MOON_CYCLE\<rfloor> \<in> {29, 30}"
      by (rule moon_step)
    ultimately show ?thesis using i L(7) L'(7) eq by auto
  qed
qed

theorem epochToHijriDate_next_day_witness:
  "uint (86400 :: u32) div 86400 = uint (0 :: u32) div 86400 + 1 \<and>
   ((hijriMonthIndex (epochToHijriDate 86400 \<lparr>numberOfDays = 0, year = 0, month = 0, day = 0, weekday = 0, isLeapYear = False\<rparr>) = hijriMonthIndex (epochToHijriDate 0 \<lparr>numberOfDays = 0, year = 0, month = 0, day = 0, weekday = 0, isLeapYear = False\<rparr>) \<and>
     sint (day (epochToHijriDate 86400 \<lparr>numberOfDays = 0, year = 0, month = 0, day = 0, weekday = 0, isLeapYear = False\<rparr>)) = sint (day (epochToHijriDate 0 \<lparr>numberOfDays = 0, year = 0, month = 0, day = 0, weekday = 0, isLeapYear = False\<rparr>)) + 1) \<or>
    (hijriMonthIndex (epochToHijriDate 86400 \<lparr>numberOfDays = 0, year = 0, month = 0, day = 0, weekday = 0, isLeapYear = False\<rparr>) = hijriMonthIndex (epochToHijriDate 0 \<lparr>numberOfDays = 0, year = 0, month = 0, day = 0, weekday = 0, isLeapYear = False\<rparr>) + 1 \<and>
     sint (day (epochToHijriDate 86400 \<lparr>numberOfDays = 0, year = 0, month = 0, day = 0, weekday = 0, isLeapYear = False\<rparr>)) = 1 \<and> sint (day (epochToHijriDate 0 \<lparr>numberOfDays = 0, year = 0, month = 0, day = 0, weekday = 0, isLeapYear = False\<rparr>)) \<in> {29, 30}))"
proof -
  have h: "uint (86400 :: u32) div 86400 = uint (0 :: u32) div 86400 + 1" by simp
  show ?thesis using h epochToHijriDate_next_day [OF h, of "\<lparr>numberOfDays = 0, year = 0, month = 0, day = 0, weekday = 0, isLeapYear = False\<rparr>" "\<lparr>numberOfDays = 0, year = 0, month = 0, day = 0, weekday = 0, isLeapYear = False\<rparr>"] by blast
qed

end
