(* ===== verification/Calendar_Types.thy ===== *)
theory Calendar_Types
  imports Hijri
begin

text \<open>
  The header's calendar types (\<^verbatim>\<open>src/src/stm32f1_rtc.h\<close>): the enums
  \<^verbatim>\<open>Weekday\<close> and \<^verbatim>\<open>MonthIndex\<close> with their \<^verbatim>\<open>uint8_t\<close> codes, the struct
  \<^verbatim>\<open>DateTime\<close>, and the two inline overloads of \<^verbatim>\<open>epochToDateTime\<close> and
  \<^verbatim>\<open>dateTimeToEpoch\<close> that take a \<^verbatim>\<open>DateTime\<close>. Each enum is a datatype with the
  source's constructors, an instance of the library class \<open>enum\<close> (its constructor list
  in declaration order), and a code function giving the value C assigns (declaration index,
  from 0).
\<close>

datatype Weekday = SUNDAY | MONDAY | TUESDAY | WEDNESDAY | THURSDAY | FRIDAY | SATURDAY

primrec weekdayCode :: "Weekday \<Rightarrow> u8" where
  "weekdayCode SUNDAY = 0"
| "weekdayCode MONDAY = 1"
| "weekdayCode TUESDAY = 2"
| "weekdayCode WEDNESDAY = 3"
| "weekdayCode THURSDAY = 4"
| "weekdayCode FRIDAY = 5"
| "weekdayCode SATURDAY = 6"

datatype MonthIndex = JANUARY | FEBRUARY | MARCH | APRIL | MAY | JUNE | JULY | AUGUST
  | SEPTEMBER | OCTOBER | NOVEMBER | DECEMBER

primrec monthIndexCode :: "MonthIndex \<Rightarrow> u8" where
  "monthIndexCode JANUARY = 0"
| "monthIndexCode FEBRUARY = 1"
| "monthIndexCode MARCH = 2"
| "monthIndexCode APRIL = 3"
| "monthIndexCode MAY = 4"
| "monthIndexCode JUNE = 5"
| "monthIndexCode JULY = 6"
| "monthIndexCode AUGUST = 7"
| "monthIndexCode SEPTEMBER = 8"
| "monthIndexCode OCTOBER = 9"
| "monthIndexCode NOVEMBER = 10"
| "monthIndexCode DECEMBER = 11"

instantiation Weekday :: enum
begin

definition "enum_Weekday = [SUNDAY, MONDAY, TUESDAY, WEDNESDAY, THURSDAY, FRIDAY, SATURDAY]"

definition "enum_all_Weekday P = list_all P [SUNDAY, MONDAY, TUESDAY, WEDNESDAY, THURSDAY, FRIDAY, SATURDAY]"

definition "enum_ex_Weekday P = list_ex P [SUNDAY, MONDAY, TUESDAY, WEDNESDAY, THURSDAY, FRIDAY, SATURDAY]"

instance
proof
  have u: "UNIV = set (enum_class.enum :: Weekday list)"
  proof (rule set_eqI, rule iffI)
    show "x \<in> set (enum_class.enum :: Weekday list)" for x by (cases x) (simp_all add: enum_Weekday_def)
  qed simp
  show "UNIV = set (enum_class.enum :: Weekday list)" by (rule u)
  show "distinct (enum_class.enum :: Weekday list)" by (simp add: enum_Weekday_def)
  show "enum_class.enum_all P = Ball UNIV P" for P :: "Weekday \<Rightarrow> bool"
    by (simp add: enum_all_Weekday_def u enum_Weekday_def)
  show "enum_class.enum_ex P = Bex UNIV P" for P :: "Weekday \<Rightarrow> bool"
    by (simp add: enum_ex_Weekday_def u enum_Weekday_def)
qed

end

instantiation MonthIndex :: enum
begin

definition "enum_MonthIndex = [JANUARY, FEBRUARY, MARCH, APRIL, MAY, JUNE, JULY, AUGUST,
  SEPTEMBER, OCTOBER, NOVEMBER, DECEMBER]"

definition "enum_all_MonthIndex P = list_all P [JANUARY, FEBRUARY, MARCH, APRIL, MAY, JUNE, JULY, AUGUST,
  SEPTEMBER, OCTOBER, NOVEMBER, DECEMBER]"

definition "enum_ex_MonthIndex P = list_ex P [JANUARY, FEBRUARY, MARCH, APRIL, MAY, JUNE, JULY, AUGUST,
  SEPTEMBER, OCTOBER, NOVEMBER, DECEMBER]"

instance
proof
  have u: "UNIV = set (enum_class.enum :: MonthIndex list)"
  proof (rule set_eqI, rule iffI)
    show "x \<in> set (enum_class.enum :: MonthIndex list)" for x by (cases x) (simp_all add: enum_MonthIndex_def)
  qed simp
  show "UNIV = set (enum_class.enum :: MonthIndex list)" by (rule u)
  show "distinct (enum_class.enum :: MonthIndex list)" by (simp add: enum_MonthIndex_def)
  show "enum_class.enum_all P = Ball UNIV P" for P :: "MonthIndex \<Rightarrow> bool"
    by (simp add: enum_all_MonthIndex_def u enum_MonthIndex_def)
  show "enum_class.enum_ex P = Bex UNIV P" for P :: "MonthIndex \<Rightarrow> bool"
    by (simp add: enum_ex_MonthIndex_def u enum_MonthIndex_def)
qed

end

text \<open>Header lines 152--155.\<close>

record DateTime =
  date :: DateVar
  time :: TimeVar

text \<open>Header lines 185--187 and 189--191: the overloads on a \<^verbatim>\<open>DateTime\<close> pass its
  two members by reference and write both back.\<close>

definition epochToDateTimeDT :: "u32 \<Rightarrow> DateTime \<Rightarrow> DateTime" where
  "epochToDateTimeDT t rDateTime =
     (case epochToDateTime t (date rDateTime) (time rDateTime) of
        (d, tm) \<Rightarrow> rDateTime\<lparr>date := d, time := tm\<rparr>)"

definition dateTimeToEpochDT :: "DateTime \<Rightarrow> u32 \<times> DateTime" where
  "dateTimeToEpochDT rDateTime =
     (case dateTimeToEpoch (date rDateTime) (time rDateTime) of
        (t, d, tm) \<Rightarrow> (t, rDateTime\<lparr>date := d, time := tm\<rparr>))"

lemma weekdayCode_enum: "k < 7 \<Longrightarrow> weekdayCode (enum_class.enum ! k) = of_nat k"
  by (auto simp: enum_Weekday_def numeral_eq_Suc less_Suc_eq)

lemma monthIndexCode_enum: "k < 12 \<Longrightarrow> monthIndexCode (enum_class.enum ! k) = of_nat k"
  by (auto simp: enum_MonthIndex_def numeral_eq_Suc less_Suc_eq)

end
