(* ===== verification/Spec2Isabelle.thy ===== *)
theory Spec2Isabelle
  imports Gregorian_Reference Gregorian_Order Counter Interrupt_Interleaving Clock_Init Calendar_Types
begin

text \<open>
  \<^bold>\<open>A verification library for the STM32F1 RTC driver\<close> (\<^verbatim>\<open>src/src/stm32f1_rtc.h\<close>,
  \<^verbatim>\<open>src/src/stm32f1_rtc.cpp\<close>, class \<^verbatim>\<open>STM32F1_RTC\<close>).

  \<^bold>\<open>The program.\<close> The driver brings the RTC's low-speed oscillator online once
  (\<^verbatim>\<open>begin\<close>, \<^verbatim>\<open>init\<close>), reads and writes the 32-bit seconds counter that the
  hardware exposes as two 16-bit registers (\<^verbatim>\<open>getTime\<close>, \<^verbatim>\<open>setTime\<close>,
  \<^verbatim>\<open>setAlarmTime\<close>, \<^verbatim>\<open>getMilliseconds\<close>), keeps one handler per interrupt
  class and dispatches the shared RTC interrupt to them (\<^verbatim>\<open>attachInterrupt\<close>,
  \<^verbatim>\<open>detachInterrupt\<close>, \<^verbatim>\<open>RTC_IRQHandler\<close>), gives indexed access to the
  battery-backed registers (\<^verbatim>\<open>getBackupRegister\<close>, \<^verbatim>\<open>setBackupRegister\<close>,
  which also hold the driver's own "initialised" flag), and converts epochs to and from
  Gregorian and Hijri calendar dates. Foreground code calls everything but the handler;
  the handler runs asynchronously, reads the handler slots that attach and detach write,
  and clears the status flags in the control register that they modify.

  \<^bold>\<open>Theories and what they model.\<close>
  \<^item> \<open>RTC_Prelude\<close>: the C integer types as words (\<open>u8\<close>, \<open>u16\<close>,
    \<open>i16\<close>, \<open>u32\<close>; \<open>sint\<close> reads a signed value, C's integer promotion is
    arithmetic on \<open>int\<close>, a narrowing store is \<open>word_of_int\<close>), C's truncating
    division as \<open>sdiv\<close>/\<open>smod\<close>, the collection \<open>rtc_simps\<close>, single-bit mask
    lemmas.
  \<^item> \<open>Gregorian\<close>: records \<open>DateVar\<close>, \<open>TimeVar\<close> (the header's structs);
    \<open>getNumberOfDaysUntilMonth\<close>, \<open>getSumOfDayFromYearValue\<close>, the month loop
    \<open>monthSearch\<close>, \<open>epochToDate\<close>, \<open>epochToTime\<close>, \<open>epochToDateTime\<close>,
    \<open>dateTimeToEpoch\<close> with its inline steps \<open>normalizeMonth\<close> and
    \<open>clampYear\<close> (cpp 153--201, 245--257). A reference parameter is an argument of the
    HOL function and a component of its result. \<open>epochToDate_ints\<close> gives the fields
    \<^verbatim>\<open>epochToDate\<close> writes as integers, shared by the proofs below. Lemmas: the
    round trip (C1), field bounds of the date (C2) and of the time (C6).
  \<^item> \<open>Gregorian_Reference\<close>: the proleptic Gregorian calendar as a specification
    (\<open>gregorianLeap\<close>, \<open>daysBeforeYear\<close>, \<open>monthLength\<close>). Lemmas: the refinement of
    \<open>getSumOfDayFromYearValue\<close> against the day count up to 2102 (C3), and over every
    year \<^verbatim>\<open>epochToDate\<close> reaches (1970..2106) the exact set where it is wrong, 2103
    and 2104 (C5); both from one closed-form lemma.
  \<^item> \<open>Gregorian_Order\<close>: the year estimate of \<open>epochToDate\<close> in closed form
    (\<open>uint_yearOfDays\<close>), its bracket and year lengths (\<open>year_bracket\<close>,
    \<open>year_step\<close>). Lemmas: strict monotonicity of \<open>epochToDate\<close> in the day under the
    lexicographic order of \<open>HOL-Library.Product_Lexorder\<close> on \<open>dateKey\<close> (C7), and
    that every date it writes is a Gregorian calendar date except on the single day 48577,
    written as 2102-12-32 (C4).
  \<^item> \<open>RTC_Port\<close>: the register port. Record \<open>rtc_state\<close> holds the RTC registers
    (\<open>regs\<close>, by the datatype \<open>reg\<close>), the backup data registers, PWR DBP, RCC
    BDCR and APB1ENR, the NVIC line, the handler slots and a bus log of \<open>event\<close>s;
    record \<open>hw_env\<close> gives the bits the hardware sets on its own (RTOFF, RSF, LSERDY)
    at each poll. The header's inline helpers (\<open>enterConfigMode\<close>,
    \<open>exitConfigMode\<close>, \<open>enableBackupWrites\<close>, \<open>waitFinished\<close>,
    \<open>waitSync\<close>, h 221--259) are state transformers; a busy-wait is
    \<open>partial_function (option) pollUntil\<close>, \<open>None\<close> being the hang, and
    \<open>pollUntil_terminates\<close> shows that it returns as soon as the hardware sets the bit.
  \<^item> \<open>Counter\<close>: \<open>getTime\<close> over a counter that advances between bus reads,
    \<open>setTime\<close>, \<open>setAlarmTime\<close>, \<open>getMilliseconds\<close> (cpp 76--120). Lemmas:
    rollover safety of the double read (C8), the register sequence of \<open>setTime\<close>
    (C9) and of \<open>setAlarmTime\<close> (C33), both from one lemma on the configuration-mode write
    sequence, termination of \<open>setTime\<close> (C10), millisecond bounds (C11).
  \<^item> \<open>Backup\<close>: the index remapping of both register maps (the
    \<open>BKP_NR_DATA_REGS == 42\<close> variant as the flag \<open>extended\<close>) with its
    \<open>uint8_t\<close> wrap, \<open>getBackupRegister\<close>, \<open>setBackupRegister\<close> (cpp 122--151),
    refined to the abstract slot store \<open>backupAbs\<close> (C12--C15).
  \<^item> \<open>Interrupts\<close>: \<open>attachInterrupt\<close>, \<open>detachInterrupt\<close>,
    \<open>RTC_IRQHandler\<close> and the status queries and flag clears (cpp 32--74, 262--277;
    h 197--219). A handler call is an event of the log (handlers are assumed not to call
    the driver). Lemmas: which handlers the ISR calls and which flags it clears (C16, C17),
    its termination (C18), the effect of attach and detach (C19).
  \<^item> \<open>Interrupt_Interleaving\<close>: attach and detach split into their statements
    (\<open>callOps\<close>, \<open>fgStep\<close>), and the \<open>inductive\<close> step relation
    \<open>rtc_step\<close> in which a statement of a foreground call, the ISR (whenever the NVIC
    line is enabled) or a hardware flag raise happens next; \<open>reach\<close> is reachability
    from reset. The ISR may run at any such point, an over-approximation that is sound for
    the safety statements. The invariant \<open>rtcInv\<close> is proved by rule induction (C20);
    lemmas on what the ISR can and cannot deliver in the middle of attach and detach
    (C21--C23). The sequential functions of \<open>Interrupts\<close> are runs of the step relation
    (\<open>run_call\<close>, \<open>runOps_callOps\<close>).
  \<^item> \<open>Clock_Init\<close>: \<open>isInitialized\<close>, \<open>enableClockInterface\<close>, \<open>init\<close>,
    \<open>begin\<close> (as \<open>begin_rtc\<close>; cpp 4--30, h 193--223), with the RCC masks of the
    vendor header and the backup-domain reset of BDCR. Lemmas: the final state of
    \<open>init\<close> (C24), what \<open>begin\<close> does on a cold and on a warm start (C25), its
    termination (C26), that the user's backup slot 1 is the driver's flag (C27), and that a
    cold \<open>begin\<close> erases every user backup slot (C35, with \<open>Backup\<close>).
  \<^item> \<open>Hijri\<close>: \<open>getNumberOfDaysUntillHijriMonth\<close>, \<open>epochToHijriDate\<close>,
    \<open>hijriDateTimeToEpoch\<close> (cpp 203--243, h 245--247). Lemmas: refinement to the
    arithmetic lunar calendar (C28), bounds (C29), the round trip up to year 1529 (C30),
    day-by-day succession without gaps or repeats, in months of 29 or 30 days (C31), year
    1530 holding exactly the last 33 days of the 32-bit range, none of which round-trips
    (C32), and monotonicity in the epoch (C34, over the abstract month count
    \<open>hijriMonthIndex\<close>).
  \<^item> \<open>Calendar_Types\<close>: the enums \<open>Weekday\<close> and \<open>MonthIndex\<close> (h 106--129) as
    datatypes with their \<^verbatim>\<open>uint8_t\<close> codes (\<open>weekdayCode\<close>, \<open>monthIndexCode\<close>)
    and instances of the library class \<open>enum\<close>, each code being the constructor's index
    in the enumeration; the struct \<open>DateTime\<close> and the overloads
    \<open>epochToDateTimeDT\<close> and \<open>dateTimeToEpochDT\<close> (h 152--155, 185--191), which only
    pass the struct's members to the functions of \<open>Gregorian\<close>.

  \<^bold>\<open>Waits and fuel.\<close> No fuel is used. Each busy-wait is a
  \<open>partial_function (option)\<close> over the poll index, so a hang is the value
  \<open>None\<close>. The termination theorems are equivalences: the operation returns
  (\<open>\<exists>s'. f s = Some s'\<close>) exactly when the hardware sets each awaited bit at some poll
  after the previous wait (\<open>pollUntil_terminates\<close>, \<open>setTime_terminates\<close>,
  \<open>RTC_IRQHandler_terminates\<close>, \<open>begin_rtc_terminates\<close>). So a hang comes only
  from hardware that never sets the bit, never from the driver's loops. The environment
  \<open>hw_ready\<close> is one such hardware, used by the witnesses.

  \<^bold>\<open>Floating point.\<close> \<open>getSumOfDayFromYearValue\<close> computes in float; on the
  years the driver passes (1970..2106) every intermediate value is a multiple of 1/4
  below 2^16 and is exact, so the model computes in \<open>rat\<close>. The Hijri functions
  compute in double with the decimal constants 29.5305882 and 21.252353; the model uses
  those constants as exact rationals. On every day number a 32-bit epoch gives
  (0..49710) and every date in the clamp range, the floors of the exact and of the
  IEEE-double computation agree (checked by enumeration), because no quotient or product
  lies within rounding distance of an integer.

  \<^bold>\<open>Not modelled.\<close> Memory addresses and the libmaple/HAL macro selection of the
  header (they only name registers: the model names them by \<open>reg\<close>); the hardware's
  own behaviour beyond the bits it sets during polling and the BDRST reset (the counter's
  advance is an input of \<open>getTime\<close>; prescaler timing is not modelled); handlers that
  re-enter the driver. Of the sources, only declarations are left out: the class
  declaration, the register-name macros of the HAL branch (h 78--95, the same registers
  as the libmaple branch the model follows), and the \<^verbatim>\<open>#include\<close> and
  \<^verbatim>\<open>extern "C"\<close> guards. The bit-number macros are definitions of \<open>RTC_Port\<close>, tied
  to the masks by \<open>rtc_masks_are_bits\<close>.
\<close>

end
